theory Spec2Isabelle
  imports Complex_Main
begin

section \<open>Python text\<close>

text \<open>
  A Python \<^verbatim>\<open>str\<close> is a sequence of Unicode code points, and \<^verbatim>\<open>len\<close> counts code
  points. Text is therefore a list of code points (natural numbers), not a list of bytes.
\<close>

type_synonym pystr = "nat list"

definition ascii :: "string \<Rightarrow> pystr" where
  "ascii s = map of_char s"

text \<open>The code points for which \<^verbatim>\<open>str.isspace\<close> holds; \<^verbatim>\<open>str.strip()\<close> and the
  regular-expression class \<^verbatim>\<open>\s\<close> use the same set.\<close>

definition py_isspace :: "nat \<Rightarrow> bool" where
  "py_isspace c \<longleftrightarrow>
     (9 \<le> c \<and> c \<le> 13) \<or> (28 \<le> c \<and> c \<le> 32) \<or> c = 133 \<or> c = 160 \<or> c = 5760 \<or>
     (8192 \<le> c \<and> c \<le> 8202) \<or> c = 8232 \<or> c = 8233 \<or> c = 8239 \<or> c = 8287 \<or> c = 12288"

definition lstrip :: "pystr \<Rightarrow> pystr" where
  "lstrip s = dropWhile py_isspace s"

definition rstrip :: "pystr \<Rightarrow> pystr" where
  "rstrip s = rev (dropWhile py_isspace (rev s))"

definition strip :: "pystr \<Rightarrow> pystr" where
  "strip s = rstrip (lstrip s)"

text \<open>\<^verbatim>\<open>str(n)\<close> for an integer: decimal digits, with a minus sign when negative.\<close>

fun digits_nat :: "nat \<Rightarrow> pystr" where
  "digits_nat n = (if n < 10 then [48 + n] else digits_nat (n div 10) @ [48 + n mod 10])"

declare digits_nat.simps [simp del]

definition str_int :: "int \<Rightarrow> pystr" where
  "str_int i = (if i < 0 then 45 # digits_nat (nat (- i)) else digits_nat (nat i))"

datatype py_error = ValueError | TypeError | KeyError | NotFound | OtherError pystr

section \<open>Slide records and the chunker\<close>

record slide =
  slide_num :: int
  title :: pystr
  content :: pystr

text \<open>The two Korean words of the rendered block, as code points: the word for
  "slide" in the marker line (U+C2AC U+B77C U+C774 U+B4DC) and the word for "title"
  (U+C81C U+BAA9).\<close>

definition kw_slide :: pystr where
  "kw_slide = [49836, 46972, 51060, 46300]"

definition kw_title :: pystr where
  "kw_title = [51228, 47785]"

text \<open>The body of the inner loop of \<^verbatim>\<open>chunk_slides\<close>: what one slide adds to the text.\<close>

definition render_slide :: "slide \<Rightarrow> pystr" where
  "render_slide s =
     [10, 91] @ kw_slide @ [32] @ str_int (slide_num s) @ [93, 10]
     @ (if title s \<noteq> [] then kw_title @ [58, 32] @ title s @ [10] else [])
     @ (if content s \<noteq> [] then content s @ [10] else [])"

definition render_group :: "slide list \<Rightarrow> pystr" where
  "render_group g = foldl (\<lambda>chunk_text s. chunk_text @ render_slide s) [] g"

text \<open>\<^verbatim>\<open>range(0, stop, step)\<close>: a zero step raises ValueError, a negative step gives the
  empty range (the stop is a length, hence not negative).\<close>

function range_from :: "nat \<Rightarrow> nat \<Rightarrow> nat \<Rightarrow> nat list" where
  "range_from i stop step =
     (if step = 0 \<or> stop \<le> i then [] else i # range_from (i + step) stop step)"
  by pat_completeness auto
termination
  by (relation "measure (\<lambda>(i, stop, step). stop - i)") auto

declare range_from.simps [simp del]

definition py_range :: "nat \<Rightarrow> int \<Rightarrow> py_error + nat list" where
  "py_range stop step =
     (if step = 0 then Inl ValueError
      else if step < 0 then Inr []
      else Inr (range_from 0 stop (nat step)))"

text \<open>One iteration of the outer loop: the slice \<^verbatim>\<open>slides_data[i:i + chunk_size]\<close>, its
  rendering, and the test that keeps only blocks that are not blank.\<close>

definition chunk_step :: "slide list \<Rightarrow> nat \<Rightarrow> pystr list \<Rightarrow> nat \<Rightarrow> pystr list" where
  "chunk_step slides_data chunk_size chunks i =
     (let chunk_text = render_group (take chunk_size (drop i slides_data))
      in if strip chunk_text \<noteq> [] then chunks @ [strip chunk_text] else chunks)"

definition chunk_slides :: "slide list \<Rightarrow> int \<Rightarrow> py_error + pystr list" where
  "chunk_slides slides_data chunk_size =
     (case py_range (length slides_data) chunk_size of
        Inl e \<Rightarrow> Inl e
      | Inr idxs \<Rightarrow> Inr (foldl (chunk_step slides_data (nat chunk_size)) [] idxs))"

text \<open>The partition the specification describes: consecutive groups of \<open>k\<close> records, the
  last one possibly shorter.\<close>

fun consecutive_groups :: "nat \<Rightarrow> 'a list \<Rightarrow> 'a list list" where
  "consecutive_groups k xs =
     (if k = 0 \<or> xs = [] then [] else take k xs # consecutive_groups k (drop k xs))"

declare consecutive_groups.simps [simp del]

section \<open>Parsed JSON and the validation of generated questions\<close>

text \<open>
  The value \<^verbatim>\<open>json.loads\<close> returns. A Python float is compared with integers by its exact
  value, so a finite float is the rational it denotes; \<^verbatim>\<open>json.loads\<close> also accepts the
  non-finite numbers. A \<^verbatim>\<open>dict\<close> is an association list, read with \<open>map_of\<close>.
\<close>

datatype pyfloat = Finite rat | PosInf | NegInf | NaN

datatype json =
    JNull
  | JBool bool
  | JInt int
  | JFloat pyfloat
  | JStr pystr
  | JArr "json list"
  | JObj "(pystr \<times> json) list"

text \<open>\<^verbatim>\<open>sub in s\<close> on two strings.\<close>

definition contains :: "pystr \<Rightarrow> pystr \<Rightarrow> bool" where
  "contains s sub = list_ex (\<lambda>i. take (length sub) (drop i s) = sub) [0..<Suc (length s)]"

text \<open>\<^verbatim>\<open>key in q\<close> for a string key: membership in a dict's keys, in a list's elements, as
  a substring of a string; any other value is not iterable.\<close>

fun py_in :: "pystr \<Rightarrow> json \<Rightarrow> py_error + bool" where
  "py_in key (JObj kvs) = Inr (map_of kvs key \<noteq> None)"
| "py_in key (JArr xs) = Inr (JStr key \<in> set xs)"
| "py_in key (JStr s) = Inr (contains s key)"
| "py_in key _ = Inl TypeError"

text \<open>\<^verbatim>\<open>all(key in q for key in keys)\<close>: stops at the first key that is absent.\<close>

fun all_in :: "pystr list \<Rightarrow> json \<Rightarrow> py_error + bool" where
  "all_in [] q = Inr True"
| "all_in (key # keys) q =
     (case py_in key q of
        Inl e \<Rightarrow> Inl e
      | Inr False \<Rightarrow> Inr False
      | Inr True \<Rightarrow> all_in keys q)"

text \<open>\<^verbatim>\<open>q[key]\<close> for a string key: only a dict can be subscripted with a string.\<close>

fun py_getitem :: "json \<Rightarrow> pystr \<Rightarrow> py_error + json" where
  "py_getitem (JObj kvs) key = (case map_of kvs key of None \<Rightarrow> Inl KeyError | Some v \<Rightarrow> Inr v)"
| "py_getitem _ key = Inl TypeError"

fun py_len :: "json \<Rightarrow> py_error + nat" where
  "py_len (JStr s) = Inr (length s)"
| "py_len (JArr xs) = Inr (length xs)"
| "py_len (JObj kvs) = Inr (length (remdups (map fst kvs)))"
| "py_len _ = Inl TypeError"

text \<open>\<^verbatim>\<open>0 <= a\<close> and \<^verbatim>\<open>a < n\<close> for an integer \<open>n\<close>: defined on numbers (a bool is the
  integer 0 or 1), a TypeError on everything else.\<close>

fun zero_le :: "json \<Rightarrow> py_error + bool" where
  "zero_le (JInt i) = Inr (0 \<le> i)"
| "zero_le (JBool b) = Inr True"
| "zero_le (JFloat (Finite r)) = Inr (0 \<le> r)"
| "zero_le (JFloat PosInf) = Inr True"
| "zero_le (JFloat NegInf) = Inr False"
| "zero_le (JFloat NaN) = Inr False"
| "zero_le _ = Inl TypeError"

fun less_nat :: "json \<Rightarrow> nat \<Rightarrow> py_error + bool" where
  "less_nat (JInt i) n = Inr (i < int n)"
| "less_nat (JBool b) n = Inr ((if b then 1 else 0) < n)"
| "less_nat (JFloat (Finite r)) n = Inr (r < of_nat n)"
| "less_nat (JFloat PosInf) n = Inr False"
| "less_nat (JFloat NegInf) n = Inr True"
| "less_nat (JFloat NaN) n = Inr False"
| "less_nat _ n = Inl TypeError"

text \<open>\<^verbatim>\<open>v[:5]\<close>: the first five elements of a list or characters of a string; a dict
  cannot be sliced.\<close>

fun slice5 :: "json \<Rightarrow> py_error + json" where
  "slice5 (JArr xs) = Inr (JArr (take 5 xs))"
| "slice5 (JStr s) = Inr (JStr (take 5 s))"
| "slice5 _ = Inl TypeError"

text \<open>\<^verbatim>\<open>q.get('topic', '')\<close>; reached only for a dict.\<close>

fun py_get :: "json \<Rightarrow> pystr \<Rightarrow> json \<Rightarrow> py_error + json" where
  "py_get (JObj kvs) key dflt = Inr (case map_of kvs key of None \<Rightarrow> dflt | Some v \<Rightarrow> v)"
| "py_get _ key dflt = Inl TypeError"

text \<open>The dict a validated question is stored as.\<close>

record question_record =
  question :: json
  choices :: json
  answer_index :: json
  explanation :: json
  topic :: json

definition required_keys :: "pystr list" where
  "required_keys = [ascii ''question'', ascii ''choices'', ascii ''answer_index'',
                    ascii ''explanation'']"

text \<open>
  The body of the validation loop for one candidate \<open>q\<close>: \<open>Inr None\<close> when the candidate is
  skipped, \<open>Inr (Some r)\<close> when \<open>r\<close> is appended, \<open>Inl e\<close> when an exception is raised. The
  conditions are evaluated in the source's order, each only when the previous one held.
\<close>

definition validate_one :: "json \<Rightarrow> py_error + question_record option" where
  "validate_one q =
     (case all_in required_keys q of
        Inl e \<Rightarrow> Inl e
      | Inr False \<Rightarrow> Inr None
      | Inr True \<Rightarrow>
     (case py_getitem q (ascii ''choices'') of
        Inl e \<Rightarrow> Inl e
      | Inr cs \<Rightarrow>
     (case py_len cs of
        Inl e \<Rightarrow> Inl e
      | Inr n \<Rightarrow>
          if \<not> 4 \<le> n then Inr None
          else
     (case py_getitem q (ascii ''answer_index'') of
        Inl e \<Rightarrow> Inl e
      | Inr a \<Rightarrow>
     (case zero_le a of
        Inl e \<Rightarrow> Inl e
      | Inr False \<Rightarrow> Inr None
      | Inr True \<Rightarrow>
     (case less_nat a n of
        Inl e \<Rightarrow> Inl e
      | Inr False \<Rightarrow> Inr None
      | Inr True \<Rightarrow>
     (case py_getitem q (ascii ''question'') of
        Inl e \<Rightarrow> Inl e
      | Inr qu \<Rightarrow>
     (case slice5 cs of
        Inl e \<Rightarrow> Inl e
      | Inr cs5 \<Rightarrow>
     (case py_getitem q (ascii ''explanation'') of
        Inl e \<Rightarrow> Inl e
      | Inr ex \<Rightarrow>
     (case py_get q (ascii ''topic'') (JStr []) of
        Inl e \<Rightarrow> Inl e
      | Inr tp \<Rightarrow>
          Inr (Some \<lparr>question = qu, choices = cs5, answer_index = a,
                     explanation = ex, topic = tp\<rparr>)))))))))))"

fun validate_loop :: "json list \<Rightarrow> question_record list \<Rightarrow> py_error + question_record list" where
  "validate_loop [] validated_questions = Inr validated_questions"
| "validate_loop (q # qs) validated_questions =
     (case validate_one q of
        Inl e \<Rightarrow> Inl e
      | Inr None \<Rightarrow> validate_loop qs validated_questions
      | Inr (Some r) \<Rightarrow> validate_loop qs (validated_questions @ [r]))"

text \<open>What \<^verbatim>\<open>for q in questions\<close> iterates over: the elements of a list, the keys of a
  dict, the characters of a string; any other value is not iterable.\<close>

fun py_iter :: "json \<Rightarrow> py_error + json list" where
  "py_iter (JArr xs) = Inr xs"
| "py_iter (JObj kvs) = Inr (map JStr (remdups (map fst kvs)))"
| "py_iter (JStr s) = Inr (map (\<lambda>c. JStr [c]) s)"
| "py_iter _ = Inl TypeError"

text \<open>
  \<^verbatim>\<open>generate_quiz_from_chunk\<close> from the parsed reply on. The argument is \<open>None\<close> when the
  API call raised, no JSON text was found in the reply, or \<^verbatim>\<open>json.loads\<close> raised: all three
  return the empty list. So does every exception raised during validation, which the
  enclosing \<^verbatim>\<open>except Exception\<close> catches.
\<close>

definition generate_quiz_from_chunk :: "json option \<Rightarrow> question_record list" where
  "generate_quiz_from_chunk parsed =
     (case parsed of
        None \<Rightarrow> []
      | Some questions \<Rightarrow>
          (case py_iter questions of
             Inl e \<Rightarrow> []
           | Inr qs \<Rightarrow>
               (case validate_loop qs [] of
                  Inl e \<Rightarrow> []
                | Inr validated_questions \<Rightarrow> validated_questions)))"

section \<open>The document database and the job tracker\<close>

text \<open>
  A stored document is a finite map from field names to values. \<open>ServerTimestamp\<close> is the
  sentinel \<^verbatim>\<open>firestore.SERVER_TIMESTAMP\<close>, which the server replaces by its clock when it
  writes the field.
\<close>

datatype fvalue = VStr pystr | VInt int | VTime nat | ServerTimestamp

type_synonym document = "pystr \<rightharpoonup> fvalue"

definition resolve :: "nat \<Rightarrow> document \<Rightarrow> document" where
  "resolve now d = (\<lambda>k. case d k of Some ServerTimestamp \<Rightarrow> Some (VTime now) | v \<Rightarrow> v)"

text \<open>
  \<^verbatim>\<open>DocumentReference.update(update_data)\<close> of the database client, for top-level field
  names: it raises NotFound when the document does not exist, and otherwise writes the
  given fields into the stored document, leaving every field it is not given as it was.
\<close>

definition document_update ::
  "nat \<Rightarrow> (pystr \<rightharpoonup> document) \<Rightarrow> pystr \<Rightarrow> document \<Rightarrow> py_error + (pystr \<rightharpoonup> document)" where
  "document_update now coll doc_id update_data =
     (case coll doc_id of
        None \<Rightarrow> Inl NotFound
      | Some stored \<Rightarrow> Inr (coll(doc_id \<mapsto> stored ++ resolve now update_data)))"

text \<open>The collection \<^verbatim>\<open>quizJobs\<close> reached through the global client \<^verbatim>\<open>db\<close>, and the
  server's clock.\<close>

record jobs_db =
  quizJobs :: "pystr \<rightharpoonup> document"
  server_time :: nat

text \<open>
  The keyword arguments of a call are an association list. Python binds the arguments to
  the parameters before the body runs: a keyword given twice, or named like one of the
  parameters \<^verbatim>\<open>job_id\<close>, \<^verbatim>\<open>status\<close>, \<^verbatim>\<open>progress\<close> that the call already supplies,
  raises TypeError.
\<close>

definition binds :: "(pystr \<times> fvalue) list \<Rightarrow> bool" where
  "binds kwargs \<longleftrightarrow>
     distinct (map fst kwargs)
     \<and> ascii ''job_id'' \<notin> fst ` set kwargs
     \<and> ascii ''status'' \<notin> fst ` set kwargs
     \<and> ascii ''progress'' \<notin> fst ` set kwargs"

text \<open>The dict \<^verbatim>\<open>update_data\<close>: the three base entries, then
  \<^verbatim>\<open>update_data.update(kwargs)\<close>.\<close>

definition update_data_of :: "pystr \<Rightarrow> int \<Rightarrow> (pystr \<times> fvalue) list \<Rightarrow> document" where
  "update_data_of status progress kwargs =
     map_of [(ascii ''status'', VStr status),
             (ascii ''progress'', VInt progress),
             (ascii ''updatedAt'', ServerTimestamp)]
     ++ map_of kwargs"

text \<open>\<^verbatim>\<open>update_job_status(job_id, status, progress, **kwargs)\<close>: when the arguments do not
  bind, the body does not run and nothing is written.\<close>

definition update_job_status ::
  "pystr \<Rightarrow> pystr \<Rightarrow> int \<Rightarrow> (pystr \<times> fvalue) list \<Rightarrow> jobs_db \<Rightarrow> py_error + jobs_db" where
  "update_job_status job_id status progress kwargs db =
     (if \<not> binds kwargs then Inl TypeError
      else case document_update (server_time db) (quizJobs db) job_id
                  (update_data_of status progress kwargs) of
             Inl e \<Rightarrow> Inl e
           | Inr coll \<Rightarrow> Inr (db\<lparr>quizJobs := coll\<rparr>))"

text \<open>The fields one call writes, with the server's time in place of the sentinel.\<close>

definition fresh_snapshot :: "nat \<Rightarrow> pystr \<Rightarrow> int \<Rightarrow> (pystr \<times> fvalue) list \<Rightarrow> document" where
  "fresh_snapshot now status progress kwargs = resolve now (update_data_of status progress kwargs)"

section \<open>The text extractor\<close>

subsection \<open>Splitting and joining lines\<close>

text \<open>\<^verbatim>\<open>sep.join(xs)\<close> and \<^verbatim>\<open>s.split('\n')\<close>; splitting the empty string gives one empty
  line.\<close>

fun join :: "pystr \<Rightarrow> pystr list \<Rightarrow> pystr" where
  "join sep [] = []"
| "join sep [x] = x"
| "join sep (x # y # ys) = x @ sep @ join sep (y # ys)"

fun split_nl :: "pystr \<Rightarrow> pystr list" where
  "split_nl [] = [[]]"
| "split_nl (c # cs) =
     (if c = 10 then [] # split_nl cs
      else (case split_nl cs of [] \<Rightarrow> [[c]] | l # ls \<Rightarrow> (c # l) # ls))"

subsection \<open>The page-number pattern\<close>

text \<open>
  A pattern is the function that maps an input to the list of inputs that remain after
  each way of matching a prefix of it; \<^verbatim>\<open>re.match\<close> succeeds when some way exists. The
  class \<^verbatim>\<open>\d\<close> of a text pattern is the Unicode category Nd: the ten ASCII digits and
  further decimal digits that depend on the Unicode tables of the interpreter, which are the
  parameter \<open>nd\<close> throughout. \<^verbatim>\<open>$\<close> matches at the end and before a final line feed.
  Under \<^verbatim>\<open>re.IGNORECASE\<close> a letter of the pattern matches its two ASCII cases; the Korean
  syllables have no case.
\<close>

type_synonym pattern = "pystr \<Rightarrow> pystr list"

definition is_digit :: "(nat \<Rightarrow> bool) \<Rightarrow> nat \<Rightarrow> bool" where
  "is_digit nd c \<longleftrightarrow> (48 \<le> c \<and> c \<le> 57) \<or> nd c"

definition lower :: "nat \<Rightarrow> nat" where
  "lower c = (if 65 \<le> c \<and> c \<le> 90 then c + 32 else c)"

fun rx_lit :: "pystr \<Rightarrow> pattern" where
  "rx_lit [] s = [s]"
| "rx_lit (a # as) [] = []"
| "rx_lit (a # as) (c # cs) = (if lower a = lower c then rx_lit as cs else [])"

fun rx_star :: "(nat \<Rightarrow> bool) \<Rightarrow> pattern" where
  "rx_star p [] = [[]]"
| "rx_star p (c # cs) = (if p c then rx_star p cs @ [c # cs] else [c # cs])"

definition rx_plus :: "(nat \<Rightarrow> bool) \<Rightarrow> pattern" where
  "rx_plus p s = (case s of [] \<Rightarrow> [] | c # cs \<Rightarrow> if p c then rx_star p cs else [])"

definition rx_eol :: pattern where
  "rx_eol s = (if s = [] \<or> s = [10] then [s] else [])"

definition rx_seq :: "pattern \<Rightarrow> pattern \<Rightarrow> pattern" where
  "rx_seq a b s = concat (map b (a s))"

definition rx_alt :: "pattern \<Rightarrow> pattern \<Rightarrow> pattern" where
  "rx_alt a b s = a s @ b s"

text \<open>The Korean word for "page" in the pattern: U+D398 U+C774 U+C9C0.\<close>

definition kw_page :: pystr where
  "kw_page = [54168, 51060, 51648]"

text \<open>The four alternatives of the pattern, in the source's order: digits to the end; the
  Korean word, blanks, digits; \<^verbatim>\<open>Page\<close>, blanks, digits; digits, a slash between blanks,
  digits to the end.\<close>

definition page_num_pattern :: "(nat \<Rightarrow> bool) \<Rightarrow> pattern" where
  "page_num_pattern nd =
     rx_alt (rx_seq (rx_plus (is_digit nd)) rx_eol)
    (rx_alt (rx_seq (rx_lit kw_page) (rx_seq (rx_star py_isspace) (rx_plus (is_digit nd))))
    (rx_alt (rx_seq (rx_lit (ascii ''Page'')) (rx_seq (rx_star py_isspace) (rx_plus (is_digit nd))))
            (rx_seq (rx_plus (is_digit nd))
            (rx_seq (rx_star py_isspace)
            (rx_seq (rx_lit (ascii ''/''))
            (rx_seq (rx_star py_isspace)
            (rx_seq (rx_plus (is_digit nd)) rx_eol)))))))"

definition page_num_match :: "(nat \<Rightarrow> bool) \<Rightarrow> pystr \<Rightarrow> bool" where
  "page_num_match nd s \<longleftrightarrow> page_num_pattern nd s \<noteq> []"

subsection \<open>The presentation as the code reads it\<close>

text \<open>
  What the extractor reads of a shape: whether it has a text frame, whether it is the
  slide's title placeholder, its whole text, the texts of its paragraphs, whether it holds a
  table, and the table's rows as lists of cell texts. A cell's text joins the cell's
  paragraphs with line feeds, so it may contain line feeds.
\<close>

record shape =
  has_text_frame :: bool
  is_title :: bool
  shape_text :: pystr
  paragraphs :: "pystr list"
  has_table :: bool
  table_rows :: "pystr list list"

type_synonym presentation = "shape list list"

text \<open>One table row: the stripped non-empty cell texts, joined, when there is any.\<close>

definition row_parts :: "pystr list \<Rightarrow> pystr list" where
  "row_parts cells =
     (let row_texts = filter (\<lambda>cell_text. cell_text \<noteq> []) (map strip cells)
      in if row_texts \<noteq> [] then [join (ascii '' | '') row_texts] else [])"

text \<open>The body of the loop over a slide's shapes, on the pair of the title and the content
  parts collected so far.\<close>

definition shape_step :: "pystr \<times> pystr list \<Rightarrow> shape \<Rightarrow> pystr \<times> pystr list" where
  "shape_step st sh =
     (let st1 =
        (if has_text_frame sh then
           (if is_title sh then (strip (shape_text sh), snd st)
            else (fst st, snd st @ filter (\<lambda>t. t \<noteq> []) (map strip (paragraphs sh))))
         else st)
      in if has_table sh then (fst st1, snd st1 @ concat (map row_parts (table_rows sh)))
         else st1)"

definition slide_text :: "shape list \<Rightarrow> pystr \<times> pystr list" where
  "slide_text shapes = foldl shape_step ([], []) shapes"

text \<open>The dict \<^verbatim>\<open>footer_candidates\<close> is an association list with one entry per key, in
  the order of insertion. \<open>bump\<close> is the assignment
  \<^verbatim>\<open>footer_candidates[text] = footer_candidates.get(text, 0) + 1\<close>, made for short texts
  only.\<close>

fun bump :: "(pystr \<times> nat) list \<Rightarrow> pystr \<Rightarrow> (pystr \<times> nat) list" where
  "bump [] t = [(t, 0 + 1)]"
| "bump ((k, n) # rest) t = (if k = t then (k, n + 1) # rest else (k, n) # bump rest t)"

text \<open>\<^verbatim>\<open>footer_candidates.get(text, 0)\<close>.\<close>

definition footer_count :: "(pystr \<times> nat) list \<Rightarrow> pystr \<Rightarrow> nat" where
  "footer_count footer_candidates t = (case map_of footer_candidates t of None \<Rightarrow> 0 | Some n \<Rightarrow> n)"

definition count_footer :: "(pystr \<times> nat) list \<Rightarrow> pystr \<Rightarrow> (pystr \<times> nat) list" where
  "count_footer footer_candidates t =
     (if length t < 50 then bump footer_candidates t else footer_candidates)"

text \<open>The body of the loop over the slides, on the pair of the records and the footer
  counts collected so far.\<close>

definition slide_step ::
  "slide list \<times> (pystr \<times> nat) list \<Rightarrow> int \<times> shape list
     \<Rightarrow> slide list \<times> (pystr \<times> nat) list" where
  "slide_step st numbered =
     (let (ttl, content_parts) = slide_text (snd numbered);
          footer_candidates = foldl count_footer (snd st) content_parts;
          cont = join [10] content_parts
      in (if ttl \<noteq> [] \<or> cont \<noteq> []
          then fst st @ [\<lparr>slide_num = fst numbered, title = ttl, content = cont\<rparr>]
          else fst st,
          footer_candidates))"

definition enumerate1 :: "'a list \<Rightarrow> (int \<times> 'a) list" where
  "enumerate1 xs = zip (map int [1..<Suc (length xs)]) xs"

definition collect_slides :: "presentation \<Rightarrow> slide list \<times> (pystr \<times> nat) list" where
  "collect_slides prs = foldl slide_step ([], []) (enumerate1 prs)"

text \<open>The set \<^verbatim>\<open>footers_to_remove\<close>, as the list of its members. The source compares
  the count with \<^verbatim>\<open>total_slides * 0.5\<close>; on integers that is \<open>total_slides \<le> 2 * count\<close>.\<close>

definition footers_to_remove :: "(pystr \<times> nat) list \<Rightarrow> nat \<Rightarrow> pystr list" where
  "footers_to_remove footer_candidates total_slides =
     map fst (filter (\<lambda>(t, n). total_slides \<le> 2 * n \<and> 2 < n) footer_candidates)"

definition filter_content :: "(nat \<Rightarrow> bool) \<Rightarrow> pystr list \<Rightarrow> pystr \<Rightarrow> pystr" where
  "filter_content nd footers cont =
     join [10] (filter (\<lambda>line. line \<notin> set footers \<and> \<not> page_num_match nd (strip line))
                       (split_nl cont))"

definition extract_text_from_pptx :: "(nat \<Rightarrow> bool) \<Rightarrow> presentation \<Rightarrow> slide list" where
  "extract_text_from_pptx nd prs =
     (let (slides_data, footer_candidates) = collect_slides prs;
          total_slides = length slides_data;
          footers = footers_to_remove footer_candidates total_slides
      in map (\<lambda>s. s\<lparr>content := filter_content nd footers (content s)\<rparr>) slides_data)"

text \<open>The content parts of all slides of a presentation, in order: every stripped
  paragraph text and joined table row the extractor collects.\<close>

definition all_content_parts :: "presentation \<Rightarrow> pystr list" where
  "all_content_parts prs = concat (map (\<lambda>shapes. snd (slide_text shapes)) prs)"

lemmas extract_defs = extract_text_from_pptx_def collect_slides_def enumerate1_def slide_step_def
  slide_text_def shape_step_def count_footer_def footers_to_remove_def filter_content_def
  strip_def lstrip_def rstrip_def py_isspace_def row_parts_def
  page_num_match_def page_num_pattern_def rx_alt_def rx_seq_def rx_plus_def rx_eol_def
  is_digit_def lower_def kw_page_def ascii_def Let_def

section \<open>The presentation-to-PDF endpoints\<close>

text \<open>
  The local disk: the paths of the files and of the directories that exist. The handlers
  create a scratch file for the upload and a scratch directory for the output.
\<close>

record disk =
  disk_files :: "pystr list"
  disk_dirs :: "pystr list"

datatype os_error = OSError

definition path_exists :: "pystr \<Rightarrow> disk \<Rightarrow> bool" where
  "path_exists p d \<longleftrightarrow> p \<in> set (disk_files d) \<or> p \<in> set (disk_dirs d)"

definition create_file :: "pystr \<Rightarrow> disk \<Rightarrow> disk" where
  "create_file p d = d\<lparr>disk_files := List.insert p (disk_files d)\<rparr>"

definition mkdir :: "pystr \<Rightarrow> disk \<Rightarrow> disk" where
  "mkdir p d = d\<lparr>disk_dirs := List.insert p (disk_dirs d)\<rparr>"

text \<open>\<^verbatim>\<open>os.unlink\<close> removes a file and raises on anything else; \<^verbatim>\<open>os.rmdir\<close> removes a
  directory that exists and has nothing in it, and raises otherwise.\<close>

definition unlink :: "pystr \<Rightarrow> disk \<Rightarrow> os_error + disk" where
  "unlink p d =
     (if p \<in> set (disk_files d) then Inr (d\<lparr>disk_files := removeAll p (disk_files d)\<rparr>)
      else Inl OSError)"

definition inside :: "pystr \<Rightarrow> pystr \<Rightarrow> bool" where
  "inside dir p \<longleftrightarrow> take (Suc (length dir)) p = dir @ [47] \<and> length dir < length p"

definition rmdir :: "pystr \<Rightarrow> disk \<Rightarrow> os_error + disk" where
  "rmdir p d =
     (if p \<in> set (disk_dirs d) \<and> \<not> list_ex (inside p) (disk_files d @ disk_dirs d)
      then Inr (d\<lparr>disk_dirs := removeAll p (disk_dirs d)\<rparr>)
      else Inl OSError)"

text \<open>\<^verbatim>\<open>os.path.basename\<close>, \<^verbatim>\<open>str.replace('.pptx', '.pdf')\<close> and \<^verbatim>\<open>os.path.join\<close> of two
  components.\<close>

definition basename :: "pystr \<Rightarrow> pystr" where
  "basename p = rev (takeWhile (\<lambda>c. c \<noteq> 47) (rev p))"

function replace_pptx :: "pystr \<Rightarrow> pystr" where
  "replace_pptx s =
     (if s = [] then []
      else if take 5 s = ascii ''.pptx'' then ascii ''.pdf'' @ replace_pptx (drop 5 s)
      else hd s # replace_pptx (tl s))"
  by pat_completeness auto
termination
  by (relation "measure length") auto

declare replace_pptx.simps [simp del]

definition path_join :: "pystr \<Rightarrow> pystr \<Rightarrow> pystr" where
  "path_join a b =
     (if b \<noteq> [] \<and> hd b = 47 then b
      else if a = [] \<or> last a = 47 then a @ b
      else a @ [47] @ b)"

text \<open>
  What the handler does not decide: the names the operating system gives the scratch file
  and the scratch directory, how the office process ends (\<^verbatim>\<open>subprocess.run\<close> with
  \<^verbatim>\<open>check=True\<close> and \<^verbatim>\<open>timeout=120\<close> returns, raises \<^verbatim>\<open>TimeoutExpired\<close> or raises
  \<^verbatim>\<open>CalledProcessError\<close>), and which files the process has written by then.
\<close>

datatype run_result = Completed | TimeoutExpired | CalledProcessError

record conv_env =
  pptx_path :: pystr
  output_dir :: pystr
  run_result :: run_result
  run_files :: "pystr list"

datatype body = ErrorJson | PdfBinary | PdfJson | OptionsReply | QuizCreated

record response =
  resp_status :: nat
  resp_body :: body

definition run_office :: "conv_env \<Rightarrow> disk \<Rightarrow> disk" where
  "run_office env d = foldr create_file (run_files env) d"

definition pdf_path :: "conv_env \<Rightarrow> pystr" where
  "pdf_path env = path_join (output_dir env) (replace_pptx (basename (pptx_path env)))"

text \<open>The \<^verbatim>\<open>finally\<close> clause of both handlers: the uploaded scratch file is removed when it
  exists. It guards the whole inner block, so it runs on every way out of it.\<close>

definition finally_unlink :: "conv_env \<Rightarrow> disk \<Rightarrow> disk" where
  "finally_unlink env d =
     (if path_exists (pptx_path env) d
      then (case unlink (pptx_path env) d of Inl e \<Rightarrow> d | Inr d' \<Rightarrow> d')
      else d)"

text \<open>
  \<^verbatim>\<open>convert_to_pdf_direct\<close>. The request carries the base64 text, absent or empty when
  \<open>None\<close> or \<open>Some []\<close>, and \<open>decodable\<close> says whether \<^verbatim>\<open>b64decode\<close> accepts it. On success
  the output file and the output directory are removed before the reply is built; a
  failure of those two calls is an exception like any other (status 500).
\<close>

definition convert_to_pdf_direct ::
  "conv_env \<Rightarrow> pystr option \<Rightarrow> bool \<Rightarrow> disk \<Rightarrow> response \<times> disk" where
  "convert_to_pdf_direct env pptx_base64 decodable d =
     (if pptx_base64 = None \<or> pptx_base64 = Some []
      then (\<lparr>resp_status = 400, resp_body = ErrorJson\<rparr>, d)
      else if \<not> decodable then (\<lparr>resp_status = 500, resp_body = ErrorJson\<rparr>, d)
      else
        let d1 = create_file (pptx_path env) d;
            d2 = mkdir (output_dir env) d1;
            d3 = run_office env d2
        in (case run_result env of
              TimeoutExpired \<Rightarrow>
                (\<lparr>resp_status = 504, resp_body = ErrorJson\<rparr>, finally_unlink env d3)
            | CalledProcessError \<Rightarrow>
                (\<lparr>resp_status = 500, resp_body = ErrorJson\<rparr>, finally_unlink env d3)
            | Completed \<Rightarrow>
                if \<not> path_exists (pdf_path env) d3
                then (\<lparr>resp_status = 500, resp_body = ErrorJson\<rparr>, finally_unlink env d3)
                else (case unlink (pdf_path env) d3 of
                        Inl e \<Rightarrow>
                          (\<lparr>resp_status = 500, resp_body = ErrorJson\<rparr>, finally_unlink env d3)
                      | Inr d4 \<Rightarrow>
                          (case rmdir (output_dir env) d4 of
                             Inl e \<Rightarrow>
                               (\<lparr>resp_status = 500, resp_body = ErrorJson\<rparr>,
                                finally_unlink env d4)
                           | Inr d5 \<Rightarrow>
                               (\<lparr>resp_status = 200, resp_body = PdfJson\<rparr>,
                                finally_unlink env d5)))))"

text \<open>The callback \<^verbatim>\<open>cleanup\<close> that \<^verbatim>\<open>convert_pdf\<close> registers with \<^verbatim>\<open>call_on_close\<close> on the
  successful reply only: what it does to the disk when it is called. It swallows every
  exception.\<close>

definition cleanup :: "conv_env \<Rightarrow> disk \<Rightarrow> disk" where
  "cleanup env d =
     (let r1 = (if path_exists (pdf_path env) d then unlink (pdf_path env) d else Inr d)
      in case r1 of
           Inl e \<Rightarrow> d
         | Inr d1 \<Rightarrow>
             (if path_exists (output_dir env) d1
              then (case rmdir (output_dir env) d1 of Inl e \<Rightarrow> d1 | Inr d2 \<Rightarrow> d2)
              else d1))"

text \<open>
  \<^verbatim>\<open>convert_pdf\<close>. The request is its method being \<^verbatim>\<open>OPTIONS\<close>, whether the bearer token
  verifies, and whether the multipart field \<^verbatim>\<open>file\<close> is present. The disk returned is
  the disk when the handler has returned and the reply has been sent. The reply of
  \<^verbatim>\<open>send_file\<close> is handed to the server as the open file itself: the server closes that file
  and not the response object, so the registered callback \<^verbatim>\<open>cleanup\<close> is not called, and the
  output file and the output directory stay on the disk on the successful path too.
\<close>

definition convert_pdf :: "conv_env \<Rightarrow> bool \<Rightarrow> bool \<Rightarrow> bool \<Rightarrow> disk \<Rightarrow> response \<times> disk" where
  "convert_pdf env is_options token_ok has_file d =
     (if is_options then (\<lparr>resp_status = 200, resp_body = OptionsReply\<rparr>, d)
      else if \<not> token_ok then (\<lparr>resp_status = 401, resp_body = ErrorJson\<rparr>, d)
      else if \<not> has_file then (\<lparr>resp_status = 400, resp_body = ErrorJson\<rparr>, d)
      else
        let d1 = create_file (pptx_path env) d;
            d2 = mkdir (output_dir env) d1;
            d3 = run_office env d2
        in (case run_result env of
              TimeoutExpired \<Rightarrow>
                (\<lparr>resp_status = 504, resp_body = ErrorJson\<rparr>, finally_unlink env d3)
            | CalledProcessError \<Rightarrow>
                (\<lparr>resp_status = 500, resp_body = ErrorJson\<rparr>, finally_unlink env d3)
            | Completed \<Rightarrow>
                if \<not> path_exists (pdf_path env) d3
                then (\<lparr>resp_status = 500, resp_body = ErrorJson\<rparr>, finally_unlink env d3)
                else if pdf_path env \<notin> set (disk_files d3)
                then (\<lparr>resp_status = 500, resp_body = ErrorJson\<rparr>, finally_unlink env d3)
                else (\<lparr>resp_status = 200, resp_body = PdfBinary\<rparr>, finally_unlink env d3)))"

section \<open>The pipeline orchestrator\<close>

subsection \<open>Requests, stored quizzes and the world of one run\<close>

text \<open>
  The JSON body of \<^verbatim>\<open>/process-pptx\<close>, field by field as \<^verbatim>\<open>data.get\<close> reads it: \<open>None\<close> is
  an absent field. The requested count is a Python integer.
\<close>

record job_request =
  req_job_id :: "pystr option"
  req_storage_path :: "pystr option"
  req_user_id :: "pystr option"
  req_folder_name :: "pystr option"
  req_difficulty :: "pystr option"
  req_question_count :: "int option"
  req_tags :: "pystr list"
  req_keywords :: "pystr list"

record stored_question =
  q_id :: pystr
  q_type :: pystr
  q_text :: json
  q_choices :: json
  q_answer :: json
  q_explanation :: json
  q_topic :: json

record quiz_document =
  quiz_title :: pystr
  quiz_type :: pystr
  quiz_tags :: "pystr list"
  quiz_questions :: "stored_question list"
  quiz_creator_id :: pystr
  quiz_is_public :: bool
  quiz_total_questions :: nat
  quiz_source_type :: pystr
  quiz_slide_count :: nat
  quiz_keywords :: "pystr list"
  quiz_created_at :: nat
  quiz_updated_at :: nat

text \<open>An object of the storage bucket, and so the content of the local copy: a
  presentation that the parser can read, or bytes it rejects.\<close>

datatype blob = PptxFile presentation | OtherBytes

text \<open>
  Everything a run reads and writes: the job records, the documents of the collection
  \<^verbatim>\<open>quizzes\<close> in the order they were written, the storage bucket, and the local scratch
  files. Two logs record, in order, the status and progress of every call of
  \<^verbatim>\<open>update_job_status\<close> and the chunk of every call of \<^verbatim>\<open>generate_quiz_from_chunk\<close>.
\<close>

record world =
  jobs :: jobs_db
  quizzes :: "(pystr \<times> quiz_document) list"
  bucket :: "(pystr \<times> blob) list"
  local_files :: "(pystr \<times> blob) list"
  status_calls :: "(pystr \<times> int) list"
  generation_calls :: "pystr list"

text \<open>
  What a run does not decide. \<open>reply i chunk difficulty keywords\<close> is what the call of
  \<^verbatim>\<open>generate_quiz_from_chunk\<close> for chunk number \<open>i\<close> meets: an exception raised while the
  prompt is built, before the function's own \<^verbatim>\<open>try\<close>, or the parsed reply of the model
  (\<open>None\<close> when the call or the parsing failed inside the \<^verbatim>\<open>try\<close>). \<open>chunk_progress i n\<close>
  is the value of \<^verbatim>\<open>25 + int((i / len(chunks)) * 60)\<close>, computed in floating point.
  \<open>error_text\<close> is \<^verbatim>\<open>str(e)\<close>.
\<close>

datatype gen_outcome = GenRaises py_error | GenReply "json option"

record pipeline_env =
  unicode_nd :: "nat \<Rightarrow> bool"
  tmp_path :: pystr
  reply :: "nat \<Rightarrow> pystr \<Rightarrow> pystr option \<Rightarrow> pystr list \<Rightarrow> gen_outcome"
  chunk_progress :: "nat \<Rightarrow> nat \<Rightarrow> int"
  new_quiz_id :: pystr
  quiz_write_ok :: bool
  error_text :: "py_error \<Rightarrow> pystr"

text \<open>A step either raises, with the world as it is then, or returns a value and a world.\<close>

type_synonym 'a outcome = "(py_error \<times> world) + ('a \<times> world)"

definition out_world :: "'a outcome \<Rightarrow> world" where
  "out_world r = (case r of Inl (e, w) \<Rightarrow> w | Inr (x, w) \<Rightarrow> w)"

subsection \<open>The texts of the status messages, as code points\<close>

definition msg_download :: pystr where
  "msg_download = [80, 80, 84, 88, 32, 45796, 50868, 47196, 46300, 32, 51473, 46, 46, 46]"

definition msg_extract :: pystr where
  "msg_extract = [49836, 46972, 51060, 46300, 32, 53581, 49828, 53944, 32, 52628, 52636, 32,
                  51473, 46, 46, 46]"

definition err_no_text :: pystr where
  "err_no_text = [49836, 46972, 51060, 46300, 50640, 49436, 32, 53581, 49828, 53944, 47484, 32,
                  52286, 51012, 32, 49688, 32, 50630, 49845, 45768, 45796, 46]"

definition msg_chunks :: "nat \<Rightarrow> nat \<Rightarrow> pystr list \<Rightarrow> pystr" where
  "msg_chunks n_slides n_chunks keywords =
     str_int (int n_slides) @ [44060, 32, 49836, 46972, 51060, 46300, 50640, 49436, 32]
     @ str_int (int n_chunks) @ [44060, 32, 52397, 53356, 32, 49373, 49457, 46120]
     @ (if keywords \<noteq> []
        then [32, 40, 53412, 50892, 46300, 32] @ str_int (int (length keywords)) @ [44060, 41]
        else [])"

definition msg_generating :: "nat \<Rightarrow> nat \<Rightarrow> pystr" where
  "msg_generating i n_chunks =
     [53300, 51592, 32, 49373, 49457, 32, 51473, 46, 46, 46, 32, 40]
     @ str_int (int i + 1) @ [47] @ str_int (int n_chunks) @ [41]"

definition err_no_questions :: pystr where
  "err_no_questions = [47928, 51228, 32, 49373, 49457, 50640, 32, 49892, 54056, 54664, 49845,
                       45768, 45796, 46]"

definition msg_saving :: pystr where
  "msg_saving = [53300, 51592, 32, 51200, 51109, 32, 51473, 46, 46, 46]"

definition msg_done :: pystr where
  "msg_done = [53300, 51592, 32, 49373, 49457, 32, 50756, 47308, 33]"

definition default_folder :: pystr where
  "default_folder = [53300, 51592]"

subsection \<open>The steps of a run\<close>

text \<open>A call of \<^verbatim>\<open>update_job_status\<close> from the orchestrator: logged, then made.\<close>

definition set_status ::
  "pystr \<Rightarrow> pystr \<Rightarrow> int \<Rightarrow> (pystr \<times> fvalue) list \<Rightarrow> world \<Rightarrow> unit outcome" where
  "set_status job_id st progress kwargs w =
     (let w1 = w\<lparr>status_calls := status_calls w @ [(st, progress)]\<rparr>
      in case update_job_status job_id st progress kwargs (jobs w1) of
           Inl e \<Rightarrow> Inl (e, w1)
         | Inr db \<Rightarrow> Inr ((), w1\<lparr>jobs := db\<rparr>))"

text \<open>\<^verbatim>\<open>xs[:n]\<close> for an integer \<open>n\<close>: a negative \<open>n\<close> counts from the end.\<close>

definition slice_to :: "'a list \<Rightarrow> int \<Rightarrow> 'a list" where
  "slice_to xs n = (if 0 \<le> n then take (nat n) xs else take (nat (int (length xs) + n)) xs)"

definition enumerate0 :: "'a list \<Rightarrow> (nat \<times> 'a) list" where
  "enumerate0 xs = zip [0..<length xs] xs"

text \<open>
  The loop over the chunks, on the chunks still to visit with their numbers. Each
  iteration reports progress, calls the generator, extends the accumulator, and leaves the
  loop when the accumulator has reached the requested count.
\<close>

fun generate_loop ::
  "pipeline_env \<Rightarrow> job_request \<Rightarrow> pystr \<Rightarrow> int \<Rightarrow> nat \<Rightarrow> (nat \<times> pystr) list
     \<Rightarrow> question_record list \<Rightarrow> world \<Rightarrow> question_record list outcome" where
  "generate_loop env req job_id question_count n_chunks [] all_questions w =
     Inr (all_questions, w)"
| "generate_loop env req job_id question_count n_chunks ((i, chunk) # rest) all_questions w =
     (case set_status job_id (ascii ''processing'') (chunk_progress env i n_chunks)
             [(ascii ''message'', VStr (msg_generating i n_chunks))] w of
        Inl ew \<Rightarrow> Inl ew
      | Inr (u, w1) \<Rightarrow>
          (let w2 = w1\<lparr>generation_calls := generation_calls w1 @ [chunk]\<rparr>
           in case reply env i chunk (req_difficulty req) (req_keywords req) of
                GenRaises e \<Rightarrow> Inl (e, w2)
              | GenReply parsed \<Rightarrow>
                  (let all_questions' = all_questions @ generate_quiz_from_chunk parsed
                   in if question_count \<le> int (length all_questions')
                      then Inr (all_questions', w2)
                      else generate_loop env req job_id question_count n_chunks rest
                             all_questions' w2)))"

text \<open>The entry of the quiz document for the question at position \<open>i\<close>.\<close>

definition store_question :: "nat \<times> question_record \<Rightarrow> stored_question" where
  "store_question iq =
     \<lparr>q_id = 113 # str_int (int (fst iq) + 1),
      q_type = ascii ''multiple'',
      q_text = question (snd iq),
      q_choices = choices (snd iq),
      q_answer = answer_index (snd iq),
      q_explanation = explanation (snd iq),
      q_topic = topic (snd iq)\<rparr>"

definition quiz_data ::
  "job_request \<Rightarrow> pystr \<Rightarrow> question_record list \<Rightarrow> nat \<Rightarrow> nat \<Rightarrow> quiz_document" where
  "quiz_data req user_id all_questions n_slides now =
     \<lparr>quiz_title = (case req_folder_name req of None \<Rightarrow> default_folder | Some f \<Rightarrow> f),
      quiz_type = ascii ''learning'',
      quiz_tags = req_tags req,
      quiz_questions = map store_question (enumerate0 all_questions),
      quiz_creator_id = user_id,
      quiz_is_public = False,
      quiz_total_questions = length all_questions,
      quiz_source_type = ascii ''pptx'',
      quiz_slide_count = n_slides,
      quiz_keywords = req_keywords req,
      quiz_created_at = now,
      quiz_updated_at = now\<rparr>"

text \<open>
  The run after the loop: the accumulator is cut to the requested count; when nothing is
  left the job is marked failed and the reply is 500; otherwise the quiz document is
  written, the uploaded object is deleted from the bucket, and the job is marked completed.
\<close>

definition finish ::
  "pipeline_env \<Rightarrow> job_request \<Rightarrow> pystr \<Rightarrow> pystr \<Rightarrow> pystr \<Rightarrow> int \<Rightarrow> nat
     \<Rightarrow> question_record list \<Rightarrow> world \<Rightarrow> response outcome" where
  "finish env req job_id storage_path user_id question_count n_slides accumulated w =
     (let all_questions = slice_to accumulated question_count
      in if all_questions = [] then
           (case set_status job_id (ascii ''failed'') 0
                   [(ascii ''error'', VStr err_no_questions)] w of
              Inl ew \<Rightarrow> Inl ew
            | Inr (u, w1) \<Rightarrow> Inr (\<lparr>resp_status = 500, resp_body = ErrorJson\<rparr>, w1))
         else
           (case set_status job_id (ascii ''processing'') 90
                   [(ascii ''message'', VStr msg_saving)] w of
              Inl ew \<Rightarrow> Inl ew
            | Inr (u, w1) \<Rightarrow>
                if \<not> quiz_write_ok env then Inl (OtherError [], w1)
                else
                  (let w2 = w1\<lparr>quizzes := quizzes w1 @
                               [(new_quiz_id env,
                                 quiz_data req user_id all_questions n_slides
                                   (server_time (jobs w1)))]\<rparr>;
                       w3 = w2\<lparr>bucket := filter (\<lambda>kv. fst kv \<noteq> storage_path) (bucket w2)\<rparr>
                   in case set_status job_id (ascii ''completed'') 100
                             [(ascii ''message'', VStr msg_done),
                              (ascii ''quizId'', VStr (new_quiz_id env)),
                              (ascii ''questionCount'', VInt (int (length all_questions)))] w3 of
                        Inl ew \<Rightarrow> Inl ew
                      | Inr (u, w4) \<Rightarrow>
                          Inr (\<lparr>resp_status = 200, resp_body = QuizCreated\<rparr>, w4))))"

text \<open>
  The block guarded by \<^verbatim>\<open>try ... finally\<close>: extraction from the local copy, the reply 400
  when no slide has text, chunking with size 3, the loop, and the rest.
\<close>

definition guarded ::
  "pipeline_env \<Rightarrow> job_request \<Rightarrow> pystr \<Rightarrow> pystr \<Rightarrow> pystr \<Rightarrow> int \<Rightarrow> blob \<Rightarrow> world
     \<Rightarrow> response outcome" where
  "guarded env req job_id storage_path user_id question_count file w =
     (case set_status job_id (ascii ''processing'') 15
             [(ascii ''message'', VStr msg_extract)] w of
        Inl ew \<Rightarrow> Inl ew
      | Inr (u, w1) \<Rightarrow>
          (case file of
             OtherBytes \<Rightarrow> Inl (OtherError [], w1)
           | PptxFile prs \<Rightarrow>
               (let slides_data = extract_text_from_pptx (unicode_nd env) prs
                in if slides_data = [] then
                     (case set_status job_id (ascii ''failed'') 0
                             [(ascii ''error'', VStr err_no_text)] w1 of
                        Inl ew \<Rightarrow> Inl ew
                      | Inr (u, w2) \<Rightarrow> Inr (\<lparr>resp_status = 400, resp_body = ErrorJson\<rparr>, w2))
                   else
                     (case chunk_slides slides_data 3 of
                        Inl e \<Rightarrow> Inl (e, w1)
                      | Inr chunks \<Rightarrow>
                          (case set_status job_id (ascii ''processing'') 25
                                  [(ascii ''message'',
                                    VStr (msg_chunks (length slides_data) (length chunks)
                                            (req_keywords req)))] w1 of
                             Inl ew \<Rightarrow> Inl ew
                           | Inr (u, w2) \<Rightarrow>
                               (case generate_loop env req job_id question_count (length chunks)
                                       (enumerate0 chunks) [] w2 of
                                  Inl ew \<Rightarrow> Inl ew
                                | Inr (accumulated, w3) \<Rightarrow>
                                    finish env req job_id storage_path user_id question_count
                                      (length slides_data) accumulated w3))))))"

text \<open>The \<^verbatim>\<open>finally\<close> clause: the local copy is removed when it exists.\<close>

definition remove_tmp :: "pipeline_env \<Rightarrow> world \<Rightarrow> world" where
  "remove_tmp env w = w\<lparr>local_files := filter (\<lambda>kv. fst kv \<noteq> tmp_path env) (local_files w)\<rparr>"

text \<open>
  The body of the outer \<^verbatim>\<open>try\<close> after the check of the required fields: the first status
  report, the scratch file, the download, then the guarded block and its \<^verbatim>\<open>finally\<close>. When
  the bucket has no such object the download raises NotFound before the guarded block is
  entered; the storage client removes the scratch file it was writing to before it raises.
\<close>

definition download_and_run ::
  "pipeline_env \<Rightarrow> job_request \<Rightarrow> pystr \<Rightarrow> pystr \<Rightarrow> pystr \<Rightarrow> int \<Rightarrow> world
     \<Rightarrow> response outcome" where
  "download_and_run env req job_id storage_path user_id question_count w =
     (case set_status job_id (ascii ''processing'') 5
             [(ascii ''message'', VStr msg_download)] w of
        Inl ew \<Rightarrow> Inl ew
      | Inr (u, w1) \<Rightarrow>
          (let w2 = w1\<lparr>local_files := (tmp_path env, OtherBytes) # local_files w1\<rparr>
           in case map_of (bucket w2) storage_path of
                None \<Rightarrow> Inl (NotFound, remove_tmp env w2)
              | Some file \<Rightarrow>
                  (let w3 = w2\<lparr>local_files := (tmp_path env, file) # local_files w1\<rparr>
                   in case guarded env req job_id storage_path user_id question_count file w3 of
                        Inl (e, w4) \<Rightarrow> Inl (e, remove_tmp env w4)
                      | Inr (resp, w4) \<Rightarrow> Inr (resp, remove_tmp env w4))))"

definition truthy :: "pystr option \<Rightarrow> bool" where
  "truthy v \<longleftrightarrow> v \<noteq> None \<and> v \<noteq> Some []"

text \<open>
  \<^verbatim>\<open>process_pptx\<close>. The body is \<open>None\<close> when the request carries no JSON: reading a field
  of it raises, and so does the handler of that exception, which names the job identifier
  before it was assigned; the framework answers 500. An exception of the run itself is
  caught: the job is marked failed with progress 0 and the reply is 500, also when that
  last status call raises in turn.
\<close>

definition process_pptx :: "pipeline_env \<Rightarrow> job_request option \<Rightarrow> world \<Rightarrow> response \<times> world" where
  "process_pptx env data w =
     (case data of
        None \<Rightarrow> (\<lparr>resp_status = 500, resp_body = ErrorJson\<rparr>, w)
      | Some req \<Rightarrow>
          if \<not> (truthy (req_job_id req) \<and> truthy (req_storage_path req)
                 \<and> truthy (req_user_id req))
          then (\<lparr>resp_status = 400, resp_body = ErrorJson\<rparr>, w)
          else
            (let job_id = the (req_job_id req);
                 storage_path = the (req_storage_path req);
                 user_id = the (req_user_id req);
                 question_count = (case req_question_count req of None \<Rightarrow> 10 | Some n \<Rightarrow> n)
             in case download_and_run env req job_id storage_path user_id question_count w of
                  Inr (resp, w') \<Rightarrow> (resp, w')
                | Inl (e, w') \<Rightarrow>
                    (\<lparr>resp_status = 500, resp_body = ErrorJson\<rparr>,
                     out_world (set_status job_id (ascii ''failed'') 0
                                  [(ascii ''error'', VStr (error_text env e))] w'))))"

subsection \<open>Properties of a run\<close>

text \<open>Every logged status call that marks the job failed reports progress 0.\<close>

definition failed_zero :: "(pystr \<times> int) list \<Rightarrow> bool" where
  "failed_zero calls \<longleftrightarrow> (\<forall>c \<in> set calls. fst c = ascii ''failed'' \<longrightarrow> snd c = 0)"

text \<open>The stored record of the job, when there is one, shows the status and the progress
  of the last logged status call.\<close>

definition synced :: "pystr \<Rightarrow> world \<Rightarrow> bool" where
  "synced job_id w \<longleftrightarrow>
     (case quizJobs (jobs w) job_id of
        None \<Rightarrow> True
      | Some d \<Rightarrow>
          status_calls w \<noteq> [] \<longrightarrow>
          d (ascii ''status'') = Some (VStr (fst (last (status_calls w)))) \<and>
          d (ascii ''progress'') = Some (VInt (snd (last (status_calls w)))))"

text \<open>What part of a run may do to the job records and the log of status calls: it adds
  calls that satisfy \<open>failed_zero\<close>; without a call the job records are untouched, and
  after a call the record of the job is in step with the log.\<close>

definition step_ok :: "pystr \<Rightarrow> world \<Rightarrow> world \<Rightarrow> bool" where
  "step_ok job_id w w' \<longleftrightarrow>
     (\<exists>new. status_calls w' = status_calls w @ new \<and> failed_zero new
           \<and> (new = [] \<longrightarrow> jobs w' = jobs w)
           \<and> (new \<noteq> [] \<longrightarrow> synced job_id w'))"

text \<open>The questions one generator call contributes to the accumulator: the validated
  questions of its reply, none when the call raises.\<close>

definition reply_questions ::
  "pipeline_env \<Rightarrow> job_request \<Rightarrow> nat \<times> pystr \<Rightarrow> question_record list" where
  "reply_questions env req ic =
     (case reply env (fst ic) (snd ic) (req_difficulty req) (req_keywords req) of
        GenRaises e \<Rightarrow> []
      | GenReply parsed \<Rightarrow> generate_quiz_from_chunk parsed)"

text \<open>A run wrote nothing to the collection \<^verbatim>\<open>quizzes\<close>, or one document with at most
  \<open>bound\<close> questions.\<close>

definition persisted_within :: "int \<Rightarrow> world \<Rightarrow> world \<Rightarrow> bool" where
  "persisted_within bound w w' \<longleftrightarrow>
     quizzes w' = quizzes w
     \<or> (\<exists>quiz_id doc. quizzes w' = quizzes w @ [(quiz_id, doc)]
                       \<and> int (length (quiz_questions doc)) \<le> bound)"

text \<open>The chunks a run works on: those of the presentation stored under the requested
  path; none when the bucket has no such object, when the parser rejects it, or when
  chunking raises.\<close>

definition chunks_of :: "pipeline_env \<Rightarrow> blob \<Rightarrow> pystr list" where
  "chunks_of env f =
     (case f of
        OtherBytes \<Rightarrow> []
      | PptxFile prs \<Rightarrow>
          (case chunk_slides (extract_text_from_pptx (unicode_nd env) prs) 3 of
             Inl e \<Rightarrow> []
           | Inr chunks \<Rightarrow> chunks))"

definition run_chunks :: "pipeline_env \<Rightarrow> job_request \<Rightarrow> world \<Rightarrow> pystr list" where
  "run_chunks env req w =
     (case req_storage_path req of
        None \<Rightarrow> []
      | Some storage_path \<Rightarrow>
          (case map_of (bucket w) storage_path of
             None \<Rightarrow> []
           | Some f \<Rightarrow> chunks_of env f))"

text \<open>The validated questions that the generator calls for the first \<open>k\<close> chunks
  contribute, in order.\<close>

definition accumulated_after ::
  "pipeline_env \<Rightarrow> job_request \<Rightarrow> pystr list \<Rightarrow> nat \<Rightarrow> question_record list" where
  "accumulated_after env req chunks k =
     concat (map (reply_questions env req) (take k (enumerate0 chunks)))"

text \<open>A generator call returns, and the generator calls for all the given numbered chunks
  return.\<close>

definition returns :: "gen_outcome \<Rightarrow> bool" where
  "returns r = (case r of GenRaises e \<Rightarrow> False | GenReply parsed \<Rightarrow> True)"

definition all_return :: "pipeline_env \<Rightarrow> job_request \<Rightarrow> (nat \<times> pystr) list \<Rightarrow> bool" where
  "all_return env req ics =
     list_all (\<lambda>ic. returns (reply env (fst ic) (snd ic) (req_difficulty req) (req_keywords req)))
       ics"

text \<open>
  The list \<^verbatim>\<open>all_questions\<close> when the loop over the chunks is left, for a run in which
  every generator call returns: the loop of \<open>generate_loop\<close> without its status reports.
\<close>

fun accumulate ::
  "pipeline_env \<Rightarrow> job_request \<Rightarrow> int \<Rightarrow> (nat \<times> pystr) list \<Rightarrow> question_record list
     \<Rightarrow> question_record list" where
  "accumulate env req question_count [] all_questions = all_questions"
| "accumulate env req question_count (ic # rest) all_questions =
     (let all_questions' = all_questions @ reply_questions env req ic
      in if question_count \<le> int (length all_questions')
         then all_questions'
         else accumulate env req question_count rest all_questions')"

section \<open>Facts about text\<close>

lemma strip_empty_iff: "strip s = [] \<longleftrightarrow> (\<forall>c \<in> set s. py_isspace c)"
proof -
  have "strip s = [] \<longleftrightarrow> (\<forall>c \<in> set (dropWhile py_isspace s). py_isspace c)"
    by (simp add: strip_def rstrip_def lstrip_def dropWhile_eq_Nil_conv)
  also have "\<dots> \<longleftrightarrow> (\<forall>c \<in> set s. py_isspace c)"
  proof
    assume a: "\<forall>c \<in> set (dropWhile py_isspace s). py_isspace c"
    have "dropWhile py_isspace s = []"
    proof (cases "dropWhile py_isspace s")
      case Nil
      then show ?thesis .
    next
      case (Cons c cs)
      then have "\<not> py_isspace c"
        using hd_dropWhile [of py_isspace s] by auto
      with a Cons show ?thesis by simp
    qed
    then show "\<forall>c \<in> set s. py_isspace c"
      by (simp add: dropWhile_eq_Nil_conv)
  next
    assume "\<forall>c \<in> set s. py_isspace c"
    then show "\<forall>c \<in> set (dropWhile py_isspace s). py_isspace c"
      using set_dropWhileD by fastforce
  qed
  finally show ?thesis .
qed

section \<open>Facts about the chunker\<close>

lemma render_group_concat: "render_group g = concat (map render_slide g)"
proof -
  have "foldl (\<lambda>t s. t @ render_slide s) acc g = acc @ concat (map render_slide g)" for acc
    by (induction g arbitrary: acc) simp_all
  then show ?thesis by (simp add: render_group_def)
qed

lemma bracket_in_render_slide: "91 \<in> set (render_slide s)"
  by (simp add: render_slide_def)

lemma render_group_not_blank: "g \<noteq> [] \<Longrightarrow> strip (render_group g) \<noteq> []"
proof -
  assume "g \<noteq> []"
  then obtain s g' where "g = s # g'" by (cases g) auto
  then have "91 \<in> set (render_group g)"
    using bracket_in_render_slide [of s] by (simp add: render_group_concat)
  moreover have "\<not> py_isspace 91" by (simp add: py_isspace_def)
  ultimately show ?thesis using strip_empty_iff by blast
qed

lemma consecutive_groups_Nil [simp]: "consecutive_groups k [] = []"
  by (simp add: consecutive_groups.simps [of k "[]"])

lemma chunk_loop_groups:
  "0 < k \<Longrightarrow>
   foldl (chunk_step slides k) acc (range_from i (length slides) k)
     = acc @ map (\<lambda>g. strip (render_group g)) (consecutive_groups k (drop i slides))"
proof (induction i "length slides" k arbitrary: acc rule: range_from.induct)
  case (1 i step)
  show ?case
  proof (cases "length slides \<le> i")
    case True
    then show ?thesis
      by (simp add: range_from.simps [of i])
  next
    case False
    with "1.prems" have ne: "take step (drop i slides) \<noteq> []" by simp
    have step: "chunk_step slides step acc i
                  = acc @ [strip (render_group (take step (drop i slides)))]"
      using render_group_not_blank [OF ne] by (simp add: chunk_step_def Let_def)
    have "foldl (chunk_step slides step) acc (range_from i (length slides) step)
            = foldl (chunk_step slides step) (chunk_step slides step acc i)
                (range_from (i + step) (length slides) step)"
      using False "1.prems" by (simp add: range_from.simps [of i])
    also have "\<dots> = chunk_step slides step acc i
                 @ map (\<lambda>g. strip (render_group g))
                     (consecutive_groups step (drop (i + step) slides))"
      using "1.hyps" [of "chunk_step slides step acc i"] False "1.prems" by simp
    also have "\<dots> = acc @ map (\<lambda>g. strip (render_group g))
                           (consecutive_groups step (drop i slides))"
      using False "1.prems"
      by (simp add: step consecutive_groups.simps [of step "drop i slides"] add.commute)
    finally show ?thesis .
  qed
qed

lemma concat_consecutive_groups: "0 < k \<Longrightarrow> concat (consecutive_groups k xs) = xs"
proof (induction k xs rule: consecutive_groups.induct)
  case (1 k xs)
  then show ?case
    by (cases "xs = []") (simp_all add: consecutive_groups.simps [of k xs])
qed

lemma consecutive_groups_sizes:
  "g \<in> set (consecutive_groups k xs) \<Longrightarrow> g \<noteq> [] \<and> length g \<le> k"
proof (induction k xs rule: consecutive_groups.induct)
  case (1 k xs)
  then show ?case
    by (cases "k = 0 \<or> xs = []") (auto simp: consecutive_groups.simps [of k xs])
qed

lemma consecutive_groups_full:
  "g \<in> set (butlast (consecutive_groups k xs)) \<Longrightarrow> length g = k"
proof (induction k xs rule: consecutive_groups.induct)
  case (1 k xs)
  show ?case
  proof (cases "k = 0 \<or> xs = []")
    case True
    with "1.prems" show ?thesis by (simp add: consecutive_groups.simps [of k xs])
  next
    case False
    show ?thesis
    proof (cases "consecutive_groups k (drop k xs) = []")
      case True
      with False "1.prems" show ?thesis by (simp add: consecutive_groups.simps [of k xs])
    next
      case ne: False
      then have "drop k xs \<noteq> []" by (auto simp: consecutive_groups.simps [of k "drop k xs"])
      then have "length (take k xs) = k" by simp
      with False ne "1.prems" "1.IH" show ?thesis
        by (auto simp: consecutive_groups.simps [of k xs])
    qed
  qed
qed

lemma ceil_div_step: "0 < (k::nat) \<Longrightarrow> 0 < n \<Longrightarrow> (n + k - 1) div k = Suc ((n - 1) div k)"
proof -
  assume k: "0 < k" and n: "0 < n"
  have "n + k - 1 = (n - 1) + k" using n by arith
  then have "(n + k - 1) div k = ((n - 1) + k) div k" by (rule arg_cong)
  also have "\<dots> = Suc ((n - 1) div k)" using k by (simp only: div_add_self2)
  finally show ?thesis .
qed

lemma length_consecutive_groups:
  "0 < k \<Longrightarrow> length (consecutive_groups k xs) = (length xs + k - 1) div k"
proof (induction k xs rule: consecutive_groups.induct)
  case (1 k xs)
  show ?case
  proof (cases "xs = []")
    case True
    with "1.prems" show ?thesis by simp
  next
    case False
    then have pos: "0 < length xs" by simp
    have unfold: "length (consecutive_groups k xs) = Suc (length (consecutive_groups k (drop k xs)))"
      using False "1.prems" by (simp add: consecutive_groups.simps [of k xs])
    have ih: "length (consecutive_groups k (drop k xs)) = (length (drop k xs) + k - 1) div k"
      using "1.IH" False "1.prems" by simp
    have "(length (drop k xs) + k - 1) div k = (length xs - 1) div k"
    proof (cases "length xs \<le> k")
      case True
      then have "length (drop k xs) + k - 1 = k - 1" by simp
      moreover have "(k - 1) div k = 0" using "1.prems" by simp
      moreover have "length xs - 1 < k" using True pos by arith
      then have "(length xs - 1) div k = 0" by (rule div_less)
      ultimately show ?thesis by (simp only:)
    next
      case gt: False
      then have "length (drop k xs) + k - 1 = length xs - 1" by simp
      then show ?thesis by (simp only:)
    qed
    with unfold ih ceil_div_step [OF "1.prems" pos] show ?thesis by (simp only:)
  qed
qed

lemma range_from_bound: "i \<in> set (range_from j n s) \<Longrightarrow> i < n"
proof (induction j n s rule: range_from.induct)
  case (1 j n s)
  show ?case
  proof (cases "s = 0 \<or> n \<le> j")
    case True
    with "1.prems" show ?thesis by (simp add: range_from.simps [of j])
  next
    case False
    with "1.prems" have "i = j \<or> i \<in> set (range_from (j + s) n s)"
      by (simp add: range_from.simps [of j])
    with False "1.IH" show ?thesis by auto
  qed
qed

text \<open>
  Claim C7. For a positive chunk size \<open>k\<close>, \<^verbatim>\<open>chunk_slides\<close> returns the rendered texts
  of the consecutive groups of the slide sequence, in the original order: the groups
  concatenate to the input, none is empty or longer than \<open>k\<close>, all but the last have exactly
  \<open>k\<close> records. The result is a function of the input and \<open>k\<close> alone. On seven slides with
  \<open>k = 3\<close> it returns exactly three chunks, for slides 1-3, 4-6 and 7.
\<close>

theorem chunk_slides_partition:
  assumes "0 < k"
  shows "chunk_slides slides k
           = Inr (map (\<lambda>g. strip (render_group g)) (consecutive_groups (nat k) slides))
         \<and> concat (consecutive_groups (nat k) slides) = slides
         \<and> (\<forall>g \<in> set (consecutive_groups (nat k) slides). g \<noteq> [] \<and> int (length g) \<le> k)
         \<and> (\<forall>g \<in> set (butlast (consecutive_groups (nat k) slides)). int (length g) = k)
         \<and> (k = 3 \<and> length slides = 7 \<longrightarrow>
              chunk_slides slides k
                = Inr [strip (render_group (take 3 slides)),
                       strip (render_group (take 3 (drop 3 slides))),
                       strip (render_group (drop 6 slides))])"
proof -
  from assms have k: "0 < nat k" by simp
  have run: "chunk_slides slides k
           = Inr (map (\<lambda>g. strip (render_group g)) (consecutive_groups (nat k) slides))"
    using assms chunk_loop_groups [OF k, of slides "[]" 0]
    by (simp add: chunk_slides_def py_range_def)
  have sizes: "\<forall>g \<in> set (consecutive_groups (nat k) slides). g \<noteq> [] \<and> int (length g) \<le> k"
    using consecutive_groups_sizes [of _ "nat k" slides] assms by fastforce
  have full: "\<forall>g \<in> set (butlast (consecutive_groups (nat k) slides)). int (length g) = k"
    using consecutive_groups_full [of _ "nat k" slides] assms by fastforce
  have seven: "consecutive_groups 3 slides
                 = [take 3 slides, take 3 (drop 3 slides), drop 6 slides]"
    if "length slides = 7"
  proof -
    have a: "slides \<noteq> []" "drop 3 slides \<noteq> []" "drop 6 slides \<noteq> []" "drop 9 slides = []"
      using that by auto
    have "take 3 (drop 6 slides) = drop 6 slides" using that by simp
    with a show ?thesis
      by (simp add: consecutive_groups.simps [of 3 slides]
          consecutive_groups.simps [of 3 "drop 3 slides"]
          consecutive_groups.simps [of 3 "drop 6 slides"])
  qed
  have ex: "k = 3 \<and> length slides = 7 \<longrightarrow>
              chunk_slides slides k
                = Inr [strip (render_group (take 3 slides)),
                       strip (render_group (take 3 (drop 3 slides))),
                       strip (render_group (drop 6 slides))]"
  proof
    assume a: "k = 3 \<and> length slides = 7"
    then have "nat k = 3" by simp
    with run seven a show "chunk_slides slides k
                = Inr [strip (render_group (take 3 slides)),
                       strip (render_group (take 3 (drop 3 slides))),
                       strip (render_group (drop 6 slides))]"
      by simp
  qed
  from run concat_consecutive_groups [OF k, of slides] sizes full ex
  show ?thesis by (intro conjI)
qed

theorem chunk_slides_partition_witness:
  "(0::int) < 3 \<and>
   chunk_slides (map (\<lambda>n. \<lparr>slide_num = n, title = [84], content = []\<rparr>) [1, 2, 3, 4, 5, 6, 7]) 3
     = Inr [strip (render_group (map (\<lambda>n. \<lparr>slide_num = n, title = [84], content = []\<rparr>) [1, 2, 3])),
            strip (render_group (map (\<lambda>n. \<lparr>slide_num = n, title = [84], content = []\<rparr>) [4, 5, 6])),
            strip (render_group (map (\<lambda>n. \<lparr>slide_num = n, title = [84], content = []\<rparr>) [7]))]"
proof -
  let ?s = "map (\<lambda>n. \<lparr>slide_num = n, title = [84], content = []\<rparr>) [1, 2, 3, 4, 5, 6, 7]"
  have h: "(0::int) < 3" by simp
  have "(3::int) = 3 \<and> length ?s = 7" by simp
  with chunk_slides_partition [OF h, of ?s]
  have "chunk_slides ?s 3
          = Inr [strip (render_group (take 3 ?s)),
                 strip (render_group (take 3 (drop 3 ?s))),
                 strip (render_group (drop 6 ?s))]"
    by blast
  then show ?thesis by simp
qed

text \<open>
  Claim C9. For a non-empty sequence of \<open>n\<close> slides and a positive chunk size \<open>k\<close>,
  \<^verbatim>\<open>chunk_slides\<close> returns exactly \<open>\<lceil>n / k\<rceil>\<close> chunks: at every index the loop visits,
  the rendered block is not blank after stripping, so the test that would omit a block
  never fails.
\<close>

theorem chunk_slides_count:
  assumes "slides \<noteq> []" and "0 < k"
  shows "\<exists>cs. chunk_slides slides k = Inr cs
            \<and> length cs = (length slides + nat k - 1) div nat k
            \<and> (\<forall>i \<in> set (range_from 0 (length slides) (nat k)).
                  strip (render_group (take (nat k) (drop i slides))) \<noteq> [])"
proof -
  from assms have k: "0 < nat k" by simp
  have "chunk_slides slides k
           = Inr (map (\<lambda>g. strip (render_group g)) (consecutive_groups (nat k) slides))"
    using assms chunk_loop_groups [OF k, of slides "[]" 0]
    by (simp add: chunk_slides_def py_range_def)
  moreover have "\<forall>i \<in> set (range_from 0 (length slides) (nat k)).
                  strip (render_group (take (nat k) (drop i slides))) \<noteq> []"
  proof
    fix i
    assume "i \<in> set (range_from 0 (length slides) (nat k))"
    then have "i < length slides" by (rule range_from_bound)
    with k have "take (nat k) (drop i slides) \<noteq> []" by simp
    then show "strip (render_group (take (nat k) (drop i slides))) \<noteq> []"
      by (rule render_group_not_blank)
  qed
  ultimately show ?thesis
    using length_consecutive_groups [OF k, of slides] by simp
qed

theorem chunk_slides_count_witness:
  "[\<lparr>slide_num = 1, title = [], content = []\<rparr>, \<lparr>slide_num = 2, title = [], content = []\<rparr>] \<noteq> []
   \<and> (0::int) < 3
   \<and> (\<exists>cs. chunk_slides [\<lparr>slide_num = 1, title = [], content = []\<rparr>,
                           \<lparr>slide_num = 2, title = [], content = []\<rparr>] 3 = Inr cs
          \<and> length cs = 1)"
  using chunk_slides_count
    [of "[\<lparr>slide_num = 1, title = [], content = []\<rparr>, \<lparr>slide_num = 2, title = [], content = []\<rparr>]" 3]
  by auto

section \<open>Facts about the validation of generated questions\<close>

text \<open>
  What the validation does guarantee for an accepted candidate: its choices have a length
  of at least 4, the stored choices have that length cut to 5, and the answer index is a
  number from 0 up to, and not including, the length of the candidate's own choices. So a
  candidate with fewer than 4 choices, and one whose answer index equals the number of its
  choices, are not accepted.
\<close>

lemma slice5_len:
  "py_len cs = Inr n \<Longrightarrow> slice5 cs = Inr cs5 \<Longrightarrow> py_len cs5 = Inr (min n 5)"
  by (cases cs) (auto simp: min_def)

lemma validate_one_accepted:
  assumes "validate_one q = Inr (Some r)"
  shows "\<exists>cs n. py_getitem q (ascii ''choices'') = Inr cs \<and> py_len cs = Inr n \<and> 4 \<le> n
           \<and> py_len (choices r) = Inr (min n 5)
           \<and> py_getitem q (ascii ''answer_index'') = Inr (answer_index r)
           \<and> zero_le (answer_index r) = Inr True
           \<and> less_nat (answer_index r) n = Inr True"
  using assms
  by (auto simp: validate_one_def slice5_len split: sum.splits bool.splits if_splits)

lemma validate_one_too_few:
  "py_getitem q (ascii ''choices'') = Inr cs \<Longrightarrow> py_len cs = Inr n \<Longrightarrow> n < 4 \<Longrightarrow>
   validate_one q \<noteq> Inr (Some r)"
  using validate_one_accepted [of q r] by auto

lemma validate_one_index_at_length:
  assumes "py_getitem q (ascii ''choices'') = Inr cs" and "py_len cs = Inr n"
    and "py_getitem q (ascii ''answer_index'') = Inr (JInt (int n))"
  shows "validate_one q \<noteq> Inr (Some r)"
proof
  assume "validate_one q = Inr (Some r)"
  from validate_one_accepted [OF this] assms
  have "answer_index r = JInt (int n)" and "less_nat (answer_index r) n = Inr True"
    by auto
  then show False by simp
qed


text \<open>
  Claim C1 (the code departs from it). A candidate with six choices and answer index 5
  passes the range check, which is made against the six choices; the record is stored with
  the choices cut to five, so its answer index 5 is not below the number of stored choices.
\<close>

theorem generate_quiz_index_past_stored_choices:
  "generate_quiz_from_chunk
     (Some (JArr [JObj [(ascii ''question'', JStr (ascii ''Q'')),
                        (ascii ''choices'',
                           JArr [JStr (ascii ''a''), JStr (ascii ''b''), JStr (ascii ''c''),
                                 JStr (ascii ''d''), JStr (ascii ''e''), JStr (ascii ''f'')]),
                        (ascii ''answer_index'', JInt 5),
                        (ascii ''explanation'', JStr (ascii ''E''))]]))
     = [\<lparr>question = JStr (ascii ''Q''),
         choices = JArr [JStr (ascii ''a''), JStr (ascii ''b''), JStr (ascii ''c''),
                         JStr (ascii ''d''), JStr (ascii ''e'')],
         answer_index = JInt 5,
         explanation = JStr (ascii ''E''),
         topic = JStr []\<rparr>]
   \<and> py_len (JArr [JStr (ascii ''a''), JStr (ascii ''b''), JStr (ascii ''c''),
                   JStr (ascii ''d''), JStr (ascii ''e'')]) = Inr 5
   \<and> less_nat (JInt 5) 5 = Inr False"
  by (simp add: generate_quiz_from_chunk_def validate_one_def required_keys_def ascii_def)

section \<open>Facts about the job tracker\<close>

lemma update_job_status_result:
  "quizJobs db job_id = Some stored \<Longrightarrow> binds kwargs \<Longrightarrow>
   update_job_status job_id status progress kwargs db
     = Inr (db\<lparr>quizJobs := (quizJobs db)(job_id \<mapsto>
              stored ++ fresh_snapshot (server_time db) status progress kwargs)\<rparr>)"
  by (simp add: update_job_status_def document_update_def fresh_snapshot_def)

lemma fresh_snapshot_status:
  "ascii ''status'' \<notin> fst ` set kwargs \<Longrightarrow>
   fresh_snapshot now st progress kwargs (ascii ''status'') = Some (VStr st)"
  by (simp add: fresh_snapshot_def update_data_of_def resolve_def map_add_def ascii_def
      map_of_eq_None_iff [THEN iffD2] split: option.splits)

lemma fresh_snapshot_progress:
  "ascii ''progress'' \<notin> fst ` set kwargs \<Longrightarrow>
   fresh_snapshot now st progress kwargs (ascii ''progress'') = Some (VInt progress)"
  by (simp add: fresh_snapshot_def update_data_of_def resolve_def map_add_def ascii_def
      map_of_eq_None_iff [THEN iffD2] split: option.splits)

lemma fresh_snapshot_updated_at:
  "ascii ''updatedAt'' \<notin> fst ` set kwargs \<Longrightarrow>
   fresh_snapshot now st progress kwargs (ascii ''updatedAt'') = Some (VTime now)"
  by (simp add: fresh_snapshot_def update_data_of_def resolve_def map_add_def ascii_def
      map_of_eq_None_iff [THEN iffD2] split: option.splits)

lemma fresh_snapshot_keyword:
  "distinct (map fst kwargs) \<Longrightarrow> (k, v) \<in> set kwargs \<Longrightarrow>
   fresh_snapshot now st progress kwargs k
     = Some (if v = ServerTimestamp then VTime now else v)"
  by (cases v) (simp_all add: fresh_snapshot_def update_data_of_def resolve_def map_add_def)

lemma fresh_snapshot_other:
  "k \<notin> {ascii ''status'', ascii ''progress'', ascii ''updatedAt''} \<union> fst ` set kwargs \<Longrightarrow>
   fresh_snapshot now st progress kwargs k = None"
  by (simp add: fresh_snapshot_def update_data_of_def resolve_def map_add_def
      map_of_eq_None_iff [THEN iffD2] split: option.splits)

text \<open>
  Claim C4, as amended. A call of \<^verbatim>\<open>update_job_status\<close> whose keywords bind, on a job
  whose record exists, succeeds, and the stored record afterwards has the status and the
  progress passed to the call, the server's time in \<^verbatim>\<open>updatedAt\<close> (unless that field is
  itself passed as a keyword), the value of every keyword in the field of its name, and in
  every other field the value it had before the call. The records of other jobs and the
  clock are unchanged. A call whose keywords do not bind raises TypeError, and a call on a
  job without record raises NotFound; neither writes anything.
\<close>

theorem update_job_status_merges:
  "(quizJobs db job_id = Some stored \<and> binds kwargs
    \<longrightarrow> (\<exists>db'. update_job_status job_id status progress kwargs db = Inr db'
          \<and> (\<exists>d. quizJobs db' job_id = Some d
                \<and> d (ascii ''status'') = Some (VStr status)
                \<and> d (ascii ''progress'') = Some (VInt progress)
                \<and> (ascii ''updatedAt'' \<notin> fst ` set kwargs
                     \<longrightarrow> d (ascii ''updatedAt'') = Some (VTime (server_time db)))
                \<and> (\<forall>kv \<in> set kwargs.
                       d (fst kv) = Some (if snd kv = ServerTimestamp
                                          then VTime (server_time db) else snd kv))
                \<and> (\<forall>k. k \<notin> {ascii ''status'', ascii ''progress'', ascii ''updatedAt''}
                              \<union> fst ` set kwargs
                         \<longrightarrow> d k = stored k))
          \<and> (\<forall>j. j \<noteq> job_id \<longrightarrow> quizJobs db' j = quizJobs db j)
          \<and> server_time db' = server_time db))
   \<and> (\<not> binds kwargs
    \<longrightarrow> update_job_status job_id status progress kwargs db = Inl TypeError)
   \<and> (binds kwargs \<and> quizJobs db job_id = None
    \<longrightarrow> update_job_status job_id status progress kwargs db = Inl NotFound)"
proof (intro conjI impI)
  assume a: "quizJobs db job_id = Some stored \<and> binds kwargs"
  let ?new = "fresh_snapshot (server_time db) status progress kwargs"
  let ?d = "stored ++ ?new"
  from a have run: "update_job_status job_id status progress kwargs db
                      = Inr (db\<lparr>quizJobs := (quizJobs db)(job_id \<mapsto> ?d)\<rparr>)"
    by (simp add: update_job_status_result)
  from a have b: "distinct (map fst kwargs)" "ascii ''status'' \<notin> fst ` set kwargs"
    "ascii ''progress'' \<notin> fst ` set kwargs"
    by (simp_all add: binds_def)
  have s: "?d (ascii ''status'') = Some (VStr status)"
    using b by (simp add: map_add_def fresh_snapshot_status)
  have p: "?d (ascii ''progress'') = Some (VInt progress)"
    using b by (simp add: map_add_def fresh_snapshot_progress)
  have u: "ascii ''updatedAt'' \<notin> fst ` set kwargs
             \<longrightarrow> ?d (ascii ''updatedAt'') = Some (VTime (server_time db))"
    by (simp add: map_add_def fresh_snapshot_updated_at)
  have k: "\<forall>kv \<in> set kwargs.
             ?d (fst kv) = Some (if snd kv = ServerTimestamp
                                 then VTime (server_time db) else snd kv)"
  proof
    fix kv assume "kv \<in> set kwargs"
    then have "(fst kv, snd kv) \<in> set kwargs" by simp
    from fresh_snapshot_keyword [OF b(1) this]
    show "?d (fst kv) = Some (if snd kv = ServerTimestamp
                               then VTime (server_time db) else snd kv)"
      by (simp add: map_add_def)
  qed
  have o: "\<forall>k. k \<notin> {ascii ''status'', ascii ''progress'', ascii ''updatedAt''}
                    \<union> fst ` set kwargs \<longrightarrow> ?d k = stored k"
    by (auto simp: map_add_def fresh_snapshot_other split: option.splits)
  from s p u k o
  have "\<exists>d. ((quizJobs db)(job_id \<mapsto> ?d)) job_id = Some d
          \<and> d (ascii ''status'') = Some (VStr status)
          \<and> d (ascii ''progress'') = Some (VInt progress)
          \<and> (ascii ''updatedAt'' \<notin> fst ` set kwargs
               \<longrightarrow> d (ascii ''updatedAt'') = Some (VTime (server_time db)))
          \<and> (\<forall>kv \<in> set kwargs.
                 d (fst kv) = Some (if snd kv = ServerTimestamp
                                    then VTime (server_time db) else snd kv))
          \<and> (\<forall>k. k \<notin> {ascii ''status'', ascii ''progress'', ascii ''updatedAt''}
                        \<union> fst ` set kwargs
                   \<longrightarrow> d k = stored k)"
    by (intro exI [of _ ?d]) simp
  then show "\<exists>db'. update_job_status job_id status progress kwargs db = Inr db'
          \<and> (\<exists>d. quizJobs db' job_id = Some d
                \<and> d (ascii ''status'') = Some (VStr status)
                \<and> d (ascii ''progress'') = Some (VInt progress)
                \<and> (ascii ''updatedAt'' \<notin> fst ` set kwargs
                     \<longrightarrow> d (ascii ''updatedAt'') = Some (VTime (server_time db)))
                \<and> (\<forall>kv \<in> set kwargs.
                       d (fst kv) = Some (if snd kv = ServerTimestamp
                                          then VTime (server_time db) else snd kv))
                \<and> (\<forall>k. k \<notin> {ascii ''status'', ascii ''progress'', ascii ''updatedAt''}
                              \<union> fst ` set kwargs
                         \<longrightarrow> d k = stored k))
          \<and> (\<forall>j. j \<noteq> job_id \<longrightarrow> quizJobs db' j = quizJobs db j)
          \<and> server_time db' = server_time db"
    by (simp add: run)
next
  assume "\<not> binds kwargs"
  then show "update_job_status job_id status progress kwargs db = Inl TypeError"
    by (simp add: update_job_status_def)
next
  assume "binds kwargs \<and> quizJobs db job_id = None"
  then show "update_job_status job_id status progress kwargs db = Inl NotFound"
    by (simp add: update_job_status_def document_update_def)
qed

theorem update_job_status_merges_witness:
  "quizJobs \<lparr>quizJobs = [ascii ''j'' \<mapsto> map_of [(ascii ''status'', VStr (ascii ''processing'')),
                                                  (ascii ''progress'', VInt 15),
                                                  (ascii ''updatedAt'', VTime 1),
                                                  (ascii ''message'', VStr (ascii ''m''))]],
              server_time = 2\<rparr> (ascii ''j'')
     = Some (map_of [(ascii ''status'', VStr (ascii ''processing'')),
                     (ascii ''progress'', VInt 15),
                     (ascii ''updatedAt'', VTime 1),
                     (ascii ''message'', VStr (ascii ''m''))])
   \<and> binds [(ascii ''error'', VStr (ascii ''e''))]
   \<and> \<not> binds [(ascii ''status'', VStr (ascii ''x''))]
   \<and> (\<exists>db'. update_job_status (ascii ''j'') (ascii ''failed'') 0
                  [(ascii ''error'', VStr (ascii ''e''))]
                  \<lparr>quizJobs = [ascii ''j'' \<mapsto> map_of [(ascii ''status'', VStr (ascii ''processing'')),
                                                        (ascii ''progress'', VInt 15),
                                                        (ascii ''updatedAt'', VTime 1),
                                                        (ascii ''message'', VStr (ascii ''m''))]],
                    server_time = 2\<rparr> = Inr db'
          \<and> (\<exists>d. quizJobs db' (ascii ''j'') = Some d
                \<and> d (ascii ''status'') = Some (VStr (ascii ''failed''))
                \<and> d (ascii ''progress'') = Some (VInt 0)
                \<and> d (ascii ''updatedAt'') = Some (VTime 2)
                \<and> d (ascii ''error'') = Some (VStr (ascii ''e''))
                \<and> d (ascii ''message'') = Some (VStr (ascii ''m''))))
   \<and> update_job_status (ascii ''j'') (ascii ''failed'') 0 [(ascii ''status'', VStr (ascii ''x''))]
         \<lparr>quizJobs = Map.empty, server_time = 2\<rparr> = Inl TypeError
   \<and> update_job_status (ascii ''j'') (ascii ''failed'') 0 [(ascii ''error'', VStr (ascii ''e''))]
         \<lparr>quizJobs = Map.empty, server_time = 2\<rparr> = Inl NotFound"
proof -
  define stored where "stored = map_of [(ascii ''status'', VStr (ascii ''processing'')),
                         (ascii ''progress'', VInt 15),
                         (ascii ''updatedAt'', VTime 1),
                         (ascii ''message'', VStr (ascii ''m''))]"
  define db where "db = \<lparr>quizJobs = [ascii ''j'' \<mapsto> stored], server_time = 2\<rparr>"
  define db0 where "db0 = \<lparr>quizJobs = (Map.empty :: pystr \<rightharpoonup> document), server_time = 2\<rparr>"
  define kw where "kw = [(ascii ''error'', VStr (ascii ''e''))]"
  define bad where "bad = [(ascii ''status'', VStr (ascii ''x''))]"
  have h: "quizJobs db (ascii ''j'') = Some stored" by (simp add: db_def)
  have b: "binds kw" by (simp add: kw_def binds_def ascii_def)
  have nb: "\<not> binds bad" by (simp add: bad_def binds_def)
  have none: "quizJobs db0 (ascii ''j'') = None" by (simp add: db0_def)
  have keys: "ascii ''updatedAt'' \<notin> fst ` set kw"
    "ascii ''message'' \<notin> {ascii ''status'', ascii ''progress'', ascii ''updatedAt''}
                          \<union> fst ` set kw"
    by (simp_all add: kw_def ascii_def)
  have t: "server_time db = 2" by (simp add: db_def)
  have m: "stored (ascii ''message'') = Some (VStr (ascii ''m''))"
    by (simp add: stored_def ascii_def)
  from update_job_status_merges [of db "ascii ''j''" stored kw "ascii ''failed''" 0] h b
  have "\<exists>db'. update_job_status (ascii ''j'') (ascii ''failed'') 0 kw db = Inr db'
          \<and> (\<exists>d. quizJobs db' (ascii ''j'') = Some d
                \<and> d (ascii ''status'') = Some (VStr (ascii ''failed''))
                \<and> d (ascii ''progress'') = Some (VInt 0)
                \<and> (ascii ''updatedAt'' \<notin> fst ` set kw
                     \<longrightarrow> d (ascii ''updatedAt'') = Some (VTime (server_time db)))
                \<and> (\<forall>kv \<in> set kw.
                       d (fst kv) = Some (if snd kv = ServerTimestamp
                                          then VTime (server_time db) else snd kv))
                \<and> (\<forall>k. k \<notin> {ascii ''status'', ascii ''progress'', ascii ''updatedAt''}
                              \<union> fst ` set kw
                         \<longrightarrow> d k = stored k))
          \<and> (\<forall>j. j \<noteq> ascii ''j'' \<longrightarrow> quizJobs db' j = quizJobs db j)
          \<and> server_time db' = server_time db"
    by (simp only: simp_thms)
  then have ok: "\<exists>db'. update_job_status (ascii ''j'') (ascii ''failed'') 0 kw db = Inr db'
          \<and> (\<exists>d. quizJobs db' (ascii ''j'') = Some d
                \<and> d (ascii ''status'') = Some (VStr (ascii ''failed''))
                \<and> d (ascii ''progress'') = Some (VInt 0)
                \<and> d (ascii ''updatedAt'') = Some (VTime 2)
                \<and> d (ascii ''error'') = Some (VStr (ascii ''e''))
                \<and> d (ascii ''message'') = Some (VStr (ascii ''m'')))"
  proof (elim exE conjE)
    fix db' d
    assume run: "update_job_status (ascii ''j'') (ascii ''failed'') 0 kw db = Inr db'"
      and d: "quizJobs db' (ascii ''j'') = Some d"
      and s: "d (ascii ''status'') = Some (VStr (ascii ''failed''))"
      and p: "d (ascii ''progress'') = Some (VInt 0)"
      and u: "ascii ''updatedAt'' \<notin> fst ` set kw
                \<longrightarrow> d (ascii ''updatedAt'') = Some (VTime (server_time db))"
      and k: "\<forall>kv \<in> set kw. d (fst kv) = Some (if snd kv = ServerTimestamp
                                              then VTime (server_time db) else snd kv)"
      and o: "\<forall>k. k \<notin> {ascii ''status'', ascii ''progress'', ascii ''updatedAt''}
                      \<union> fst ` set kw \<longrightarrow> d k = stored k"
    from u keys(1) t have u': "d (ascii ''updatedAt'') = Some (VTime 2)" by simp
    from k have e: "d (ascii ''error'') = Some (VStr (ascii ''e''))" by (simp add: kw_def)
    from o keys(2) m have m': "d (ascii ''message'') = Some (VStr (ascii ''m''))" by simp
    from d s p u' e m'
    have "\<exists>d. quizJobs db' (ascii ''j'') = Some d
                \<and> d (ascii ''status'') = Some (VStr (ascii ''failed''))
                \<and> d (ascii ''progress'') = Some (VInt 0)
                \<and> d (ascii ''updatedAt'') = Some (VTime 2)
                \<and> d (ascii ''error'') = Some (VStr (ascii ''e''))
                \<and> d (ascii ''message'') = Some (VStr (ascii ''m''))"
      by (intro exI [of _ d]) simp
    with run show ?thesis by (intro exI [of _ db']) simp
  qed
  from update_job_status_merges [of db0 "ascii ''j''" stored bad "ascii ''failed''" 0] nb
  have te: "update_job_status (ascii ''j'') (ascii ''failed'') 0 bad db0 = Inl TypeError"
    by (simp only: simp_thms)
  from update_job_status_merges [of db0 "ascii ''j''" stored kw "ascii ''failed''" 0] b none
  have nf: "update_job_status (ascii ''j'') (ascii ''failed'') 0 kw db0 = Inl NotFound"
    by (simp only: simp_thms)
  from h b nb ok te nf
  have "quizJobs db (ascii ''j'') = Some stored \<and> binds kw \<and> \<not> binds bad
        \<and> (\<exists>db'. update_job_status (ascii ''j'') (ascii ''failed'') 0 kw db = Inr db'
          \<and> (\<exists>d. quizJobs db' (ascii ''j'') = Some d
                \<and> d (ascii ''status'') = Some (VStr (ascii ''failed''))
                \<and> d (ascii ''progress'') = Some (VInt 0)
                \<and> d (ascii ''updatedAt'') = Some (VTime 2)
                \<and> d (ascii ''error'') = Some (VStr (ascii ''e''))
                \<and> d (ascii ''message'') = Some (VStr (ascii ''m''))))
        \<and> update_job_status (ascii ''j'') (ascii ''failed'') 0 bad db0 = Inl TypeError
        \<and> update_job_status (ascii ''j'') (ascii ''failed'') 0 kw db0 = Inl NotFound"
    by (simp only: simp_thms)
  then show ?thesis unfolding db_def db0_def kw_def bad_def stored_def .
qed

text \<open>
  Claim C4 as stated fails: a record with a \<^verbatim>\<open>message\<close> field, updated to \<^verbatim>\<open>failed\<close> by a
  call that passes the status, the progress and an \<^verbatim>\<open>error\<close> keyword, still has its
  \<^verbatim>\<open>message\<close> afterwards, although \<^verbatim>\<open>message\<close> is none of the fields the call supplies.
\<close>

theorem update_job_status_replace_counterexample:
  "(case update_job_status (ascii ''j'') (ascii ''failed'') 0
           [(ascii ''error'', VStr (ascii ''e''))]
           \<lparr>quizJobs = [ascii ''j'' \<mapsto> map_of [(ascii ''status'', VStr (ascii ''processing'')),
                                                 (ascii ''progress'', VInt 15),
                                                 (ascii ''updatedAt'', VTime 1),
                                                 (ascii ''message'', VStr (ascii ''m''))]],
             server_time = 2\<rparr> of
      Inl e \<Rightarrow> None
    | Inr db' \<Rightarrow> map_option (\<lambda>d. d (ascii ''message'')) (quizJobs db' (ascii ''j'')))
     = Some (Some (VStr (ascii ''m'')))
   \<and> ascii ''message'' \<notin> {ascii ''status'', ascii ''progress'', ascii ''updatedAt'',
                            ascii ''error''}"
  by (simp add: update_job_status_def document_update_def update_data_of_def binds_def
      resolve_def ascii_def map_add_def)

section \<open>Facts about the text extractor\<close>

lemma split_nl_not_Nil [simp]: "split_nl s \<noteq> []"
  by (induction s) (auto split: list.splits)

lemma split_nl_no_nl: "l \<in> set (split_nl s) \<Longrightarrow> 10 \<notin> set l"
proof (induction s arbitrary: l)
  case Nil
  then show ?case by simp
next
  case (Cons c cs)
  show ?case
  proof (cases "c = 10")
    case True
    with Cons show ?thesis by auto
  next
    case False
    obtain l' ls where sp: "split_nl cs = l' # ls"
      by (cases "split_nl cs") auto
    with False Cons.prems have "l = c # l' \<or> l \<in> set ls" by auto
    then show ?thesis
    proof
      assume "l = c # l'"
      moreover have "10 \<notin> set l'" using Cons.IH [of l'] sp by simp
      ultimately show ?thesis using False by auto
    next
      assume "l \<in> set ls"
      then show ?thesis using Cons.IH [of l] sp by simp
    qed
  qed
qed

lemma split_nl_line: "10 \<notin> set x \<Longrightarrow> split_nl (x @ 10 # s) = x # split_nl s"
  by (induction x) auto

lemma split_nl_single: "10 \<notin> set x \<Longrightarrow> split_nl x = [x]"
  by (induction x) auto

lemma split_join:
  "xs \<noteq> [] \<Longrightarrow> \<forall>l \<in> set xs. 10 \<notin> set l \<Longrightarrow> split_nl (join [10] xs) = xs"
proof (induction xs)
  case Nil
  then show ?case by simp
next
  case (Cons x xs)
  show ?case
  proof (cases xs)
    case Nil
    with Cons.prems show ?thesis by (simp add: split_nl_single)
  next
    case (Cons y ys)
    with Cons.prems Cons.IH have "split_nl (join [10] xs) = xs" by simp
    with Cons Cons.prems show ?thesis by (simp add: split_nl_line)
  qed
qed

lemma rx_alt_empty_iff: "rx_alt a b s = [] \<longleftrightarrow> a s = [] \<and> b s = []"
  by (simp add: rx_alt_def)

lemma page_num_match_empty: "\<not> page_num_match nd []"
  by (simp add: page_num_match_def page_num_pattern_def rx_alt_def rx_seq_def rx_plus_def
      kw_page_def ascii_def)

lemma lines_filter_content:
  "split_nl (filter_content nd footers cont)
     = (let kept = filter (\<lambda>line. line \<notin> set footers \<and> \<not> page_num_match nd (strip line))
                          (split_nl cont)
        in if kept = [] then [[]] else kept)"
proof -
  let ?kept = "filter (\<lambda>line. line \<notin> set footers \<and> \<not> page_num_match nd (strip line))
                      (split_nl cont)"
  have "\<forall>l \<in> set ?kept. 10 \<notin> set l"
    using split_nl_no_nl [of _ cont] by auto
  then have "?kept \<noteq> [] \<Longrightarrow> split_nl (join [10] ?kept) = ?kept"
    by (rule split_join [rotated])
  then show ?thesis
    by (auto simp: filter_content_def Let_def)
qed

lemma extract_alt:
  "extract_text_from_pptx nd prs
     = map (\<lambda>s. s\<lparr>content := filter_content nd
                (footers_to_remove (snd (collect_slides prs)) (length (fst (collect_slides prs))))
                (content s)\<rparr>)
           (fst (collect_slides prs))"
  by (simp add: extract_text_from_pptx_def Let_def case_prod_beta)

lemma strip_Nil [simp]: "strip [] = []"
  by (simp add: strip_def rstrip_def lstrip_def)

lemma footer_count_bump:
  "footer_count (bump fc t) l = footer_count fc l + (if t = l then 1 else 0)"
  by (induction fc t rule: bump.induct) (auto simp: footer_count_def)

lemma keys_bump: "fst ` set (bump fc t) = insert t (fst ` set fc)"
  by (induction fc t rule: bump.induct) auto

lemma distinct_bump: "distinct (map fst fc) \<Longrightarrow> distinct (map fst (bump fc t))"
  by (induction fc t rule: bump.induct) (auto simp: keys_bump)

lemma footer_count_foldl:
  "footer_count (foldl count_footer fc ps) l
     = footer_count fc l + count_list (filter (\<lambda>t. length t < 50) ps) l"
  by (induction ps arbitrary: fc) (auto simp: count_footer_def footer_count_bump)

lemma distinct_foldl_count_footer:
  "distinct (map fst fc) \<Longrightarrow> distinct (map fst (foldl count_footer fc ps))"
  by (induction ps arbitrary: fc) (auto simp: count_footer_def distinct_bump)

lemma in_footers_to_remove:
  assumes "distinct (map fst fc)"
  shows "l \<in> set (footers_to_remove fc nslides)
           \<longleftrightarrow> nslides \<le> 2 * footer_count fc l \<and> 2 < footer_count fc l"
proof -
  have "l \<in> set (footers_to_remove fc nslides)
          \<longleftrightarrow> (\<exists>n. (l, n) \<in> set fc \<and> nslides \<le> 2 * n \<and> 2 < n)"
    by (force simp: footers_to_remove_def)
  also have "\<dots> \<longleftrightarrow> (\<exists>n. map_of fc l = Some n \<and> nslides \<le> 2 * n \<and> 2 < n)"
    using assms by simp
  also have "\<dots> \<longleftrightarrow> nslides \<le> 2 * footer_count fc l \<and> 2 < footer_count fc l"
    by (auto simp: footer_count_def split: option.splits)
  finally show ?thesis .
qed

lemma snd_foldl_slide_step:
  "snd (foldl slide_step st numbered)
     = foldl count_footer (snd st) (concat (map (\<lambda>x. snd (slide_text (snd x))) numbered))"
  by (induction numbered arbitrary: st) (simp_all add: slide_step_def Let_def case_prod_beta)

lemma map_snd_enumerate1: "map snd (enumerate1 xs) = xs"
proof -
  have "length (map int [1..<Suc (length xs)]) = length xs"
    by (simp only: length_map length_upt diff_Suc_1)
  then show ?thesis unfolding enumerate1_def by (rule map_snd_zip)
qed

lemma footer_candidates_collected:
  "snd (collect_slides prs) = foldl count_footer [] (all_content_parts prs)"
proof -
  have "concat (map (\<lambda>x. snd (slide_text (snd x))) (enumerate1 prs))
          = concat (map (\<lambda>shapes. snd (slide_text shapes)) (map snd (enumerate1 prs)))"
    by (simp add: comp_def)
  then show ?thesis
    by (simp add: collect_slides_def snd_foldl_slide_step all_content_parts_def
        map_snd_enumerate1)
qed

lemma join_nonempty: "xs \<noteq> [] \<Longrightarrow> hd xs \<noteq> [] \<Longrightarrow> join sep xs \<noteq> []"
  by (induction sep xs rule: join.induct) auto

lemma row_parts_nonempty: "p \<in> set (row_parts cells) \<Longrightarrow> p \<noteq> []"
proof -
  assume p: "p \<in> set (row_parts cells)"
  let ?row = "filter (\<lambda>t. t \<noteq> []) (map strip cells)"
  from p have ne: "?row \<noteq> []" and eq: "p = join (ascii '' | '') ?row"
    by (auto simp: row_parts_def Let_def split: if_splits)
  from ne have "hd ?row \<in> set ?row" by (rule hd_in_set)
  then have "hd ?row \<noteq> []" by simp
  with ne eq show ?thesis by (simp add: join_nonempty)
qed

lemma shape_step_nonempty:
  "\<forall>p \<in> set (snd st). p \<noteq> [] \<Longrightarrow> \<forall>p \<in> set (snd (shape_step st sh)). p \<noteq> []"
  by (auto simp: shape_step_def Let_def dest: row_parts_nonempty)

lemma foldl_shape_step_nonempty:
  "\<forall>p \<in> set (snd st). p \<noteq> [] \<Longrightarrow> \<forall>p \<in> set (snd (foldl shape_step st shapes)). p \<noteq> []"
proof (induction shapes arbitrary: st)
  case Nil
  then show ?case by simp
next
  case (Cons sh shapes)
  from shape_step_nonempty [OF Cons.prems, of sh] show ?case
    by (simp add: Cons.IH)
qed

lemma content_parts_nonempty: "p \<in> set (all_content_parts prs) \<Longrightarrow> p \<noteq> []"
  using foldl_shape_step_nonempty [of "([], [])"]
  by (auto simp: all_content_parts_def slide_text_def)

lemma length_extract: "length (extract_text_from_pptx nd prs) = length (fst (collect_slides prs))"
  by (simp add: extract_alt)

lemma collected_footer_count:
  "footer_count (snd (collect_slides prs)) l
     = count_list (filter (\<lambda>t. length t < 50) (all_content_parts prs)) l"
proof -
  have "footer_count [] l = 0" by (simp add: footer_count_def)
  then show ?thesis by (simp add: footer_candidates_collected footer_count_foldl)
qed

lemma collected_distinct: "distinct (map fst (snd (collect_slides prs)))"
  by (simp add: footer_candidates_collected distinct_foldl_count_footer)

lemma count_list_filter_le: "count_list (filter P xs) l \<le> count_list xs l"
  by (induction xs) auto

lemma count_list_filter_eq: "P l \<Longrightarrow> count_list (filter P xs) l = count_list xs l"
  by (induction xs) auto

text \<open>
  What the footer filter does, by the number of times a text was counted. The extractor
  counts every occurrence of a content part (a stripped paragraph text or a joined table
  row) shorter than 50 characters, also repeated ones on one slide. A text counted at least
  3 times and at least half as many times as there are slide records is not a line of any
  slide's processed content; a line counted at most twice that does not match the
  page-number pattern stays in every slide's content where it was.
\<close>

lemma counted_parts_removed:
  "(length l < 50 \<and> 3 \<le> count_list (all_content_parts prs) l
      \<and> length (extract_text_from_pptx nd prs) \<le> 2 * count_list (all_content_parts prs) l
    \<longrightarrow> (\<forall>r \<in> set (extract_text_from_pptx nd prs). l \<notin> set (split_nl (content r))))
   \<and> (count_list (all_content_parts prs) l \<le> 2 \<and> \<not> page_num_match nd (strip l)
    \<longrightarrow> (\<forall>i < length (extract_text_from_pptx nd prs).
           l \<in> set (split_nl (content (fst (collect_slides prs) ! i)))
           \<longrightarrow> l \<in> set (split_nl (content (extract_text_from_pptx nd prs ! i)))))"
proof -
  let ?fc = "snd (collect_slides prs)"
  let ?sd = "fst (collect_slides prs)"
  let ?footers = "footers_to_remove ?fc (length ?sd)"
  let ?keep = "\<lambda>line. line \<notin> set ?footers \<and> \<not> page_num_match nd (strip line)"
  have removed: "l \<notin> set (split_nl (content r))"
    if short: "length l < 50" and three: "3 \<le> count_list (all_content_parts prs) l"
      and half: "length (extract_text_from_pptx nd prs) \<le> 2 * count_list (all_content_parts prs) l"
      and r: "r \<in> set (extract_text_from_pptx nd prs)"
    for r
  proof -
    have cnt: "footer_count ?fc l = count_list (all_content_parts prs) l"
      using short by (simp add: collected_footer_count count_list_filter_eq)
    have foot: "l \<in> set ?footers"
      using three half cnt
      by (simp add: in_footers_to_remove [OF collected_distinct] length_extract)
    from three have "0 < count_list (all_content_parts prs) l" by simp
    then have "l \<in> set (all_content_parts prs)"
      using count_notin [of l "all_content_parts prs"] by (cases "l \<in> set (all_content_parts prs)") auto
    then have ne: "l \<noteq> []" by (rule content_parts_nonempty)
    from r obtain s :: slide where "content r = filter_content nd ?footers (content s)"
      by (auto simp: extract_alt)
    then have "set (split_nl (content r)) \<subseteq> insert [] (set (filter ?keep (split_nl (content s))))"
      by (auto simp: lines_filter_content Let_def split: if_splits)
    with foot ne show ?thesis by auto
  qed
  have kept: "l \<in> set (split_nl (content (extract_text_from_pptx nd prs ! i)))"
    if few: "count_list (all_content_parts prs) l \<le> 2"
      and nopage: "\<not> page_num_match nd (strip l)"
      and i: "i < length (extract_text_from_pptx nd prs)"
      and before: "l \<in> set (split_nl (content (?sd ! i)))"
    for i
  proof -
    have "footer_count ?fc l \<le> 2"
      using few count_list_filter_le [of "\<lambda>t. length t < 50" "all_content_parts prs" l]
      by (simp add: collected_footer_count)
    then have "l \<notin> set ?footers"
      by (simp add: in_footers_to_remove [OF collected_distinct])
    with nopage before have mem: "l \<in> set (filter ?keep (split_nl (content (?sd ! i))))"
      by simp
    then have "filter ?keep (split_nl (content (?sd ! i))) \<noteq> []"
      by (metis empty_iff empty_set)
    then have "split_nl (filter_content nd ?footers (content (?sd ! i)))
                 = filter ?keep (split_nl (content (?sd ! i)))"
      by (simp add: lines_filter_content Let_def)
    moreover have "content (extract_text_from_pptx nd prs ! i)
                     = filter_content nd ?footers (content (?sd ! i))"
      using i by (simp add: extract_alt)
    ultimately show ?thesis using mem by simp
  qed
  from removed kept show ?thesis by blast
qed

text \<open>
  Claim C5 (the code departs from it). The counts that decide what a footer is are counts
  of occurrences of content parts, not of slides, and the filter compares whole lines with
  the counted parts. On two slides, the first with the paragraph \<^verbatim>\<open>X\<close> twice and the second
  with it once, the line \<^verbatim>\<open>X\<close> is on exactly two slides, yet it is counted three times and
  removed from both. On six slides, a paragraph \<^verbatim>\<open>X\<close> that occurs three times on the first
  slide and on no other is removed. On three slides that each hold a table cell with the
  two paragraphs \<^verbatim>\<open>Footer\<close> and \<^verbatim>\<open>Co\<close>, the line \<^verbatim>\<open>Footer\<close> is on every slide, yet it is
  kept on all three: the counted part is the whole cell text.
\<close>

theorem footers_counted_by_occurrence:
  "map content (fst (collect_slides
        [[\<lparr>has_text_frame = True, is_title = False, shape_text = [], paragraphs = [[88], [88]],
           has_table = False, table_rows = []\<rparr>],
         [\<lparr>has_text_frame = True, is_title = False, shape_text = [], paragraphs = [[88]],
           has_table = False, table_rows = []\<rparr>]]))
     = [[88, 10, 88], [88]]
   \<and> map content (extract_text_from_pptx (\<lambda>c. False)
        [[\<lparr>has_text_frame = True, is_title = False, shape_text = [], paragraphs = [[88], [88]],
           has_table = False, table_rows = []\<rparr>],
         [\<lparr>has_text_frame = True, is_title = False, shape_text = [], paragraphs = [[88]],
           has_table = False, table_rows = []\<rparr>]])
     = [[], []]
   \<and> map content (extract_text_from_pptx (\<lambda>c. False)
        [[\<lparr>has_text_frame = True, is_title = False, shape_text = [], paragraphs = [[88], [88], [88], [65]],
           has_table = False, table_rows = []\<rparr>],
         [\<lparr>has_text_frame = True, is_title = False, shape_text = [], paragraphs = [[66]],
           has_table = False, table_rows = []\<rparr>],
         [\<lparr>has_text_frame = True, is_title = False, shape_text = [], paragraphs = [[67]],
           has_table = False, table_rows = []\<rparr>],
         [\<lparr>has_text_frame = True, is_title = False, shape_text = [], paragraphs = [[68]],
           has_table = False, table_rows = []\<rparr>],
         [\<lparr>has_text_frame = True, is_title = False, shape_text = [], paragraphs = [[69]],
           has_table = False, table_rows = []\<rparr>],
         [\<lparr>has_text_frame = True, is_title = False, shape_text = [], paragraphs = [[70]],
           has_table = False, table_rows = []\<rparr>]])
     = [[65], [66], [67], [68], [69], [70]]
   \<and> map (\<lambda>s. split_nl (content s)) (extract_text_from_pptx (\<lambda>c. False)
        [[\<lparr>has_text_frame = False, is_title = False, shape_text = [], paragraphs = [],
           has_table = True, table_rows = [[ascii ''Footer'' @ 10 # ascii ''Co'']]\<rparr>],
         [\<lparr>has_text_frame = False, is_title = False, shape_text = [], paragraphs = [],
           has_table = True, table_rows = [[ascii ''Footer'' @ 10 # ascii ''Co'']]\<rparr>],
         [\<lparr>has_text_frame = False, is_title = False, shape_text = [], paragraphs = [],
           has_table = True, table_rows = [[ascii ''Footer'' @ 10 # ascii ''Co'']]\<rparr>]])
     = [[ascii ''Footer'', ascii ''Co''], [ascii ''Footer'', ascii ''Co''],
        [ascii ''Footer'', ascii ''Co'']]"
proof -
  let ?nd = "\<lambda>c::nat. False"
  let ?a = "[[\<lparr>has_text_frame = True, is_title = False, shape_text = [], paragraphs = [[88], [88::nat]],
             has_table = False, table_rows = []\<rparr>],
           [\<lparr>has_text_frame = True, is_title = False, shape_text = [], paragraphs = [[88]],
             has_table = False, table_rows = []\<rparr>]]"
  have a_parts: "all_content_parts ?a = [[88], [88], [88]]"
    by (simp add: all_content_parts_def slide_text_def shape_step_def strip_def lstrip_def
        rstrip_def py_isspace_def)
  have a_coll: "fst (collect_slides ?a)
                = [\<lparr>slide_num = 1, title = [], content = [88, 10, 88]\<rparr>,
                   \<lparr>slide_num = 2, title = [], content = [88]\<rparr>]"
    by (simp add: collect_slides_def enumerate1_def slide_step_def slide_text_def shape_step_def
        strip_def lstrip_def rstrip_def py_isspace_def Let_def)
  have a_c: "snd (collect_slides ?a) = [([88], 3)]"
    by (simp add: footer_candidates_collected a_parts count_footer_def)
  have a_f: "footers_to_remove (snd (collect_slides ?a)) (length (fst (collect_slides ?a)))
             = [[88]]"
    by (simp add: a_c a_coll footers_to_remove_def)
  have a_fc: "filter_content ?nd [[88]] [88, 10, 88] = []"
             "filter_content ?nd [[88]] [88] = []"
    by (simp_all add: filter_content_def)
  have a1: "map content (fst (collect_slides ?a)) = [[88, 10, 88], [88]]"
    by (simp add: a_coll)
  have a2: "map content (extract_text_from_pptx ?nd ?a) = [[], []]"
    unfolding extract_alt a_f by (simp add: a_coll a_fc)
  let ?c = "[[\<lparr>has_text_frame = True, is_title = False, shape_text = [], paragraphs = [[88], [88], [88], [65::nat]],
             has_table = False, table_rows = []\<rparr>],
           [\<lparr>has_text_frame = True, is_title = False, shape_text = [], paragraphs = [[66]],
             has_table = False, table_rows = []\<rparr>],
           [\<lparr>has_text_frame = True, is_title = False, shape_text = [], paragraphs = [[67]],
             has_table = False, table_rows = []\<rparr>],
           [\<lparr>has_text_frame = True, is_title = False, shape_text = [], paragraphs = [[68]],
             has_table = False, table_rows = []\<rparr>],
           [\<lparr>has_text_frame = True, is_title = False, shape_text = [], paragraphs = [[69]],
             has_table = False, table_rows = []\<rparr>],
           [\<lparr>has_text_frame = True, is_title = False, shape_text = [], paragraphs = [[70]],
             has_table = False, table_rows = []\<rparr>]]"
  have c_parts: "all_content_parts ?c = [[88], [88], [88], [65], [66], [67], [68], [69], [70]]"
    by (simp add: all_content_parts_def slide_text_def shape_step_def strip_def lstrip_def
        rstrip_def py_isspace_def)
  have c_coll: "fst (collect_slides ?c)
                = [\<lparr>slide_num = 1, title = [], content = [88, 10, 88, 10, 88, 10, 65]\<rparr>,
                   \<lparr>slide_num = 2, title = [], content = [66]\<rparr>,
                   \<lparr>slide_num = 3, title = [], content = [67]\<rparr>,
                   \<lparr>slide_num = 4, title = [], content = [68]\<rparr>,
                   \<lparr>slide_num = 5, title = [], content = [69]\<rparr>,
                   \<lparr>slide_num = 6, title = [], content = [70]\<rparr>]"
    by (simp add: collect_slides_def enumerate1_def slide_step_def slide_text_def shape_step_def
        strip_def lstrip_def rstrip_def py_isspace_def Let_def)
  have c_c: "snd (collect_slides ?c)
               = [([88], 3), ([65], 1), ([66], 1), ([67], 1), ([68], 1), ([69], 1), ([70], 1)]"
    by (simp add: footer_candidates_collected c_parts count_footer_def)
  have c_f: "footers_to_remove (snd (collect_slides ?c)) (length (fst (collect_slides ?c)))
             = [[88]]"
    by (simp add: c_c c_coll footers_to_remove_def)
  have pm: "\<not> page_num_match ?nd (strip [n])" if "65 \<le> n" "n \<le> 122" for n
    using that by (simp add: extract_defs)
  have c_fc: "filter_content ?nd [[88]] [88, 10, 88, 10, 88, 10, 65] = [65]"
             "filter_content ?nd [[88]] [66] = [66]" "filter_content ?nd [[88]] [67] = [67]"
             "filter_content ?nd [[88]] [68] = [68]" "filter_content ?nd [[88]] [69] = [69]"
             "filter_content ?nd [[88]] [70] = [70]"
    by (simp_all add: filter_content_def pm)
  have c1: "map content (extract_text_from_pptx ?nd ?c) = [[65], [66], [67], [68], [69], [70]]"
    unfolding extract_alt c_f by (simp add: c_coll c_fc)
  let ?cell = "[70, 111, 111, 116, 101, 114, 10, 67, 111::nat]"
  let ?b = "[[\<lparr>has_text_frame = False, is_title = False, shape_text = [], paragraphs = [],
             has_table = True, table_rows = [[ascii ''Footer'' @ 10 # ascii ''Co'']]\<rparr>],
           [\<lparr>has_text_frame = False, is_title = False, shape_text = [], paragraphs = [],
             has_table = True, table_rows = [[ascii ''Footer'' @ 10 # ascii ''Co'']]\<rparr>],
           [\<lparr>has_text_frame = False, is_title = False, shape_text = [], paragraphs = [],
             has_table = True, table_rows = [[ascii ''Footer'' @ 10 # ascii ''Co'']]\<rparr>]]"
  have cell: "ascii ''Footer'' @ 10 # ascii ''Co'' = ?cell" by (simp add: ascii_def)
  have st: "strip ?cell = ?cell"
    by (simp add: strip_def lstrip_def rstrip_def py_isspace_def)
  have b_parts: "all_content_parts ?b = [?cell, ?cell, ?cell]"
    unfolding cell by (simp add: all_content_parts_def slide_text_def shape_step_def row_parts_def st)
  have b_coll: "fst (collect_slides ?b)
                = [\<lparr>slide_num = 1, title = [], content = ?cell\<rparr>,
                   \<lparr>slide_num = 2, title = [], content = ?cell\<rparr>,
                   \<lparr>slide_num = 3, title = [], content = ?cell\<rparr>]"
    unfolding cell
    by (simp add: collect_slides_def enumerate1_def slide_step_def slide_text_def shape_step_def
        row_parts_def st Let_def)
  have b_c: "snd (collect_slides ?b) = [(?cell, 3)]"
    by (simp add: footer_candidates_collected b_parts count_footer_def)
  have b_f: "footers_to_remove (snd (collect_slides ?b)) (length (fst (collect_slides ?b)))
             = [?cell]"
    by (simp add: b_c b_coll footers_to_remove_def)
  have sp: "split_nl ?cell = [[70, 111, 111, 116, 101, 114], [67, 111]]" by simp
  have pmb: "\<not> page_num_match ?nd (strip [70, 111, 111, 116, 101, 114])"
            "\<not> page_num_match ?nd (strip [67, 111])"
    by (simp_all add: extract_defs)
  have b_fc: "filter_content ?nd [?cell] ?cell = ?cell"
    unfolding filter_content_def sp using pmb by simp
  have b_ext: "extract_text_from_pptx ?nd ?b
                = [\<lparr>slide_num = 1, title = [], content = ?cell\<rparr>,
                   \<lparr>slide_num = 2, title = [], content = ?cell\<rparr>,
                   \<lparr>slide_num = 3, title = [], content = ?cell\<rparr>]"
    unfolding extract_alt b_f by (simp add: b_coll b_fc)
  have b1: "map (\<lambda>s. split_nl (content s)) (extract_text_from_pptx ?nd ?b)
              = [[ascii ''Footer'', ascii ''Co''], [ascii ''Footer'', ascii ''Co''],
                 [ascii ''Footer'', ascii ''Co'']]"
    unfolding b_ext by (simp add: ascii_def)
  from a1 a2 c1 b1 show ?thesis by (intro conjI)
qed


text \<open>
  Claim C6. No line of any slide's processed content matches the page-number pattern once
  stripped, whatever the presentation, so such lines are removed however often they occur;
  the lines \<^verbatim>\<open>3\<close>, \<^verbatim>\<open>Page 3\<close>, \<^verbatim>\<open>3 / 10\<close> and the Korean word for page followed by
  \<^verbatim>\<open> 3\<close> match the pattern.
\<close>

theorem page_number_lines_removed:
  "(\<forall>r \<in> set (extract_text_from_pptx nd prs).
      \<forall>line \<in> set (split_nl (content r)). \<not> page_num_match nd (strip line))
   \<and> page_num_match nd (ascii ''3'')
   \<and> page_num_match nd (ascii ''Page 3'')
   \<and> page_num_match nd (ascii ''3 / 10'')
   \<and> page_num_match nd (kw_page @ ascii '' 3'')"
proof -
  have removed: "\<not> page_num_match nd (strip line)"
    if r: "r \<in> set (extract_text_from_pptx nd prs)" and l: "line \<in> set (split_nl (content r))"
    for r line
  proof -
    from r obtain s :: slide and footers :: "pystr list"
      where "content r = filter_content nd footers (content s)"
      by (auto simp: extract_alt)
    with l have "line \<in> set (split_nl (filter_content nd footers (content s)))" by simp
    then show ?thesis
      by (auto simp: lines_filter_content Let_def page_num_match_empty split: if_splits)
  qed
  have d: "is_digit nd 51" "is_digit nd 49" "is_digit nd 48" by (simp_all add: is_digit_def)
  have sp: "py_isspace 32" "\<not> py_isspace 51" "\<not> py_isspace 47" "\<not> py_isspace 49"
    by (simp_all add: py_isspace_def)
  have m1: "page_num_match nd (ascii ''3'')"
    using d by (simp add: page_num_match_def page_num_pattern_def rx_alt_def rx_seq_def
        rx_plus_def rx_eol_def ascii_def)
  have "rx_seq (rx_lit (ascii ''Page'')) (rx_seq (rx_star py_isspace) (rx_plus (is_digit nd)))
          (ascii ''Page 3'') \<noteq> []"
    using d sp by (simp add: rx_seq_def rx_plus_def ascii_def lower_def)
  then have m2: "page_num_match nd (ascii ''Page 3'')"
    by (simp add: page_num_match_def page_num_pattern_def rx_alt_def)
  have "rx_seq (rx_lit kw_page) (rx_seq (rx_star py_isspace) (rx_plus (is_digit nd)))
          (kw_page @ ascii '' 3'') \<noteq> []"
    using d sp by (simp add: rx_seq_def rx_plus_def ascii_def lower_def kw_page_def)
  then have m4: "page_num_match nd (kw_page @ ascii '' 3'')"
    by (simp add: page_num_match_def page_num_pattern_def rx_alt_def)
  have "rx_seq (rx_plus (is_digit nd))
            (rx_seq (rx_star py_isspace)
            (rx_seq (rx_lit (ascii ''/''))
            (rx_seq (rx_star py_isspace)
            (rx_seq (rx_plus (is_digit nd)) rx_eol)))) (ascii ''3 / 10'') \<noteq> []"
    using d sp by (auto simp: rx_seq_def rx_plus_def ascii_def lower_def rx_eol_def)
  then have m3: "page_num_match nd (ascii ''3 / 10'')"
    by (simp add: page_num_match_def page_num_pattern_def rx_alt_def)
  from removed m1 m2 m3 m4 show ?thesis by blast
qed


theorem page_number_lines_removed_witness:
  "\<lparr>slide_num = 1, title = [], content = ascii ''hello''\<rparr>
     \<in> set (extract_text_from_pptx (\<lambda>c. False)
              [[\<lparr>has_text_frame = True, is_title = False, shape_text = [],
                 paragraphs = [ascii ''hello'', ascii ''3''],
                 has_table = False, table_rows = []\<rparr>]])
   \<and> ascii ''hello'' \<in> set (split_nl (content \<lparr>slide_num = 1, title = [], content = ascii ''hello''\<rparr>))
   \<and> \<not> page_num_match (\<lambda>c. False) (strip (ascii ''hello''))"
proof -
  let ?prs = "[[\<lparr>has_text_frame = True, is_title = False, shape_text = [],
                 paragraphs = [ascii ''hello'', ascii ''3''],
                 has_table = False, table_rows = []\<rparr>]]"
  let ?r = "\<lparr>slide_num = 1, title = [], content = ascii ''hello''\<rparr>"
  have e: "extract_text_from_pptx (\<lambda>c. False) ?prs = [?r]"
    by (auto simp: extract_defs)
  then have a: "?r \<in> set (extract_text_from_pptx (\<lambda>c. False) ?prs)" by simp
  have b: "ascii ''hello'' \<in> set (split_nl (content ?r))" by (simp add: ascii_def)
  from page_number_lines_removed [of "\<lambda>c. False" ?prs] a b
  have "\<not> page_num_match (\<lambda>c. False) (strip (ascii ''hello''))" by blast
  with a b show ?thesis by blast
qed

section \<open>Facts about the presentation-to-PDF endpoints\<close>

text \<open>
  Claim C3 (the code departs from it). When the office process exceeds the timeout, both
  handlers answer 504 and remove the uploaded scratch file, but the scratch directory made
  for the output is still on the disk after the reply: its removal is written on the
  successful path only (\<^verbatim>\<open>os.rmdir\<close> in \<^verbatim>\<open>convert_to_pdf_direct\<close>, the registered callback in
  \<^verbatim>\<open>convert_pdf\<close>).
\<close>

theorem convert_timeout_leaves_output_dir:
  "convert_to_pdf_direct
     \<lparr>pptx_path = ascii ''/tmp/a.pptx'', output_dir = ascii ''/tmp/d'',
      run_result = TimeoutExpired, run_files = []\<rparr>
     (Some (ascii ''UEs='')) True \<lparr>disk_files = [], disk_dirs = []\<rparr>
     = (\<lparr>resp_status = 504, resp_body = ErrorJson\<rparr>,
        \<lparr>disk_files = [], disk_dirs = [ascii ''/tmp/d'']\<rparr>)
   \<and> convert_pdf
     \<lparr>pptx_path = ascii ''/tmp/a.pptx'', output_dir = ascii ''/tmp/d'',
      run_result = TimeoutExpired, run_files = []\<rparr>
     False True True \<lparr>disk_files = [], disk_dirs = []\<rparr>
     = (\<lparr>resp_status = 504, resp_body = ErrorJson\<rparr>,
        \<lparr>disk_files = [], disk_dirs = [ascii ''/tmp/d'']\<rparr>)"
  by (simp add: convert_to_pdf_direct_def convert_pdf_def create_file_def mkdir_def
      run_office_def finally_unlink_def path_exists_def unlink_def ascii_def Let_def)


section \<open>Facts about the pipeline orchestrator\<close>

lemma out_world_simps [simp]:
  "out_world (Inl (e, w)) = w" "out_world (Inr (x, w)) = w"
  by (simp_all add: out_world_def)

lemma step_ok_refl: "step_ok j w w"
  by (simp add: step_ok_def failed_zero_def)

lemma step_ok_silent:
  "status_calls w' = status_calls w \<Longrightarrow> jobs w' = jobs w \<Longrightarrow> step_ok j w w'"
  by (simp add: step_ok_def failed_zero_def)

lemma synced_cong:
  "jobs w2 = jobs w1 \<Longrightarrow> status_calls w2 = status_calls w1 \<Longrightarrow> synced j w1 \<Longrightarrow> synced j w2"
  by (simp add: synced_def split: option.splits)

lemma step_ok_trans:
  assumes "step_ok j w w1" and "step_ok j w1 w2"
  shows "step_ok j w w2"
proof -
  from assms(1) obtain n1 where n1: "status_calls w1 = status_calls w @ n1" "failed_zero n1"
    "n1 = [] \<longrightarrow> jobs w1 = jobs w" "n1 \<noteq> [] \<longrightarrow> synced j w1"
    by (auto simp: step_ok_def)
  from assms(2) obtain n2 where n2: "status_calls w2 = status_calls w1 @ n2" "failed_zero n2"
    "n2 = [] \<longrightarrow> jobs w2 = jobs w1" "n2 \<noteq> [] \<longrightarrow> synced j w2"
    by (auto simp: step_ok_def)
  have a: "status_calls w2 = status_calls w @ (n1 @ n2)" using n1 n2 by simp
  have b: "failed_zero (n1 @ n2)" using n1 n2 by (auto simp: failed_zero_def)
  have c: "n1 @ n2 = [] \<longrightarrow> jobs w2 = jobs w" using n1 n2 by simp
  have d: "n1 @ n2 \<noteq> [] \<longrightarrow> synced j w2"
  proof (cases "n2 = []")
    case True
    show ?thesis
    proof
      assume "n1 @ n2 \<noteq> []"
      with True have "n1 \<noteq> []" by simp
      with n1 have s1: "synced j w1" by simp
      from True n2 have "jobs w2 = jobs w1" "status_calls w2 = status_calls w1" by simp_all
      then show "synced j w2" using s1 by (rule synced_cong)
    qed
  next
    case False
    with n2 show ?thesis by simp
  qed
  from a b c d show ?thesis unfolding step_ok_def by blast
qed

lemma set_status_world:
  "status_calls (out_world (set_status j st p kwargs w)) = status_calls w @ [(st, p)]
   \<and> quizzes (out_world (set_status j st p kwargs w)) = quizzes w
   \<and> generation_calls (out_world (set_status j st p kwargs w)) = generation_calls w
   \<and> bucket (out_world (set_status j st p kwargs w)) = bucket w
   \<and> local_files (out_world (set_status j st p kwargs w)) = local_files w"
  by (simp add: set_status_def Let_def split: sum.splits)

lemma set_status_step_ok:
  assumes "st = ascii ''failed'' \<longrightarrow> p = 0" and "binds kwargs"
  shows "step_ok j w (out_world (set_status j st p kwargs w))"
proof -
  let ?w' = "out_world (set_status j st p kwargs w)"
  have log: "status_calls ?w' = status_calls w @ [(st, p)]" by (simp add: set_status_world)
  have fz: "failed_zero [(st, p)]" using assms(1) by (simp add: failed_zero_def)
  have "synced j ?w'"
  proof (cases "quizJobs (jobs w) j")
    case None
    then show ?thesis
      using assms(2)
      by (simp add: set_status_def Let_def update_job_status_def document_update_def synced_def)
  next
    case (Some stored)
    then have "quizJobs (jobs (w\<lparr>status_calls := status_calls w @ [(st, p)]\<rparr>)) j = Some stored"
      by simp
    from update_job_status_result [OF this assms(2)]
    show ?thesis
      using assms(2)
      by (simp add: set_status_def Let_def synced_def fresh_snapshot_status
          fresh_snapshot_progress map_add_def binds_def)
  qed
  with log fz show ?thesis unfolding step_ok_def by blast
qed

lemma step_ok_bind:
  assumes "step_ok j w (out_world r)"
    and "\<And>x w1. r = Inr (x, w1) \<Longrightarrow> step_ok j w1 (out_world (f x w1))"
  shows "step_ok j w (out_world (case r of Inl ew \<Rightarrow> Inl ew | Inr (x, w1) \<Rightarrow> f x w1))"
proof (cases r)
  case (Inl ew)
  with assms(1) show ?thesis by (cases ew) simp
next
  case (Inr xw)
  obtain x w1 where xw: "xw = (x, w1)" by (cases xw)
  with Inr assms(1) have "step_ok j w w1" by simp
  moreover from Inr xw assms(2) have "step_ok j w1 (out_world (f x w1))" by simp
  ultimately show ?thesis using Inr xw by (simp add: step_ok_trans)
qed

lemma kw_message [simp]:
  "ascii ''processing'' \<noteq> ascii ''failed''" "ascii ''completed'' \<noteq> ascii ''failed''"
  by (simp_all add: ascii_def)

lemma binds_orchestrator [simp]:
  "binds [(ascii ''message'', v)]" "binds [(ascii ''error'', v)]"
  "binds [(ascii ''message'', v1), (ascii ''quizId'', v2), (ascii ''questionCount'', v3)]"
  by (simp_all add: binds_def ascii_def)

lemma step_ok_set_status_bind:
  assumes "st = ascii ''failed'' \<longrightarrow> p = 0" and "binds kwargs"
    and "status_calls w0 = status_calls w" and "jobs w0 = jobs w"
    and "\<And>x w1. step_ok j w1 (out_world (f x w1))"
  shows "step_ok j w (out_world (case set_status j st p kwargs w0 of
                                   Inl ew \<Rightarrow> Inl ew | Inr (x, w1) \<Rightarrow> f x w1))"
proof -
  have "step_ok j w w0" using assms(3,4) by (rule step_ok_silent)
  moreover have "step_ok j w0 (out_world (case set_status j st p kwargs w0 of
                                   Inl ew \<Rightarrow> Inl ew | Inr (x, w1) \<Rightarrow> f x w1))"
    using set_status_step_ok [OF assms(1,2)] assms(5) by (rule step_ok_bind)
  ultimately show ?thesis by (rule step_ok_trans)
qed

lemma finish_step_ok:
  "step_ok j w (out_world (finish env req j sp u qc n acc w))"
  unfolding finish_def Let_def
  by (auto intro!: step_ok_set_status_bind step_ok_refl)

lemma generate_loop_step_ok:
  "step_ok j w (out_world (generate_loop env req j qc n ics acc w))"
proof (induction ics arbitrary: acc w)
  case Nil
  show ?case by (simp add: step_ok_refl)
next
  case (Cons ic ics)
  obtain i chunk where ic: "ic = (i, chunk)" by (cases ic)
  show ?case
    unfolding ic generate_loop.simps Let_def
  proof (rule step_ok_set_status_bind)
    fix x w1
    show "step_ok j w1 (out_world
            (case reply env i chunk (req_difficulty req) (req_keywords req) of
               GenRaises e \<Rightarrow> Inl (e, w1\<lparr>generation_calls := generation_calls w1 @ [chunk]\<rparr>)
             | GenReply parsed \<Rightarrow>
                 if qc \<le> int (length (acc @ generate_quiz_from_chunk parsed))
                 then Inr (acc @ generate_quiz_from_chunk parsed,
                           w1\<lparr>generation_calls := generation_calls w1 @ [chunk]\<rparr>)
                 else generate_loop env req j qc n ics (acc @ generate_quiz_from_chunk parsed)
                        (w1\<lparr>generation_calls := generation_calls w1 @ [chunk]\<rparr>)))"
    proof (cases "reply env i chunk (req_difficulty req) (req_keywords req)")
      case (GenRaises e)
      then show ?thesis by (simp add: step_ok_silent)
    next
      case (GenReply parsed)
      have "step_ok j w1 (w1\<lparr>generation_calls := generation_calls w1 @ [chunk]\<rparr>)"
        by (simp add: step_ok_silent)
      then show ?thesis
        using GenReply Cons.IH step_ok_trans by auto
    qed
  qed simp_all
qed

lemma guarded_step_ok:
  "step_ok j w (out_world (guarded env req j sp u qc file w))"
  unfolding guarded_def Let_def
proof (rule step_ok_set_status_bind, goal_cases)
  case (5 x w1)
  show ?case
  proof (cases "file")
    case OtherBytes
    then show ?thesis by (simp add: step_ok_refl)
  next
    case (PptxFile prs)
    then show ?thesis
      by (cases "chunk_slides (extract_text_from_pptx (unicode_nd env) prs) 3")
         (auto intro!: step_ok_set_status_bind step_ok_refl step_ok_bind generate_loop_step_ok
            finish_step_ok set_status_step_ok)
  qed
qed simp_all

lemma remove_tmp_silent [simp]:
  "status_calls (remove_tmp env w) = status_calls w" "jobs (remove_tmp env w) = jobs w"
  "quizzes (remove_tmp env w) = quizzes w" "generation_calls (remove_tmp env w) = generation_calls w"
  by (simp_all add: remove_tmp_def)

lemma out_world_finally:
  "out_world (case r of Inl (e, w4) \<Rightarrow> Inl (e, remove_tmp env w4)
                | Inr (resp, w4) \<Rightarrow> Inr (resp, remove_tmp env w4))
     = remove_tmp env (out_world r)"
  by (auto split: sum.splits)

lemma download_and_run_step_ok:
  "step_ok j w (out_world (download_and_run env req j sp u qc w))"
  unfolding download_and_run_def Let_def
proof (rule step_ok_set_status_bind, goal_cases)
  case (5 x w1)
  let ?w2 = "w1\<lparr>local_files := (tmp_path env, OtherBytes) # local_files w1\<rparr>"
  show ?case
  proof (cases "map_of (bucket ?w2) sp")
    case None
    then show ?thesis by (simp add: step_ok_silent)
  next
    case (Some f)
    let ?w3 = "?w2\<lparr>local_files := (tmp_path env, f) # local_files w1\<rparr>"
    let ?r = "guarded env req j sp u qc f ?w3"
    have a: "step_ok j w1 ?w3" by (simp add: step_ok_silent)
    have b: "step_ok j ?w3 (out_world ?r)" by (rule guarded_step_ok)
    have c: "step_ok j (out_world ?r) (remove_tmp env (out_world ?r))"
      by (simp add: step_ok_silent)
    from a b c have "step_ok j w1 (remove_tmp env (out_world ?r))"
      by (blast intro: step_ok_trans)
    with Some show ?thesis by (simp add: out_world_finally)
  qed
qed simp_all

lemma process_pptx_step_ok:
  "step_ok (the (req_job_id req)) w (snd (process_pptx env (Some req) w))"
proof -
  let ?j = "the (req_job_id req)"
  let ?r = "download_and_run env req ?j (the (req_storage_path req)) (the (req_user_id req))
              (case req_question_count req of None \<Rightarrow> 10 | Some n \<Rightarrow> n) w"
  have a: "step_ok ?j w (out_world ?r)" by (rule download_and_run_step_ok)
  have b: "step_ok ?j w' (out_world (set_status ?j (ascii ''failed'') 0
                                     [(ascii ''error'', VStr (error_text env e))] w'))" for w' e
    by (rule set_status_step_ok) simp_all
  show ?thesis
  proof (cases ?r)
    case (Inl ew)
    obtain e w' where "ew = (e, w')" by (cases ew)
    with Inl a b [of w' e] show ?thesis
      by (auto simp: process_pptx_def Let_def step_ok_refl intro: step_ok_trans)
  next
    case (Inr rw)
    obtain resp w' where "rw = (resp, w')" by (cases rw)
    with Inr a show ?thesis
      by (auto simp: process_pptx_def Let_def step_ok_refl)
  qed
qed

text \<open>
  Claim C10. The status calls a run of \<^verbatim>\<open>process_pptx\<close> adds to the log report progress 0
  whenever they mark the job failed; and when the last call of the run marks the job failed
  and the job's record exists afterwards, that record shows status \<^verbatim>\<open>failed\<close> and progress
  0.
\<close>

theorem failed_status_progress_zero:
  "\<exists>new. status_calls (snd (process_pptx env data w)) = status_calls w @ new
     \<and> (\<forall>c \<in> set new. fst c = ascii ''failed'' \<longrightarrow> snd c = 0)
     \<and> (\<forall>req d. data = Some req \<and> new \<noteq> [] \<and> fst (last new) = ascii ''failed''
            \<and> quizJobs (jobs (snd (process_pptx env data w))) (the (req_job_id req)) = Some d
          \<longrightarrow> d (ascii ''status'') = Some (VStr (ascii ''failed''))
              \<and> d (ascii ''progress'') = Some (VInt 0))"
proof (cases data)
  case None
  then have "status_calls (snd (process_pptx env data w)) = status_calls w @ []"
    by (simp add: process_pptx_def)
  with None show ?thesis by (intro exI [of _ "[]"]) simp
next
  case (Some req)
  let ?w' = "snd (process_pptx env data w)"
  let ?j = "the (req_job_id req)"
  from process_pptx_step_ok [of req w env] Some
  obtain new where new: "status_calls ?w' = status_calls w @ new" "failed_zero new"
    "new \<noteq> [] \<longrightarrow> synced ?j ?w'"
    by (auto simp: step_ok_def)
  have "d (ascii ''status'') = Some (VStr (ascii ''failed''))
        \<and> d (ascii ''progress'') = Some (VInt 0)"
    if ne: "new \<noteq> []" and f: "fst (last new) = ascii ''failed''"
      and d: "quizJobs (jobs ?w') ?j = Some d" for d
  proof -
    from ne new have s: "synced ?j ?w'" by simp
    from ne new have l: "last (status_calls ?w') = last new" by simp
    from ne have "last new \<in> set new" by simp
    with new(2) f have z: "snd (last new) = 0" by (simp add: failed_zero_def)
    from ne new have "status_calls ?w' \<noteq> []" by simp
    with s d l f z show ?thesis by (simp add: synced_def)
  qed
  with new Some show ?thesis
    by (intro exI [of _ new]) (auto simp: failed_zero_def)
qed

theorem failed_status_progress_zero_witness:
  "status_calls (snd (process_pptx
       \<lparr>unicode_nd = (\<lambda>c. False), tmp_path = ascii ''/tmp/t.pptx'',
        reply = (\<lambda>i chunk difficulty keywords. GenReply None),
        chunk_progress = (\<lambda>i n. 25), new_quiz_id = ascii ''quiz1'', quiz_write_ok = True,
        error_text = (\<lambda>e. ascii ''error'')\<rparr>
       (Some \<lparr>req_job_id = Some (ascii ''j''), req_storage_path = Some (ascii ''p''),
              req_user_id = Some (ascii ''u''), req_folder_name = None, req_difficulty = None,
              req_question_count = None, req_tags = [], req_keywords = []\<rparr>)
       \<lparr>jobs = \<lparr>quizJobs = [ascii ''j'' \<mapsto> Map.empty], server_time = 7\<rparr>,
        quizzes = [], bucket = [], local_files = [], status_calls = [],
        generation_calls = []\<rparr>))
     = [(ascii ''processing'', 5), (ascii ''failed'', 0)]
   \<and> (\<exists>d. quizJobs (jobs (snd (process_pptx
       \<lparr>unicode_nd = (\<lambda>c. False), tmp_path = ascii ''/tmp/t.pptx'',
        reply = (\<lambda>i chunk difficulty keywords. GenReply None),
        chunk_progress = (\<lambda>i n. 25), new_quiz_id = ascii ''quiz1'', quiz_write_ok = True,
        error_text = (\<lambda>e. ascii ''error'')\<rparr>
       (Some \<lparr>req_job_id = Some (ascii ''j''), req_storage_path = Some (ascii ''p''),
              req_user_id = Some (ascii ''u''), req_folder_name = None, req_difficulty = None,
              req_question_count = None, req_tags = [], req_keywords = []\<rparr>)
       \<lparr>jobs = \<lparr>quizJobs = [ascii ''j'' \<mapsto> Map.empty], server_time = 7\<rparr>,
        quizzes = [], bucket = [], local_files = [], status_calls = [],
        generation_calls = []\<rparr>))) (ascii ''j'') = Some d
        \<and> d (ascii ''status'') = Some (VStr (ascii ''failed''))
        \<and> d (ascii ''progress'') = Some (VInt 0))"
proof -
  define env where "env = \<lparr>unicode_nd = (\<lambda>c. False), tmp_path = ascii ''/tmp/t.pptx'',
        reply = (\<lambda>i chunk difficulty keywords. GenReply None),
        chunk_progress = (\<lambda>i n. 25), new_quiz_id = ascii ''quiz1'', quiz_write_ok = True,
        error_text = (\<lambda>e. ascii ''error'')\<rparr>"
  define req where "req = \<lparr>req_job_id = Some (ascii ''j''), req_storage_path = Some (ascii ''p''),
              req_user_id = Some (ascii ''u''), req_folder_name = None, req_difficulty = None,
              req_question_count = None, req_tags = [], req_keywords = []\<rparr>"
  define w where "w = \<lparr>jobs = \<lparr>quizJobs = [ascii ''j'' \<mapsto> Map.empty], server_time = 7\<rparr>,
        quizzes = [], bucket = [], local_files = [], status_calls = [],
        generation_calls = []\<rparr>"
  define w' where "w' = snd (process_pptx env (Some req) w)"
  have ne: "ascii ''j'' \<noteq> []" "ascii ''p'' \<noteq> []" "ascii ''u'' \<noteq> []"
    by (simp_all add: ascii_def)
  have log: "status_calls w' = [(ascii ''processing'', 5), (ascii ''failed'', 0)]"
    unfolding w'_def env_def req_def w_def
    by (simp add: process_pptx_def download_and_run_def set_status_def update_job_status_def
        document_update_def truthy_def Let_def ne)
  have ex: "quizJobs (jobs w') (ascii ''j'') \<noteq> None"
    unfolding w'_def env_def req_def w_def
    by (simp add: process_pptx_def download_and_run_def set_status_def update_job_status_def
        document_update_def truthy_def Let_def ne)
  have j: "the (req_job_id req) = ascii ''j''" by (simp add: req_def)
  have w0: "status_calls w = []" by (simp add: w_def)
  have "\<exists>new. status_calls w' = status_calls w @ new
     \<and> (\<forall>c \<in> set new. fst c = ascii ''failed'' \<longrightarrow> snd c = 0)
     \<and> (\<forall>r d. Some req = Some r \<and> new \<noteq> [] \<and> fst (last new) = ascii ''failed''
            \<and> quizJobs (jobs w') (the (req_job_id r)) = Some d
          \<longrightarrow> d (ascii ''status'') = Some (VStr (ascii ''failed''))
              \<and> d (ascii ''progress'') = Some (VInt 0))"
    unfolding w'_def by (rule failed_status_progress_zero)
  then have "status_calls w' = [(ascii ''processing'', 5), (ascii ''failed'', 0)]
     \<and> (\<exists>d. quizJobs (jobs w') (ascii ''j'') = Some d
            \<and> d (ascii ''status'') = Some (VStr (ascii ''failed''))
            \<and> d (ascii ''progress'') = Some (VInt 0))"
  proof (elim exE conjE)
    fix new
    assume new: "status_calls w' = status_calls w @ new"
      and db: "\<forall>r d. Some req = Some r \<and> new \<noteq> [] \<and> fst (last new) = ascii ''failed''
            \<and> quizJobs (jobs w') (the (req_job_id r)) = Some d
          \<longrightarrow> d (ascii ''status'') = Some (VStr (ascii ''failed''))
              \<and> d (ascii ''progress'') = Some (VInt 0)"
    from ex obtain d where d: "quizJobs (jobs w') (ascii ''j'') = Some d"
      by (cases "quizJobs (jobs w') (ascii ''j'')") simp_all
    from new log w0 have n: "new = [(ascii ''processing'', 5), (ascii ''failed'', 0)]" by simp
    then have n2: "new \<noteq> []" "fst (last new) = ascii ''failed''" by simp_all
    from d j have d': "quizJobs (jobs w') (the (req_job_id req)) = Some d" by simp
    from db [rule_format, of req d] n2 d'
    have "d (ascii ''status'') = Some (VStr (ascii ''failed''))
          \<and> d (ascii ''progress'') = Some (VInt 0)"
      by (simp only: simp_thms)
    with d have "\<exists>d. quizJobs (jobs w') (ascii ''j'') = Some d
            \<and> d (ascii ''status'') = Some (VStr (ascii ''failed''))
            \<and> d (ascii ''progress'') = Some (VInt 0)"
      by (intro exI [of _ d] conjI) simp_all
    with log show ?thesis by (rule_tac conjI)
  qed
  then show ?thesis unfolding w'_def env_def req_def w_def .
qed


lemma length_enumerate0 [simp]: "length (enumerate0 xs) = length xs"
  by (simp add: enumerate0_def)

lemma map_snd_enumerate0 [simp]: "map snd (enumerate0 xs) = xs"
  by (simp add: enumerate0_def)

lemma enumerate0_Nil_iff [simp]: "enumerate0 xs = [] \<longleftrightarrow> xs = []"
  by (cases xs) (simp_all add: enumerate0_def upt_rec)

lemma take_enumerate0 [simp]: "map snd (take m (enumerate0 xs)) = take m xs"
  by (simp add: take_map [symmetric])

lemma set_status_succeeds:
  assumes "quizJobs (jobs w) j = Some stored" and "binds kwargs"
  shows "\<exists>w'. set_status j st p kwargs w = Inr ((), w')
           \<and> quizzes w' = quizzes w \<and> generation_calls w' = generation_calls w
           \<and> bucket w' = bucket w \<and> local_files w' = local_files w
           \<and> status_calls w' = status_calls w @ [(st, p)]
           \<and> (\<exists>d. quizJobs (jobs w') j = Some d
                 \<and> d (ascii ''status'') = Some (VStr st)
                 \<and> d (ascii ''progress'') = Some (VInt p))"
proof -
  from assms(1)
  have "quizJobs (jobs (w\<lparr>status_calls := status_calls w @ [(st, p)]\<rparr>)) j = Some stored"
    by simp
  from update_job_status_result [OF this assms(2)] show ?thesis
    using assms(2)
    by (simp add: set_status_def Let_def fresh_snapshot_status fresh_snapshot_progress
        map_add_def binds_def)
qed


lemma set_status_keeps:
  assumes "quizJobs (jobs w) j = Some stored" and "binds kwargs"
  shows "\<exists>w' d. set_status j st p kwargs w = Inr ((), w')
           \<and> quizzes w' = quizzes w \<and> generation_calls w' = generation_calls w
           \<and> bucket w' = bucket w \<and> local_files w' = local_files w
           \<and> quizJobs (jobs w') j = Some d"
  using set_status_succeeds [OF assms, of st p] by blast

lemma generate_loop_returns:
  assumes "quizJobs (jobs w) j = Some stored" and "all_return env req ics"
  shows "\<exists>m w' d. m \<le> length ics \<and> (ics \<noteq> [] \<longrightarrow> 1 \<le> m)
           \<and> generate_loop env req j qc n ics acc w = Inr (accumulate env req qc ics acc, w')
           \<and> accumulate env req qc ics acc
               = acc @ concat (map (reply_questions env req) (take m ics))
           \<and> generation_calls w' = generation_calls w @ map snd (take m ics)
           \<and> quizzes w' = quizzes w \<and> bucket w' = bucket w
           \<and> quizJobs (jobs w') j = Some d
           \<and> (\<forall>k. Suc k < m \<longrightarrow>
                  int (length (acc @ concat (map (reply_questions env req) (take (Suc k) ics))))
                    < qc)
           \<and> (m < length ics \<longrightarrow> qc \<le> int (length (accumulate env req qc ics acc)))"
  using assms
proof (induction ics arbitrary: acc w stored)
  case Nil
  then show ?case by simp
next
  case (Cons ic ics)
  obtain i chunk where ic: "ic = (i, chunk)" by (cases ic)
  from Cons.prems(2) obtain parsed
    where rep: "reply env i chunk (req_difficulty req) (req_keywords req) = GenReply parsed"
      and rest: "all_return env req ics"
    by (cases "reply env i chunk (req_difficulty req) (req_keywords req)")
       (auto simp: all_return_def returns_def ic)
  have rq: "reply_questions env req ic = generate_quiz_from_chunk parsed"
    using rep by (simp add: reply_questions_def ic)
  let ?acc' = "acc @ generate_quiz_from_chunk parsed"
  from set_status_keeps [OF Cons.prems(1), of "[(ascii ''message'', VStr (msg_generating i n))]"
      "ascii ''processing''" "chunk_progress env i n"]
  obtain w1 d1 where s: "set_status j (ascii ''processing'') (chunk_progress env i n)
                           [(ascii ''message'', VStr (msg_generating i n))] w = Inr ((), w1)"
    and w1: "quizzes w1 = quizzes w" "generation_calls w1 = generation_calls w"
            "bucket w1 = bucket w"
    and d1: "quizJobs (jobs w1) j = Some d1"
    by auto
  let ?w2 = "w1\<lparr>generation_calls := generation_calls w1 @ [chunk]\<rparr>"
  show ?case
  proof (cases "qc \<le> int (length ?acc')")
    case True
    have r: "generate_loop env req j qc n (ic # ics) acc w = Inr (?acc', ?w2)"
      using s rep True by (simp add: ic Let_def)
    have a: "accumulate env req qc (ic # ics) acc = ?acc'"
      using True rq by (simp add: Let_def)
    show ?thesis
      using r a w1 d1 True rq
      by (intro exI [of _ 1] exI [of _ ?w2] exI [of _ d1]) (simp add: ic)
  next
    case False
    have r: "generate_loop env req j qc n (ic # ics) acc w
               = generate_loop env req j qc n ics ?acc' ?w2"
      using s rep False by (simp add: ic Let_def)
    have a: "accumulate env req qc (ic # ics) acc = accumulate env req qc ics ?acc'"
      using False rq by (simp add: Let_def)
    from d1 have d2: "quizJobs (jobs ?w2) j = Some d1" by simp
    from Cons.IH [OF d2 rest, of ?acc'] obtain m w' d
      where m: "m \<le> length ics"
        and run: "generate_loop env req j qc n ics ?acc' ?w2
                    = Inr (accumulate env req qc ics ?acc', w')"
        and acc: "accumulate env req qc ics ?acc'
                    = ?acc' @ concat (map (reply_questions env req) (take m ics))"
        and calls: "generation_calls w' = generation_calls ?w2 @ map snd (take m ics)"
        and same: "quizzes w' = quizzes ?w2" "bucket w' = bucket ?w2"
        and d: "quizJobs (jobs w') j = Some d"
        and below: "\<forall>k. Suc k < m \<longrightarrow>
               int (length (?acc' @ concat (map (reply_questions env req) (take (Suc k) ics))))
                 < qc"
        and reached: "m < length ics \<longrightarrow> qc \<le> int (length (accumulate env req qc ics ?acc'))"
      by blast
    have b: "int (length (acc @ concat (map (reply_questions env req)
                                          (take (Suc k) (ic # ics))))) < qc"
      if "Suc k < Suc m" for k
    proof (cases k)
      case 0
      with False rq show ?thesis by simp
    next
      case (Suc k')
      with that have "Suc k' < m" by simp
      with below have "int (length (?acc' @ concat (map (reply_questions env req)
                                                      (take (Suc k') ics)))) < qc"
        by blast
      with Suc rq show ?thesis by simp
    qed
    have c: "generation_calls w' = generation_calls w @ map snd (take (Suc m) (ic # ics))"
      using calls w1 by (simp add: ic)
    have e: "accumulate env req qc (ic # ics) acc
               = acc @ concat (map (reply_questions env req) (take (Suc m) (ic # ics)))"
      using a acc rq by simp
    show ?thesis
      using m r run a e c same w1 d b reached
      by (intro exI [of _ "Suc m"] exI [of _ w'] exI [of _ d]) simp
  qed
qed

lemma run_reaches_finish:
  assumes doc: "quizJobs (jobs w) j = Some stored"
    and blob: "map_of (bucket w) sp = Some (PptxFile prs)"
    and sd: "extract_text_from_pptx (unicode_nd env) prs \<noteq> []"
    and ch: "chunk_slides (extract_text_from_pptx (unicode_nd env) prs) 3 = Inr chunks"
    and ret: "all_return env req (enumerate0 chunks)"
  shows "\<exists>m w6 d6. m \<le> length chunks \<and> (chunks \<noteq> [] \<longrightarrow> 1 \<le> m)
           \<and> download_and_run env req j sp u qc w
               = (case finish env req j sp u qc
                         (length (extract_text_from_pptx (unicode_nd env) prs))
                         (accumulate env req qc (enumerate0 chunks) []) w6 of
                    Inl (e, w') \<Rightarrow> Inl (e, remove_tmp env w')
                  | Inr (resp, w') \<Rightarrow> Inr (resp, remove_tmp env w'))
           \<and> accumulate env req qc (enumerate0 chunks) [] = accumulated_after env req chunks m
           \<and> generation_calls w6 = generation_calls w @ take m chunks
           \<and> quizzes w6 = quizzes w
           \<and> quizJobs (jobs w6) j = Some d6
           \<and> (\<forall>k. Suc k < m \<longrightarrow> int (length (accumulated_after env req chunks (Suc k))) < qc)
           \<and> (m < length chunks
                \<longrightarrow> qc \<le> int (length (accumulated_after env req chunks m)))"
proof -
  let ?sd = "extract_text_from_pptx (unicode_nd env) prs"
  from set_status_keeps [OF doc, of "[(ascii ''message'', VStr msg_download)]"
      "ascii ''processing''" 5]
  obtain w1 d1 where s1: "set_status j (ascii ''processing'') 5
                            [(ascii ''message'', VStr msg_download)] w = Inr ((), w1)"
    and w1: "quizzes w1 = quizzes w" "generation_calls w1 = generation_calls w"
            "bucket w1 = bucket w"
    and d1: "quizJobs (jobs w1) j = Some d1"
    by auto
  let ?w3 = "w1\<lparr>local_files := (tmp_path env, PptxFile prs) # local_files w1\<rparr>"
  from d1 have doc3: "quizJobs (jobs ?w3) j = Some d1" by simp
  from set_status_keeps [OF doc3, of "[(ascii ''message'', VStr msg_extract)]"
      "ascii ''processing''" 15]
  obtain w4 d4 where s4: "set_status j (ascii ''processing'') 15
                            [(ascii ''message'', VStr msg_extract)] ?w3 = Inr ((), w4)"
    and w4: "quizzes w4 = quizzes w1" "generation_calls w4 = generation_calls w1"
    and d4: "quizJobs (jobs w4) j = Some d4"
    by auto
  from set_status_keeps [OF d4,
      of "[(ascii ''message'', VStr (msg_chunks (length ?sd) (length chunks) (req_keywords req)))]"
      "ascii ''processing''" 25]
  obtain w5 d5 where s5: "set_status j (ascii ''processing'') 25
        [(ascii ''message'', VStr (msg_chunks (length ?sd) (length chunks) (req_keywords req)))]
        w4 = Inr ((), w5)"
    and w5: "quizzes w5 = quizzes w4" "generation_calls w5 = generation_calls w4"
    and d5: "quizJobs (jobs w5) j = Some d5"
    by auto
  from generate_loop_returns [OF d5 ret, of qc "length chunks" "[]"]
  have "\<exists>m w6 d6. m \<le> length chunks \<and> (chunks \<noteq> [] \<longrightarrow> 1 \<le> m)
    \<and> generate_loop env req j qc (length chunks) (enumerate0 chunks) [] w5
                 = Inr (accumulate env req qc (enumerate0 chunks) [], w6)
    \<and> accumulate env req qc (enumerate0 chunks) []
                = concat (map (reply_questions env req) (take m (enumerate0 chunks)))
    \<and> generation_calls w6 = generation_calls w5 @ map snd (take m (enumerate0 chunks))
    \<and> quizzes w6 = quizzes w5
    \<and> quizJobs (jobs w6) j = Some d6
    \<and> (\<forall>k. Suc k < m \<longrightarrow>
                  int (length (concat (map (reply_questions env req)
                                           (take (Suc k) (enumerate0 chunks))))) < qc)
    \<and> (m < length chunks
                    \<longrightarrow> qc \<le> int (length (accumulate env req qc (enumerate0 chunks) [])))"
    by (simp only: length_enumerate0 enumerate0_Nil_iff append_Nil) blast
  then obtain m w6 d6 where m: "m \<le> length chunks" "chunks \<noteq> [] \<longrightarrow> 1 \<le> m"
    and loop: "generate_loop env req j qc (length chunks) (enumerate0 chunks) [] w5
                 = Inr (accumulate env req qc (enumerate0 chunks) [], w6)"
    and acc: "accumulate env req qc (enumerate0 chunks) []
                = concat (map (reply_questions env req) (take m (enumerate0 chunks)))"
    and calls: "generation_calls w6 = generation_calls w5 @ map snd (take m (enumerate0 chunks))"
    and w6: "quizzes w6 = quizzes w5"
    and d6: "quizJobs (jobs w6) j = Some d6"
    and below: "\<forall>k. Suc k < m \<longrightarrow>
                  int (length (concat (map (reply_questions env req)
                                           (take (Suc k) (enumerate0 chunks))))) < qc"
    and reached: "m < length chunks
                    \<longrightarrow> qc \<le> int (length (accumulate env req qc (enumerate0 chunks) []))"
    by blast
  have tk: "map snd (take m (enumerate0 chunks)) = take m chunks"
    by simp
  have g: "guarded env req j sp u qc (PptxFile prs) ?w3
             = finish env req j sp u qc (length ?sd)
                 (accumulate env req qc (enumerate0 chunks) []) w6"
    using s4 sd ch s5 loop by (simp add: guarded_def Let_def)
  have run: "download_and_run env req j sp u qc w
               = (case finish env req j sp u qc (length ?sd)
                         (accumulate env req qc (enumerate0 chunks) []) w6 of
                    Inl (e, w') \<Rightarrow> Inl (e, remove_tmp env w')
                  | Inr (resp, w') \<Rightarrow> Inr (resp, remove_tmp env w'))"
    using s1 w1 blob g by (simp add: download_and_run_def Let_def)
  show ?thesis
    using m run acc calls w6 w5 w4 w1 d6 below reached
    by (intro exI [of _ m] exI [of _ w6] exI [of _ d6]) (simp add: accumulated_after_def)
qed

text \<open>
  Claim C8. In a run of \<^verbatim>\<open>process_pptx\<close> whose required fields are present, whose job record
  exists and whose bucket holds a readable presentation under the requested path: when the
  extractor returns no slide record, the run answers 400, leaves the job's record with
  status \<^verbatim>\<open>failed\<close> and progress 0, writes nothing to the collection \<^verbatim>\<open>quizzes\<close> and calls
  the generator for no chunk; when the extractor returns slide records, every generator
  call returns, and the list \<^verbatim>\<open>all_questions\<close> cut to the requested count is empty, the run
  answers 500, leaves the job's record with status \<^verbatim>\<open>failed\<close> and progress 0, and writes
  nothing to \<^verbatim>\<open>quizzes\<close>.
\<close>

theorem no_quiz_on_terminal_errors:
  "(truthy (req_job_id req) \<and> truthy (req_storage_path req) \<and> truthy (req_user_id req)
      \<and> quizJobs (jobs w) (the (req_job_id req)) = Some stored
      \<and> map_of (bucket w) (the (req_storage_path req)) = Some (PptxFile prs)
      \<and> extract_text_from_pptx (unicode_nd env) prs = []
    \<longrightarrow> resp_status (fst (process_pptx env (Some req) w)) = 400
        \<and> quizzes (snd (process_pptx env (Some req) w)) = quizzes w
        \<and> generation_calls (snd (process_pptx env (Some req) w)) = generation_calls w
        \<and> (\<exists>d. quizJobs (jobs (snd (process_pptx env (Some req) w))) (the (req_job_id req))
                   = Some d
              \<and> d (ascii ''status'') = Some (VStr (ascii ''failed''))
              \<and> d (ascii ''progress'') = Some (VInt 0)))
   \<and> (truthy (req_job_id req) \<and> truthy (req_storage_path req) \<and> truthy (req_user_id req)
      \<and> quizJobs (jobs w) (the (req_job_id req)) = Some stored
      \<and> map_of (bucket w) (the (req_storage_path req)) = Some (PptxFile prs)
      \<and> extract_text_from_pptx (unicode_nd env) prs \<noteq> []
      \<and> chunk_slides (extract_text_from_pptx (unicode_nd env) prs) 3 = Inr chunks
      \<and> all_return env req (enumerate0 chunks)
      \<and> slice_to (accumulate env req (case req_question_count req of None \<Rightarrow> 10 | Some n \<Rightarrow> n)
                     (enumerate0 chunks) [])
                  (case req_question_count req of None \<Rightarrow> 10 | Some n \<Rightarrow> n) = []
    \<longrightarrow> resp_status (fst (process_pptx env (Some req) w)) = 500
        \<and> quizzes (snd (process_pptx env (Some req) w)) = quizzes w
        \<and> (\<exists>d. quizJobs (jobs (snd (process_pptx env (Some req) w))) (the (req_job_id req))
                   = Some d
              \<and> d (ascii ''status'') = Some (VStr (ascii ''failed''))
              \<and> d (ascii ''progress'') = Some (VInt 0)))"
proof (intro conjI impI)
  let ?j = "the (req_job_id req)"
  let ?sp = "the (req_storage_path req)"
  let ?u = "the (req_user_id req)"
  let ?qc = "case req_question_count req of None \<Rightarrow> 10 | Some n \<Rightarrow> n"
  let ?sd = "extract_text_from_pptx (unicode_nd env) prs"
  let ?acc = "accumulate env req ?qc (enumerate0 chunks) []"
  assume h: "truthy (req_job_id req) \<and> truthy (req_storage_path req) \<and> truthy (req_user_id req)
      \<and> quizJobs (jobs w) (the (req_job_id req)) = Some stored
      \<and> map_of (bucket w) (the (req_storage_path req)) = Some (PptxFile prs)
      \<and> extract_text_from_pptx (unicode_nd env) prs \<noteq> []
      \<and> chunk_slides (extract_text_from_pptx (unicode_nd env) prs) 3 = Inr chunks
      \<and> all_return env req (enumerate0 chunks)
      \<and> slice_to (accumulate env req (case req_question_count req of None \<Rightarrow> 10 | Some n \<Rightarrow> n)
                     (enumerate0 chunks) [])
                  (case req_question_count req of None \<Rightarrow> 10 | Some n \<Rightarrow> n) = []"
  then have doc: "quizJobs (jobs w) ?j = Some stored"
    and blob: "map_of (bucket w) ?sp = Some (PptxFile prs)"
    and sd: "?sd \<noteq> []" and ch: "chunk_slides ?sd 3 = Inr chunks"
    and ret: "all_return env req (enumerate0 chunks)"
    and empty: "slice_to ?acc ?qc = []"
    by simp_all
  from run_reaches_finish [OF doc blob sd ch ret, of ?u ?qc]
  obtain w6 d6 where run: "download_and_run env req ?j ?sp ?u ?qc w
               = (case finish env req ?j ?sp ?u ?qc (length ?sd) ?acc w6 of
                    Inl (e, w') \<Rightarrow> Inl (e, remove_tmp env w')
                  | Inr (resp, w') \<Rightarrow> Inr (resp, remove_tmp env w'))"
    and w6: "quizzes w6 = quizzes w"
    and d6: "quizJobs (jobs w6) ?j = Some d6"
    by blast
  from set_status_succeeds [OF d6, of "[(ascii ''error'', VStr err_no_questions)]"
      "ascii ''failed''" 0]
  obtain w7 where s7: "set_status ?j (ascii ''failed'') 0
                         [(ascii ''error'', VStr err_no_questions)] w6 = Inr ((), w7)"
    and w7: "quizzes w7 = quizzes w6"
    and d7: "\<exists>d. quizJobs (jobs w7) ?j = Some d
               \<and> d (ascii ''status'') = Some (VStr (ascii ''failed''))
               \<and> d (ascii ''progress'') = Some (VInt 0)"
    by auto
  have fin: "finish env req ?j ?sp ?u ?qc (length ?sd) ?acc w6
               = Inr (\<lparr>resp_status = 500, resp_body = ErrorJson\<rparr>, w7)"
    using empty s7 by (simp add: finish_def Let_def)
  have res: "process_pptx env (Some req) w
               = (\<lparr>resp_status = 500, resp_body = ErrorJson\<rparr>, remove_tmp env w7)"
    using h run fin by (simp add: process_pptx_def Let_def)
  show "resp_status (fst (process_pptx env (Some req) w)) = 500"
    by (simp add: res)
  show "quizzes (snd (process_pptx env (Some req) w)) = quizzes w"
    by (simp add: res w7 w6)
  show "\<exists>d. quizJobs (jobs (snd (process_pptx env (Some req) w))) ?j = Some d
              \<and> d (ascii ''status'') = Some (VStr (ascii ''failed''))
              \<and> d (ascii ''progress'') = Some (VInt 0)"
    using d7 by (simp add: res)
next
  assume h: "truthy (req_job_id req) \<and> truthy (req_storage_path req) \<and> truthy (req_user_id req)
      \<and> quizJobs (jobs w) (the (req_job_id req)) = Some stored
      \<and> map_of (bucket w) (the (req_storage_path req)) = Some (PptxFile prs)
      \<and> extract_text_from_pptx (unicode_nd env) prs = []"
  let ?j = "the (req_job_id req)"
  let ?sp = "the (req_storage_path req)"
  from h have doc: "quizJobs (jobs w) ?j = Some stored" by simp
  from set_status_succeeds [OF doc, of "[(ascii ''message'', VStr msg_download)]"
      "ascii ''processing''" 5]
  obtain w1 d1 where s1: "set_status ?j (ascii ''processing'') 5
                        [(ascii ''message'', VStr msg_download)] w = Inr ((), w1)"
    and w1: "quizzes w1 = quizzes w" "generation_calls w1 = generation_calls w"
            "bucket w1 = bucket w"
    and d1: "quizJobs (jobs w1) ?j = Some d1"
    by auto
  let ?w3 = "w1\<lparr>local_files := (tmp_path env, PptxFile prs) # local_files w1\<rparr>"
  from d1 have doc3: "quizJobs (jobs ?w3) ?j = Some d1" by simp
  from set_status_succeeds [OF doc3, of "[(ascii ''message'', VStr msg_extract)]"
      "ascii ''processing''" 15]
  obtain w4 d4 where s4: "set_status ?j (ascii ''processing'') 15
                        [(ascii ''message'', VStr msg_extract)] ?w3 = Inr ((), w4)"
    and w4: "quizzes w4 = quizzes w1" "generation_calls w4 = generation_calls w1"
    and d4: "quizJobs (jobs w4) ?j = Some d4"
    by auto
  from set_status_succeeds [OF d4, of "[(ascii ''error'', VStr err_no_text)]"
      "ascii ''failed''" 0]
  obtain w5 where s5: "set_status ?j (ascii ''failed'') 0
                        [(ascii ''error'', VStr err_no_text)] w4 = Inr ((), w5)"
    and w5: "quizzes w5 = quizzes w4" "generation_calls w5 = generation_calls w4"
    and d5: "\<exists>d. quizJobs (jobs w5) ?j = Some d
           \<and> d (ascii ''status'') = Some (VStr (ascii ''failed''))
           \<and> d (ascii ''progress'') = Some (VInt 0)"
    by auto
  have g: "guarded env req ?j ?sp (the (req_user_id req))
             (case req_question_count req of None \<Rightarrow> 10 | Some n \<Rightarrow> n) (PptxFile prs) ?w3
             = Inr (\<lparr>resp_status = 400, resp_body = ErrorJson\<rparr>, w5)"
    using h s4 s5 by (simp add: guarded_def Let_def)
  have run: "process_pptx env (Some req) w
               = (\<lparr>resp_status = 400, resp_body = ErrorJson\<rparr>, remove_tmp env w5)"
    using h s1 w1 g by (simp add: process_pptx_def download_and_run_def Let_def)
  show "resp_status (fst (process_pptx env (Some req) w)) = 400"
    by (simp add: run)
  show "quizzes (snd (process_pptx env (Some req) w)) = quizzes w"
    by (simp add: run w5 w4 w1)
  show "generation_calls (snd (process_pptx env (Some req) w)) = generation_calls w"
    by (simp add: run w5 w4 w1)
  show "\<exists>d. quizJobs (jobs (snd (process_pptx env (Some req) w))) ?j = Some d
              \<and> d (ascii ''status'') = Some (VStr (ascii ''failed''))
              \<and> d (ascii ''progress'') = Some (VInt 0)"
    using d5 by (simp add: run)
qed

theorem no_quiz_on_terminal_errors_witness:
  "resp_status (fst (process_pptx
       \<lparr>unicode_nd = (\<lambda>c. False), tmp_path = ascii ''/tmp/t.pptx'',
        reply = (\<lambda>i chunk difficulty keywords. GenReply None),
        chunk_progress = (\<lambda>i n. 25), new_quiz_id = ascii ''quiz1'', quiz_write_ok = True,
        error_text = (\<lambda>e. ascii ''error'')\<rparr>
       (Some \<lparr>req_job_id = Some (ascii ''j''), req_storage_path = Some (ascii ''p''),
              req_user_id = Some (ascii ''u''), req_folder_name = None, req_difficulty = None,
              req_question_count = None, req_tags = [], req_keywords = []\<rparr>)
       \<lparr>jobs = \<lparr>quizJobs = [ascii ''j'' \<mapsto> Map.empty], server_time = 7\<rparr>,
        quizzes = [], bucket = [(ascii ''p'', PptxFile [[]])], local_files = [],
        status_calls = [], generation_calls = []\<rparr>)) = 400
   \<and> quizzes (snd (process_pptx
       \<lparr>unicode_nd = (\<lambda>c. False), tmp_path = ascii ''/tmp/t.pptx'',
        reply = (\<lambda>i chunk difficulty keywords. GenReply None),
        chunk_progress = (\<lambda>i n. 25), new_quiz_id = ascii ''quiz1'', quiz_write_ok = True,
        error_text = (\<lambda>e. ascii ''error'')\<rparr>
       (Some \<lparr>req_job_id = Some (ascii ''j''), req_storage_path = Some (ascii ''p''),
              req_user_id = Some (ascii ''u''), req_folder_name = None, req_difficulty = None,
              req_question_count = None, req_tags = [], req_keywords = []\<rparr>)
       \<lparr>jobs = \<lparr>quizJobs = [ascii ''j'' \<mapsto> Map.empty], server_time = 7\<rparr>,
        quizzes = [], bucket = [(ascii ''p'', PptxFile [[]])], local_files = [],
        status_calls = [], generation_calls = []\<rparr>)) = []
   \<and> resp_status (fst (process_pptx
       \<lparr>unicode_nd = (\<lambda>c. False), tmp_path = ascii ''/tmp/t.pptx'',
        reply = (\<lambda>i chunk difficulty keywords. GenReply None),
        chunk_progress = (\<lambda>i n. 25), new_quiz_id = ascii ''quiz1'', quiz_write_ok = True,
        error_text = (\<lambda>e. ascii ''error'')\<rparr>
       (Some \<lparr>req_job_id = Some (ascii ''j''), req_storage_path = Some (ascii ''p''),
              req_user_id = Some (ascii ''u''), req_folder_name = None, req_difficulty = None,
              req_question_count = None, req_tags = [], req_keywords = []\<rparr>)
       \<lparr>jobs = \<lparr>quizJobs = [ascii ''j'' \<mapsto> Map.empty], server_time = 7\<rparr>,
        quizzes = [], bucket = [(ascii ''p'', PptxFile
              [[\<lparr>has_text_frame = True, is_title = False, shape_text = [],
                paragraphs = [ascii ''hello''], has_table = False, table_rows = []\<rparr>]])],
        local_files = [], status_calls = [], generation_calls = []\<rparr>)) = 500
   \<and> quizzes (snd (process_pptx
       \<lparr>unicode_nd = (\<lambda>c. False), tmp_path = ascii ''/tmp/t.pptx'',
        reply = (\<lambda>i chunk difficulty keywords. GenReply None),
        chunk_progress = (\<lambda>i n. 25), new_quiz_id = ascii ''quiz1'', quiz_write_ok = True,
        error_text = (\<lambda>e. ascii ''error'')\<rparr>
       (Some \<lparr>req_job_id = Some (ascii ''j''), req_storage_path = Some (ascii ''p''),
              req_user_id = Some (ascii ''u''), req_folder_name = None, req_difficulty = None,
              req_question_count = None, req_tags = [], req_keywords = []\<rparr>)
       \<lparr>jobs = \<lparr>quizJobs = [ascii ''j'' \<mapsto> Map.empty], server_time = 7\<rparr>,
        quizzes = [], bucket = [(ascii ''p'', PptxFile
              [[\<lparr>has_text_frame = True, is_title = False, shape_text = [],
                paragraphs = [ascii ''hello''], has_table = False, table_rows = []\<rparr>]])],
        local_files = [], status_calls = [], generation_calls = []\<rparr>)) = []
   \<and> (\<exists>d. quizJobs (jobs (snd (process_pptx
       \<lparr>unicode_nd = (\<lambda>c. False), tmp_path = ascii ''/tmp/t.pptx'',
        reply = (\<lambda>i chunk difficulty keywords. GenReply None),
        chunk_progress = (\<lambda>i n. 25), new_quiz_id = ascii ''quiz1'', quiz_write_ok = True,
        error_text = (\<lambda>e. ascii ''error'')\<rparr>
       (Some \<lparr>req_job_id = Some (ascii ''j''), req_storage_path = Some (ascii ''p''),
              req_user_id = Some (ascii ''u''), req_folder_name = None, req_difficulty = None,
              req_question_count = None, req_tags = [], req_keywords = []\<rparr>)
       \<lparr>jobs = \<lparr>quizJobs = [ascii ''j'' \<mapsto> Map.empty], server_time = 7\<rparr>,
        quizzes = [], bucket = [(ascii ''p'', PptxFile
              [[\<lparr>has_text_frame = True, is_title = False, shape_text = [],
                paragraphs = [ascii ''hello''], has_table = False, table_rows = []\<rparr>]])],
        local_files = [], status_calls = [], generation_calls = []\<rparr>))) (ascii ''j'') = Some d
        \<and> d (ascii ''status'') = Some (VStr (ascii ''failed''))
        \<and> d (ascii ''progress'') = Some (VInt 0))"
proof -
  define env where "env = \<lparr>unicode_nd = (\<lambda>c. False), tmp_path = ascii ''/tmp/t.pptx'',
        reply = (\<lambda>i chunk difficulty keywords. GenReply None),
        chunk_progress = (\<lambda>i n. 25), new_quiz_id = ascii ''quiz1'', quiz_write_ok = True,
        error_text = (\<lambda>e. ascii ''error'')\<rparr>"
  define req where "req = \<lparr>req_job_id = Some (ascii ''j''), req_storage_path = Some (ascii ''p''),
              req_user_id = Some (ascii ''u''), req_folder_name = None, req_difficulty = None,
              req_question_count = None, req_tags = [], req_keywords = []\<rparr>"
  define w0 where "w0 = \<lparr>jobs = \<lparr>quizJobs = [ascii ''j'' \<mapsto> Map.empty], server_time = 7\<rparr>,
        quizzes = [], bucket = [(ascii ''p'', PptxFile [[]])], local_files = [],
        status_calls = [], generation_calls = []\<rparr>"
  define prs where "prs = [[\<lparr>has_text_frame = True, is_title = False, shape_text = [],
            paragraphs = [ascii ''hello''], has_table = False, table_rows = []\<rparr>]]"
  define w where "w = \<lparr>jobs = \<lparr>quizJobs = [ascii ''j'' \<mapsto> Map.empty], server_time = 7\<rparr>,
        quizzes = [], bucket = [(ascii ''p'', PptxFile prs)], local_files = [],
        status_calls = [], generation_calls = []\<rparr>"
  define c where "c = strip (render_group [\<lparr>slide_num = 1, title = [], content = ascii ''hello''\<rparr>])"
  have ne: "ascii ''j'' \<noteq> []" "ascii ''p'' \<noteq> []" "ascii ''u'' \<noteq> []"
    by (simp_all add: ascii_def)
  have ex: "extract_text_from_pptx (\<lambda>c. False) [[]] = []"
    by (simp add: extract_text_from_pptx_def collect_slides_def enumerate1_def slide_step_def
        slide_text_def Let_def)
  have sd: "extract_text_from_pptx (\<lambda>c. False) prs
              = [\<lparr>slide_num = 1, title = [], content = ascii ''hello''\<rparr>]"
    unfolding prs_def by (auto simp: extract_defs)
  have ch: "chunk_slides [\<lparr>slide_num = 1, title = [], content = ascii ''hello''\<rparr>] 3 = Inr [c]"
    unfolding c_def
    using chunk_loop_groups [of 3 "[\<lparr>slide_num = 1, title = [], content = ascii ''hello''\<rparr>]" "[]" 0]
    by (simp add: chunk_slides_def py_range_def consecutive_groups.simps [of 3 "[x]" for x])
  have ret: "all_return env req (enumerate0 [c])"
    by (simp add: all_return_def returns_def enumerate0_def env_def)
  have gq: "generate_quiz_from_chunk None = []"
    by (simp add: generate_quiz_from_chunk_def)
  have acc: "accumulate env req 10 (enumerate0 [c]) [] = []"
    by (simp add: enumerate0_def reply_questions_def env_def gq Let_def)
  have qc: "(case req_question_count req of None \<Rightarrow> 10 | Some n \<Rightarrow> n) = 10"
    by (simp add: req_def)
  have h1: "truthy (req_job_id req) \<and> truthy (req_storage_path req) \<and> truthy (req_user_id req)
      \<and> quizJobs (jobs w0) (the (req_job_id req)) = Some Map.empty
      \<and> map_of (bucket w0) (the (req_storage_path req)) = Some (PptxFile [[]])
      \<and> extract_text_from_pptx (unicode_nd env) [[]] = []"
    using ex by (simp add: req_def w0_def env_def truthy_def ne)
  have h2: "truthy (req_job_id req) \<and> truthy (req_storage_path req) \<and> truthy (req_user_id req)
      \<and> quizJobs (jobs w) (the (req_job_id req)) = Some Map.empty
      \<and> map_of (bucket w) (the (req_storage_path req)) = Some (PptxFile prs)
      \<and> extract_text_from_pptx (unicode_nd env) prs \<noteq> []
      \<and> chunk_slides (extract_text_from_pptx (unicode_nd env) prs) 3 = Inr [c]
      \<and> all_return env req (enumerate0 [c])
      \<and> slice_to (accumulate env req (case req_question_count req of None \<Rightarrow> 10 | Some n \<Rightarrow> n)
                     (enumerate0 [c]) [])
                  (case req_question_count req of None \<Rightarrow> 10 | Some n \<Rightarrow> n) = []"
    unfolding qc acc using sd ch ret
    by (simp add: req_def w_def env_def truthy_def ne slice_to_def)
  have j: "the (req_job_id req) = ascii ''j''" by (simp add: req_def)
  have q0: "quizzes w0 = []" "quizzes w = []" by (simp_all add: w0_def w_def)
  from no_quiz_on_terminal_errors [where req = req and w = w0 and stored = Map.empty
      and prs = "[[]]" and env = env] h1
  have a: "resp_status (fst (process_pptx env (Some req) w0)) = 400
        \<and> quizzes (snd (process_pptx env (Some req) w0)) = quizzes w0"
    by (simp only: simp_thms)
  from no_quiz_on_terminal_errors [where req = req and w = w and stored = Map.empty
      and prs = prs and env = env and chunks = "[c]"] h2
  have b: "resp_status (fst (process_pptx env (Some req) w)) = 500
        \<and> quizzes (snd (process_pptx env (Some req) w)) = quizzes w
        \<and> (\<exists>d. quizJobs (jobs (snd (process_pptx env (Some req) w))) (the (req_job_id req))
                   = Some d
              \<and> d (ascii ''status'') = Some (VStr (ascii ''failed''))
              \<and> d (ascii ''progress'') = Some (VInt 0))"
    by (simp only: simp_thms)
  from a b
  have "resp_status (fst (process_pptx env (Some req) w0)) = 400
        \<and> quizzes (snd (process_pptx env (Some req) w0)) = []
        \<and> resp_status (fst (process_pptx env (Some req) w)) = 500
        \<and> quizzes (snd (process_pptx env (Some req) w)) = []
        \<and> (\<exists>d. quizJobs (jobs (snd (process_pptx env (Some req) w))) (ascii ''j'') = Some d
              \<and> d (ascii ''status'') = Some (VStr (ascii ''failed''))
              \<and> d (ascii ''progress'') = Some (VInt 0))"
    by (simp only: q0 j simp_thms)
  then show ?thesis unfolding env_def req_def w0_def w_def prs_def .
qed

lemma generate_loop_quizzes:
  "quizzes (out_world (generate_loop env req j qc n ics acc w)) = quizzes w"
proof (induction ics arbitrary: acc w)
  case Nil
  show ?case by simp
next
  case (Cons ic ics)
  obtain i chunk where ic: "ic = (i, chunk)" by (cases ic)
  let ?s = "set_status j (ascii ''processing'') (chunk_progress env i n)
              [(ascii ''message'', VStr (msg_generating i n))] w"
  have q: "quizzes (out_world ?s) = quizzes w" by (simp add: set_status_world)
  show ?case
  proof (cases ?s)
    case (Inl ew)
    with q show ?thesis by (cases ew) (simp add: ic)
  next
    case (Inr uw)
    obtain x w1 where uw: "uw = (x, w1)" by (cases uw)
    with Inr q have q1: "quizzes w1 = quizzes w" by simp
    show ?thesis
    proof (cases "reply env i chunk (req_difficulty req) (req_keywords req)")
      case (GenRaises e)
      with Inr uw q1 show ?thesis by (simp add: ic)
    next
      case (GenReply parsed)
      with Inr uw q1 Cons.IH show ?thesis by (simp add: ic Let_def)
    qed
  qed
qed

lemma length_quiz_questions [simp]:
  "length (quiz_questions (quiz_data req u qs n now)) = length qs"
  by (simp add: quiz_data_def)

lemma length_slice_to: "0 \<le> n \<Longrightarrow> int (length (slice_to xs n)) \<le> n"
  by (simp add: slice_to_def)

lemma finish_persisted:
  assumes "0 \<le> qc"
  shows "persisted_within qc w (out_world (finish env req j sp u qc n acc w))"
proof (cases "slice_to acc qc = []")
  case True
  then show ?thesis
    using set_status_world [of j "ascii ''failed''" 0 "[(ascii ''error'', VStr err_no_questions)]" w]
    by (auto simp: finish_def Let_def persisted_within_def split: sum.splits)
next
  case False
  let ?s = "set_status j (ascii ''processing'') 90 [(ascii ''message'', VStr msg_saving)] w"
  have q: "quizzes (out_world ?s) = quizzes w" by (simp add: set_status_world)
  show ?thesis
  proof (cases ?s)
    case (Inl ew)
    with q False show ?thesis
      by (cases ew) (simp add: finish_def Let_def persisted_within_def)
  next
    case (Inr uw)
    obtain x w1 where uw: "uw = (x, w1)" by (cases uw)
    with Inr q have q1: "quizzes w1 = quizzes w" by simp
    show ?thesis
    proof (cases "quiz_write_ok env")
      case False
      with Inr uw q1 \<open>slice_to acc qc \<noteq> []\<close> show ?thesis
        by (simp add: finish_def Let_def persisted_within_def)
    next
      case True
      let ?doc = "quiz_data req u (slice_to acc qc) n (server_time (jobs w1))"
      let ?w3 = "w1\<lparr>quizzes := quizzes w1 @ [(new_quiz_id env, ?doc)],
                     bucket := filter (\<lambda>kv. fst kv \<noteq> sp) (bucket w1)\<rparr>"
      let ?t = "set_status j (ascii ''completed'') 100
                  [(ascii ''message'', VStr msg_done),
                   (ascii ''quizId'', VStr (new_quiz_id env)),
                   (ascii ''questionCount'', VInt (int (length (slice_to acc qc))))] ?w3"
      have "quizzes (out_world ?t) = quizzes w @ [(new_quiz_id env, ?doc)]"
        by (simp add: set_status_world q1)
      moreover have "int (length (quiz_questions ?doc)) \<le> qc"
        using assms by (simp add: length_slice_to)
      moreover have "out_world (finish env req j sp u qc n acc w) = out_world ?t"
        using Inr uw True \<open>slice_to acc qc \<noteq> []\<close>
        by (auto simp: finish_def Let_def split: sum.splits)
      ultimately show ?thesis unfolding persisted_within_def by auto
    qed
  qed
qed


lemma persisted_within_refl: "persisted_within qc w w"
  by (simp add: persisted_within_def)

lemma persisted_within_from:
  "quizzes w1 = quizzes w \<Longrightarrow> persisted_within qc w1 w2 \<Longrightarrow> persisted_within qc w w2"
  by (simp add: persisted_within_def)

lemma persisted_within_to:
  "persisted_within qc w w1 \<Longrightarrow> quizzes w2 = quizzes w1 \<Longrightarrow> persisted_within qc w w2"
  by (simp add: persisted_within_def)

lemma guarded_persisted:
  assumes "0 \<le> qc"
  shows "persisted_within qc w (out_world (guarded env req j sp u qc f w))"
proof -
  let ?s = "set_status j (ascii ''processing'') 15 [(ascii ''message'', VStr msg_extract)] w"
  have q: "quizzes (out_world ?s) = quizzes w" by (simp add: set_status_world)
  show ?thesis
  proof (cases ?s)
    case (Inl ew)
    with q show ?thesis by (cases ew) (simp add: guarded_def persisted_within_def)
  next
    case (Inr uw)
    obtain x w1 where uw: "uw = (x, w1)" by (cases uw)
    with Inr q have q1: "quizzes w1 = quizzes w" by simp
    show ?thesis
    proof (cases f)
      case OtherBytes
      with Inr uw q1 show ?thesis by (simp add: guarded_def persisted_within_def)
    next
      case (PptxFile prs)
      let ?sd = "extract_text_from_pptx (unicode_nd env) prs"
      show ?thesis
      proof (cases "?sd = []")
        case True
        have "quizzes (out_world (set_status j (ascii ''failed'') 0
                 [(ascii ''error'', VStr err_no_text)] w1)) = quizzes w"
          by (simp add: set_status_world q1)
        with Inr uw PptxFile True show ?thesis
          by (auto simp: guarded_def Let_def persisted_within_def split: sum.splits)
      next
        case False
        show ?thesis
        proof (cases "chunk_slides ?sd 3")
          case (Inl e)
          with Inr uw PptxFile False q1 show ?thesis
            by (simp add: guarded_def Let_def persisted_within_def)
        next
          case chunks: (Inr chunks)
          let ?t = "set_status j (ascii ''processing'') 25
                      [(ascii ''message'',
                        VStr (msg_chunks (length ?sd) (length chunks) (req_keywords req)))] w1"
          have qt: "quizzes (out_world ?t) = quizzes w" by (simp add: set_status_world q1)
          show ?thesis
          proof (cases ?t)
            case (Inl ew)
            with qt Inr uw PptxFile False chunks show ?thesis
              by (cases ew) (simp add: guarded_def Let_def persisted_within_def)
          next
            case t: (Inr uw2)
            obtain x2 w2 where uw2: "uw2 = (x2, w2)" by (cases uw2)
            with t qt have q2: "quizzes w2 = quizzes w" by simp
            let ?l = "generate_loop env req j qc (length chunks) (enumerate0 chunks) [] w2"
            have ql: "quizzes (out_world ?l) = quizzes w"
              by (simp add: generate_loop_quizzes q2)
            show ?thesis
            proof (cases ?l)
              case (Inl ew)
              with ql Inr uw PptxFile False chunks t uw2 show ?thesis
                by (cases ew) (simp add: guarded_def Let_def persisted_within_def)
            next
              case l: (Inr aw)
              obtain acc w3 where aw: "aw = (acc, w3)" by (cases aw)
              with l ql have q3: "quizzes w3 = quizzes w" by simp
              have "persisted_within qc w3
                      (out_world (finish env req j sp u qc (length ?sd) acc w3))"
                using assms by (rule finish_persisted)
              with q3 have "persisted_within qc w
                      (out_world (finish env req j sp u qc (length ?sd) acc w3))"
                by (rule persisted_within_from)
              with Inr uw PptxFile False chunks t uw2 l aw show ?thesis
                by (simp add: guarded_def Let_def)
            qed
          qed
        qed
      qed
    qed
  qed
qed

lemma process_pptx_persisted:
  assumes "0 \<le> (case req_question_count req of None \<Rightarrow> 10 | Some n \<Rightarrow> n)"
  shows "persisted_within (case req_question_count req of None \<Rightarrow> 10 | Some n \<Rightarrow> n) w
           (snd (process_pptx env (Some req) w))"
proof (cases "truthy (req_job_id req) \<and> truthy (req_storage_path req) \<and> truthy (req_user_id req)")
  case False
  then show ?thesis by (auto simp: process_pptx_def persisted_within_def)
next
  case True
  let ?qc = "case req_question_count req of None \<Rightarrow> 10 | Some n \<Rightarrow> n"
  let ?j = "the (req_job_id req)"
  let ?sp = "the (req_storage_path req)"
  let ?u = "the (req_user_id req)"
  let ?s = "set_status ?j (ascii ''processing'') 5 [(ascii ''message'', VStr msg_download)] w"
  have handler: "persisted_within ?qc w
                   (out_world (set_status ?j (ascii ''failed'') 0
                                 [(ascii ''error'', VStr (error_text env e))] w'))"
    if "persisted_within ?qc w w'" for e w'
    using that by (rule persisted_within_to) (simp add: set_status_world)
  have dl: "persisted_within ?qc w (out_world (download_and_run env req ?j ?sp ?u ?qc w))"
  proof (cases ?s)
    case (Inl ew)
    have "quizzes (out_world ?s) = quizzes w" by (simp add: set_status_world)
    with Inl show ?thesis
      by (cases ew) (simp add: download_and_run_def persisted_within_def)
  next
    case (Inr uw)
    obtain x w1 where uw: "uw = (x, w1)" by (cases uw)
    have "quizzes (out_world ?s) = quizzes w" by (simp add: set_status_world)
    with Inr uw have q1: "quizzes w1 = quizzes w" by simp
    let ?w2 = "w1\<lparr>local_files := (tmp_path env, OtherBytes) # local_files w1\<rparr>"
    show ?thesis
    proof (cases "map_of (bucket ?w2) ?sp")
      case None
      with Inr uw q1 show ?thesis
        by (simp add: download_and_run_def Let_def persisted_within_def)
    next
      case (Some f)
      let ?w3 = "?w2\<lparr>local_files := (tmp_path env, f) # local_files w1\<rparr>"
      let ?g = "guarded env req ?j ?sp ?u ?qc f ?w3"
      have "persisted_within ?qc ?w3 (out_world ?g)" using assms by (rule guarded_persisted)
      then have "persisted_within ?qc w (out_world ?g)"
        by (rule persisted_within_from [rotated]) (simp add: q1)
      then have "persisted_within ?qc w (remove_tmp env (out_world ?g))"
        by (rule persisted_within_to) simp
      with Inr uw Some show ?thesis
        by (simp add: download_and_run_def Let_def out_world_finally)
    qed
  qed
  show ?thesis
  proof (cases "download_and_run env req ?j ?sp ?u ?qc w")
    case (Inl ew)
    obtain e w' where ew: "ew = (e, w')" by (cases ew)
    with Inl dl have "persisted_within ?qc w w'" by simp
    from handler [OF this, of e] Inl ew True show ?thesis
      by (simp add: process_pptx_def Let_def)
  next
    case (Inr rw)
    obtain resp w' where "rw = (resp, w')" by (cases rw)
    with Inr dl True show ?thesis by (simp add: process_pptx_def Let_def)
  qed
qed


lemma generate_loop_calls:
  "\<exists>m \<le> length ics.
      generation_calls (out_world (generate_loop env req j qc n ics acc w))
        = generation_calls w @ map snd (take m ics)
      \<and> (\<forall>k. Suc k < m \<longrightarrow>
             int (length (acc @ concat (map (reply_questions env req) (take (Suc k) ics)))) < qc)
      \<and> (\<forall>qs w'. generate_loop env req j qc n ics acc w = Inr (qs, w') \<longrightarrow>
             qs = acc @ concat (map (reply_questions env req) (take m ics))
             \<and> (m < length ics \<longrightarrow> qc \<le> int (length qs)))"
proof (induction ics arbitrary: acc w)
  case Nil
  show ?case by simp
next
  case (Cons ic ics)
  obtain i chunk where ic: "ic = (i, chunk)" by (cases ic)
  let ?s = "set_status j (ascii ''processing'') (chunk_progress env i n)
              [(ascii ''message'', VStr (msg_generating i n))] w"
  have g: "generation_calls (out_world ?s) = generation_calls w" by (simp add: set_status_world)
  show ?case
  proof (cases ?s)
    case (Inl ew)
    with g have "generation_calls (out_world (generate_loop env req j qc n (ic # ics) acc w))
                   = generation_calls w @ map snd (take 0 (ic # ics))"
      by (cases ew) (simp add: ic)
    moreover have "\<forall>qs w'. generate_loop env req j qc n (ic # ics) acc w \<noteq> Inr (qs, w')"
      using Inl by (cases ew) (simp add: ic)
    ultimately show ?thesis by (intro exI [of _ 0]) simp
  next
    case (Inr uw)
    obtain x w1 where uw: "uw = (x, w1)" by (cases uw)
    with Inr g have g1: "generation_calls w1 = generation_calls w" by simp
    let ?w2 = "w1\<lparr>generation_calls := generation_calls w1 @ [chunk]\<rparr>"
    show ?thesis
    proof (cases "reply env i chunk (req_difficulty req) (req_keywords req)")
      case (GenRaises e)
      then have r: "generate_loop env req j qc n (ic # ics) acc w = Inl (e, ?w2)"
        using Inr uw by (simp add: ic)
      then have "generation_calls (out_world (generate_loop env req j qc n (ic # ics) acc w))
                   = generation_calls w @ map snd (take 1 (ic # ics))"
        by (simp add: g1 ic)
      with r show ?thesis by (intro exI [of _ 1]) simp
    next
      case (GenReply parsed)
      let ?acc' = "acc @ generate_quiz_from_chunk parsed"
      have rq: "reply_questions env req ic = generate_quiz_from_chunk parsed"
        using GenReply by (simp add: reply_questions_def ic)
      show ?thesis
      proof (cases "qc \<le> int (length ?acc')")
        case True
        then have r: "generate_loop env req j qc n (ic # ics) acc w = Inr (?acc', ?w2)"
          using Inr uw GenReply by (simp add: ic Let_def)
        then have "generation_calls (out_world (generate_loop env req j qc n (ic # ics) acc w))
                     = generation_calls w @ map snd (take 1 (ic # ics))"
          by (simp add: g1 ic)
        with r True rq show ?thesis by (intro exI [of _ 1]) simp
      next
        case False
        then have r: "generate_loop env req j qc n (ic # ics) acc w
                        = generate_loop env req j qc n ics ?acc' ?w2"
          using Inr uw GenReply by (simp add: ic Let_def)
        from Cons.IH [of ?acc' ?w2] obtain m where m: "m \<le> length ics"
          and calls: "generation_calls (out_world (generate_loop env req j qc n ics ?acc' ?w2))
                        = generation_calls ?w2 @ map snd (take m ics)"
          and below: "\<forall>k. Suc k < m \<longrightarrow>
             int (length (?acc' @ concat (map (reply_questions env req) (take (Suc k) ics)))) < qc"
          and res: "\<forall>qs w'. generate_loop env req j qc n ics ?acc' ?w2 = Inr (qs, w') \<longrightarrow>
             qs = ?acc' @ concat (map (reply_questions env req) (take m ics))
             \<and> (m < length ics \<longrightarrow> qc \<le> int (length qs))"
          by blast
        have "generation_calls (out_world (generate_loop env req j qc n (ic # ics) acc w))
                = generation_calls ?w2 @ map snd (take m ics)"
          by (simp only: r calls)
        also have "\<dots> = generation_calls w @ map snd (take (Suc m) (ic # ics))"
          by (simp add: g1 ic)
        finally have c: "generation_calls (out_world (generate_loop env req j qc n (ic # ics) acc w))
                   = generation_calls w @ map snd (take (Suc m) (ic # ics))" .
        have b: "int (length (acc @ concat (map (reply_questions env req)
                                             (take (Suc k) (ic # ics))))) < qc"
          if "Suc k < Suc m" for k
        proof (cases k)
          case 0
          with False rq show ?thesis by simp
        next
          case (Suc k')
          with that have "Suc k' < m" by simp
          with below have "int (length (?acc' @ concat (map (reply_questions env req)
                                                         (take (Suc k') ics)))) < qc"
            by blast
          with Suc rq show ?thesis by simp
        qed
        have d: "qs = acc @ concat (map (reply_questions env req) (take (Suc m) (ic # ics)))
                 \<and> (Suc m < length (ic # ics) \<longrightarrow> qc \<le> int (length qs))"
          if "generate_loop env req j qc n (ic # ics) acc w = Inr (qs, w')" for qs w'
        proof -
          from that have "generate_loop env req j qc n ics ?acc' ?w2 = Inr (qs, w')"
            by (simp only: r)
          with res have "qs = ?acc' @ concat (map (reply_questions env req) (take m ics))"
            and "m < length ics \<longrightarrow> qc \<le> int (length qs)"
            by blast+
          then show ?thesis using rq by simp
        qed
        from m c b d show ?thesis by (intro exI [of _ "Suc m"]) simp
      qed
    qed
  qed
qed


lemma run_one_chunk:
  assumes fields: "truthy (req_job_id req)" "truthy (req_storage_path req)"
      "truthy (req_user_id req)"
    and doc: "quizJobs (jobs w) (the (req_job_id req)) = Some stored"
    and blob: "map_of (bucket w) (the (req_storage_path req)) = Some (PptxFile prs)"
    and sd: "extract_text_from_pptx (unicode_nd env) prs \<noteq> []"
    and ch: "chunk_slides (extract_text_from_pptx (unicode_nd env) prs) 3 = Inr [c]"
    and rep: "reply env 0 c (req_difficulty req) (req_keywords req) = GenReply parsed"
    and qc: "qc = (case req_question_count req of None \<Rightarrow> 10 | Some n \<Rightarrow> n)"
    and enough: "qc \<le> int (length (generate_quiz_from_chunk parsed))"
    and left: "slice_to (generate_quiz_from_chunk parsed) qc \<noteq> []"
    and ok: "quiz_write_ok env"
  shows "resp_status (fst (process_pptx env (Some req) w)) = 200
         \<and> map (\<lambda>kv. length (quiz_questions (snd kv))) (quizzes (snd (process_pptx env (Some req) w)))
             = map (\<lambda>kv. length (quiz_questions (snd kv))) (quizzes w)
               @ [length (slice_to (generate_quiz_from_chunk parsed) qc)]
         \<and> generation_calls (snd (process_pptx env (Some req) w)) = generation_calls w @ [c]"
proof -
  let ?j = "the (req_job_id req)"
  let ?sp = "the (req_storage_path req)"
  let ?u = "the (req_user_id req)"
  let ?sd = "extract_text_from_pptx (unicode_nd env) prs"
  let ?qs = "generate_quiz_from_chunk parsed"
  from set_status_succeeds [OF doc, of "[(ascii ''message'', VStr msg_download)]"
      "ascii ''processing''" 5]
  obtain w1 d1 where s1: "set_status ?j (ascii ''processing'') 5
                        [(ascii ''message'', VStr msg_download)] w = Inr ((), w1)"
    and w1: "quizzes w1 = quizzes w" "generation_calls w1 = generation_calls w"
            "bucket w1 = bucket w"
    and d1: "quizJobs (jobs w1) ?j = Some d1"
    by auto
  let ?w3 = "w1\<lparr>local_files := (tmp_path env, PptxFile prs) # local_files w1\<rparr>"
  from d1 have doc3: "quizJobs (jobs ?w3) ?j = Some d1" by simp
  from set_status_succeeds [OF doc3, of "[(ascii ''message'', VStr msg_extract)]"
      "ascii ''processing''" 15]
  obtain w4 d4 where s4: "set_status ?j (ascii ''processing'') 15
                        [(ascii ''message'', VStr msg_extract)] ?w3 = Inr ((), w4)"
    and w4: "quizzes w4 = quizzes w1" "generation_calls w4 = generation_calls w1"
    and d4: "quizJobs (jobs w4) ?j = Some d4"
    by auto
  from set_status_succeeds [OF d4,
      of "[(ascii ''message'', VStr (msg_chunks (length ?sd) 1 (req_keywords req)))]"
      "ascii ''processing''" 25]
  obtain w5 d5 where s5: "set_status ?j (ascii ''processing'') 25
                        [(ascii ''message'', VStr (msg_chunks (length ?sd) 1 (req_keywords req)))]
                        w4 = Inr ((), w5)"
    and w5: "quizzes w5 = quizzes w4" "generation_calls w5 = generation_calls w4"
    and d5: "quizJobs (jobs w5) ?j = Some d5"
    by auto
  from set_status_succeeds [OF d5, of "[(ascii ''message'', VStr (msg_generating 0 1))]"
      "ascii ''processing''" "chunk_progress env 0 1"]
  obtain w6 d6 where s6: "set_status ?j (ascii ''processing'') (chunk_progress env 0 1)
                        [(ascii ''message'', VStr (msg_generating 0 1))] w5 = Inr ((), w6)"
    and w6: "quizzes w6 = quizzes w5" "generation_calls w6 = generation_calls w5"
    and d6: "quizJobs (jobs w6) ?j = Some d6"
    by auto
  let ?w7 = "w6\<lparr>generation_calls := generation_calls w6 @ [c]\<rparr>"
  have loop: "generate_loop env req ?j qc 1 (enumerate0 [c]) [] w5 = Inr (?qs, ?w7)"
    using s6 rep enough by (simp add: enumerate0_def Let_def)
  from d6 have doc7: "quizJobs (jobs ?w7) ?j = Some d6" by simp
  from set_status_succeeds [OF doc7, of "[(ascii ''message'', VStr msg_saving)]"
      "ascii ''processing''" 90]
  obtain w8 d8 where s8: "set_status ?j (ascii ''processing'') 90
                        [(ascii ''message'', VStr msg_saving)] ?w7 = Inr ((), w8)"
    and w8: "quizzes w8 = quizzes ?w7" "generation_calls w8 = generation_calls ?w7"
    and d8: "quizJobs (jobs w8) ?j = Some d8"
    by auto
  let ?doc = "quiz_data req ?u (slice_to ?qs qc) (length ?sd) (server_time (jobs w8))"
  let ?w9 = "w8\<lparr>quizzes := quizzes w8 @ [(new_quiz_id env, ?doc)],
                 bucket := filter (\<lambda>kv. fst kv \<noteq> ?sp) (bucket w8)\<rparr>"
  from d8 have doc9: "quizJobs (jobs ?w9) ?j = Some d8" by simp
  from set_status_succeeds [OF doc9,
      of "[(ascii ''message'', VStr msg_done), (ascii ''quizId'', VStr (new_quiz_id env)),
           (ascii ''questionCount'', VInt (int (length (slice_to ?qs qc))))]"
      "ascii ''completed''" 100]
  obtain w10 where s10: "set_status ?j (ascii ''completed'') 100
        [(ascii ''message'', VStr msg_done), (ascii ''quizId'', VStr (new_quiz_id env)),
         (ascii ''questionCount'', VInt (int (length (slice_to ?qs qc))))] ?w9 = Inr ((), w10)"
    and w10: "quizzes w10 = quizzes ?w9" "generation_calls w10 = generation_calls ?w9"
    by auto
  have fin: "finish env req ?j ?sp ?u qc (length ?sd) ?qs ?w7
               = Inr (\<lparr>resp_status = 200, resp_body = QuizCreated\<rparr>, w10)"
    using left s8 ok s10 by (simp add: finish_def Let_def)
  have g: "guarded env req ?j ?sp ?u qc (PptxFile prs) ?w3
             = Inr (\<lparr>resp_status = 200, resp_body = QuizCreated\<rparr>, w10)"
    using s4 sd ch s5 loop fin by (simp add: guarded_def Let_def)
  have run: "process_pptx env (Some req) w
               = (\<lparr>resp_status = 200, resp_body = QuizCreated\<rparr>, remove_tmp env w10)"
    using fields s1 w1 blob g qc by (simp add: process_pptx_def download_and_run_def Let_def)
  show ?thesis
    by (simp add: run w10 w8 w6 w5 w4 w1)
qed


lemma finish_calls:
  "generation_calls (out_world (finish env req j sp u qc n acc w)) = generation_calls w"
proof -
  have s: "generation_calls (out_world (set_status j st p kw w0)) = generation_calls w0"
    for st p kw w0
    by (simp add: set_status_world)
  have t: "generation_calls w1 = generation_calls w0"
    if "set_status j st p kw w0 = Inr (x, w1)" for st p kw w0 x w1
    using s [of st p kw w0] that by simp
  have e: "generation_calls w1 = generation_calls w0"
    if "set_status j st p kw w0 = Inl (x, w1)" for st p kw w0 x w1
    using s [of st p kw w0] that by simp
  show ?thesis
    unfolding finish_def Let_def
    by (auto split: sum.splits dest!: t e)
qed

lemma chunk_slides_groups:
  "chunk_slides slides 3
     = Inr (map (\<lambda>g. strip (render_group g)) (consecutive_groups 3 slides))"
  using chunk_loop_groups [of 3 slides "[]" 0]
  by (simp add: chunk_slides_def py_range_def)

lemma chunk_slides_Nil: "chunk_slides [] 3 = Inr []"
  by (simp add: chunk_slides_groups)

lemma guarded_calls:
  "\<exists>m \<le> length (chunks_of env f).
      generation_calls (out_world (guarded env req j sp u qc f w))
        = generation_calls w @ take m (chunks_of env f)
      \<and> (\<forall>k. Suc k < m \<longrightarrow>
             int (length (accumulated_after env req (chunks_of env f) (Suc k))) < qc)"
proof -
  let ?s = "set_status j (ascii ''processing'') 15 [(ascii ''message'', VStr msg_extract)] w"
  have q: "generation_calls (out_world ?s) = generation_calls w" by (simp add: set_status_world)
  have none: ?thesis
    if "generation_calls (out_world (guarded env req j sp u qc f w)) = generation_calls w"
    using that by (intro exI [of _ 0]) simp
  show ?thesis
  proof (cases ?s)
    case (Inl ew)
    with q show ?thesis by (cases ew) (auto intro!: none simp: guarded_def)
  next
    case (Inr uw)
    obtain x w1 where uw: "uw = (x, w1)" by (cases uw)
    with Inr q have q1: "generation_calls w1 = generation_calls w" by simp
    show ?thesis
    proof (cases f)
      case OtherBytes
      with Inr uw q1 show ?thesis by (auto intro!: none simp: guarded_def)
    next
      case (PptxFile prs)
      let ?sd = "extract_text_from_pptx (unicode_nd env) prs"
      show ?thesis
      proof (cases "?sd = []")
        case True
        have "generation_calls (out_world (set_status j (ascii ''failed'') 0
                 [(ascii ''error'', VStr err_no_text)] w1)) = generation_calls w"
          by (simp add: set_status_world q1)
        with Inr uw PptxFile True show ?thesis
          by (auto intro!: none simp: guarded_def Let_def split: sum.splits)
      next
        case False
        show ?thesis
        proof (cases "chunk_slides ?sd 3")
          case (Inl e)
          with Inr uw PptxFile False q1 show ?thesis
            by (auto intro!: none simp: guarded_def Let_def)
        next
          case chunks: (Inr chunks)
          have co: "chunks_of env f = chunks"
            using PptxFile chunks by (simp add: chunks_of_def)
          let ?t = "set_status j (ascii ''processing'') 25
                      [(ascii ''message'',
                        VStr (msg_chunks (length ?sd) (length chunks) (req_keywords req)))] w1"
          have qt: "generation_calls (out_world ?t) = generation_calls w"
            by (simp add: set_status_world q1)
          show ?thesis
          proof (cases ?t)
            case (Inl ew)
            with qt Inr uw PptxFile False chunks show ?thesis
              by (cases ew) (auto intro!: none simp: guarded_def Let_def)
          next
            case t: (Inr uw2)
            obtain x2 w2 where uw2: "uw2 = (x2, w2)" by (cases uw2)
            with t qt have q2: "generation_calls w2 = generation_calls w" by simp
            let ?l = "generate_loop env req j qc (length chunks) (enumerate0 chunks) [] w2"
            from generate_loop_calls [of "enumerate0 chunks" env req j qc "length chunks" "[]" w2]
            obtain m where m: "m \<le> length chunks"
              and c: "generation_calls (out_world ?l) = generation_calls w @ take m chunks"
              and below: "\<forall>k. Suc k < m \<longrightarrow>
                     int (length (accumulated_after env req chunks (Suc k))) < qc"
              by (auto simp: q2 accumulated_after_def)
            have "generation_calls (out_world (guarded env req j sp u qc f w))
                    = generation_calls (out_world ?l)"
            proof (cases ?l)
              case (Inl ew)
              with Inr uw PptxFile False chunks t uw2 show ?thesis
                by (cases ew) (simp add: guarded_def Let_def)
            next
              case l: (Inr aw)
              obtain acc w3 where aw: "aw = (acc, w3)" by (cases aw)
              with Inr uw PptxFile False chunks t uw2 l show ?thesis
                by (simp add: guarded_def Let_def finish_calls)
            qed
            with m c below co show ?thesis by auto
          qed
        qed
      qed
    qed
  qed
qed

lemma process_pptx_calls_out:
  assumes "truthy (req_job_id req)" "truthy (req_storage_path req)" "truthy (req_user_id req)"
  shows "generation_calls (snd (process_pptx env (Some req) w))
           = generation_calls (out_world (download_and_run env req (the (req_job_id req))
                 (the (req_storage_path req)) (the (req_user_id req))
                 (case req_question_count req of None \<Rightarrow> 10 | Some n \<Rightarrow> n) w))"
  using assms
  by (auto simp: process_pptx_def Let_def set_status_world split: sum.splits)

lemma download_and_run_calls:
  "\<exists>m \<le> length (case map_of (bucket w) sp of None \<Rightarrow> [] | Some f \<Rightarrow> chunks_of env f).
      generation_calls (out_world (download_and_run env req j sp u qc w))
        = generation_calls w
          @ take m (case map_of (bucket w) sp of None \<Rightarrow> [] | Some f \<Rightarrow> chunks_of env f)
      \<and> (\<forall>k. Suc k < m \<longrightarrow>
             int (length (accumulated_after env req
                    (case map_of (bucket w) sp of None \<Rightarrow> [] | Some f \<Rightarrow> chunks_of env f)
                    (Suc k))) < qc)"
proof -
  let ?s = "set_status j (ascii ''processing'') 5 [(ascii ''message'', VStr msg_download)] w"
  have q: "generation_calls (out_world ?s) = generation_calls w"
    and b: "bucket (out_world ?s) = bucket w"
    by (simp_all add: set_status_world)
  have none: ?thesis
    if "generation_calls (out_world (download_and_run env req j sp u qc w)) = generation_calls w"
    using that by (intro exI [of _ 0]) simp
  show ?thesis
  proof (cases ?s)
    case (Inl ew)
    with q show ?thesis by (cases ew) (auto intro!: none simp: download_and_run_def)
  next
    case (Inr uw)
    obtain x w1 where uw: "uw = (x, w1)" by (cases uw)
    with Inr q b have q1: "generation_calls w1 = generation_calls w" "bucket w1 = bucket w"
      by simp_all
    show ?thesis
    proof (cases "map_of (bucket w) sp")
      case None
      with Inr uw q1 show ?thesis
        by (auto intro!: none simp: download_and_run_def Let_def)
    next
      case (Some f)
      let ?w3 = "w1\<lparr>local_files := (tmp_path env, f) # local_files w1\<rparr>"
      let ?g = "guarded env req j sp u qc f ?w3"
      from guarded_calls [of env f req j sp u qc ?w3]
      obtain m where m: "m \<le> length (chunks_of env f)"
        and c: "generation_calls (out_world ?g) = generation_calls w @ take m (chunks_of env f)"
        and below: "\<forall>k. Suc k < m \<longrightarrow>
                 int (length (accumulated_after env req (chunks_of env f) (Suc k))) < qc"
        by (auto simp: q1)
      have "out_world (download_and_run env req j sp u qc w) = remove_tmp env (out_world ?g)"
        using Inr uw Some q1 by (simp add: download_and_run_def Let_def out_world_finally)
      with m c below Some show ?thesis by auto
    qed
  qed
qed

lemma process_pptx_calls:
  "\<exists>m \<le> length (run_chunks env req w).
      generation_calls (snd (process_pptx env (Some req) w))
        = generation_calls w @ take m (run_chunks env req w)
      \<and> (\<forall>k. Suc k < m \<longrightarrow>
             int (length (accumulated_after env req (run_chunks env req w) (Suc k)))
               < (case req_question_count req of None \<Rightarrow> 10 | Some n \<Rightarrow> n))"
proof (cases "truthy (req_job_id req) \<and> truthy (req_storage_path req) \<and> truthy (req_user_id req)")
  case False
  then have "generation_calls (snd (process_pptx env (Some req) w)) = generation_calls w"
    by (auto simp: process_pptx_def)
  then show ?thesis by (intro exI [of _ 0]) simp
next
  case True
  then obtain sp where sp: "req_storage_path req = Some sp" by (auto simp: truthy_def)
  then have rc: "run_chunks env req w
                   = (case map_of (bucket w) sp of None \<Rightarrow> [] | Some f \<Rightarrow> chunks_of env f)"
    by (simp add: run_chunks_def)
  from True have eq: "generation_calls (snd (process_pptx env (Some req) w))
           = generation_calls (out_world (download_and_run env req (the (req_job_id req))
                 sp (the (req_user_id req))
                 (case req_question_count req of None \<Rightarrow> 10 | Some n \<Rightarrow> n) w))"
    using process_pptx_calls_out [of req env w] sp by simp
  show ?thesis
    unfolding rc eq by (rule download_and_run_calls)
qed

lemma process_pptx_stops:
  assumes fields: "truthy (req_job_id req)" "truthy (req_storage_path req)"
      "truthy (req_user_id req)"
    and doc: "quizJobs (jobs w) (the (req_job_id req)) = Some stored"
    and some: "run_chunks env req w \<noteq> []"
    and ret: "all_return env req (enumerate0 (run_chunks env req w))"
  shows "\<exists>m \<le> length (run_chunks env req w). 1 \<le> m
      \<and> generation_calls (snd (process_pptx env (Some req) w))
          = generation_calls w @ take m (run_chunks env req w)
      \<and> (\<forall>k. Suc k < m \<longrightarrow>
             int (length (accumulated_after env req (run_chunks env req w) (Suc k)))
               < (case req_question_count req of None \<Rightarrow> 10 | Some n \<Rightarrow> n))
      \<and> (m < length (run_chunks env req w)
           \<longrightarrow> (case req_question_count req of None \<Rightarrow> 10 | Some n \<Rightarrow> n)
                 \<le> int (length (accumulated_after env req (run_chunks env req w) m)))"
proof -
  let ?qc = "case req_question_count req of None \<Rightarrow> 10 | Some n \<Rightarrow> n"
  let ?j = "the (req_job_id req)"
  let ?u = "the (req_user_id req)"
  let ?cs = "run_chunks env req w"
  from fields obtain sp where sp: "req_storage_path req = Some sp" by (auto simp: truthy_def)
  from some sp obtain f where f: "map_of (bucket w) sp = Some f" and cf: "?cs = chunks_of env f"
    by (cases "map_of (bucket w) sp") (auto simp: run_chunks_def)
  from some cf obtain prs where prs: "f = PptxFile prs"
    by (cases f) (auto simp: chunks_of_def)
  let ?sd = "extract_text_from_pptx (unicode_nd env) prs"
  from some cf prs have ch: "chunk_slides ?sd 3 = Inr ?cs"
    by (cases "chunk_slides ?sd 3") (auto simp: chunks_of_def)
  have sd: "?sd \<noteq> []"
  proof
    assume "?sd = []"
    with ch have "?cs = []" by (simp add: chunk_slides_Nil)
    with some show False by simp
  qed
  from f prs have blob: "map_of (bucket w) sp = Some (PptxFile prs)" by simp
  from run_reaches_finish [OF doc blob sd ch ret, of ?u ?qc]
  obtain m w6 where m: "m \<le> length ?cs" "?cs \<noteq> [] \<longrightarrow> 1 \<le> m"
    and run: "download_and_run env req ?j sp ?u ?qc w
               = (case finish env req ?j sp ?u ?qc (length ?sd)
                         (accumulate env req ?qc (enumerate0 ?cs) []) w6 of
                    Inl (e, w') \<Rightarrow> Inl (e, remove_tmp env w')
                  | Inr (resp, w') \<Rightarrow> Inr (resp, remove_tmp env w'))"
    and calls: "generation_calls w6 = generation_calls w @ take m ?cs"
    and below: "\<forall>k. Suc k < m \<longrightarrow> int (length (accumulated_after env req ?cs (Suc k))) < ?qc"
    and reached: "m < length ?cs \<longrightarrow> ?qc \<le> int (length (accumulated_after env req ?cs m))"
    by blast
  have "generation_calls (snd (process_pptx env (Some req) w))
          = generation_calls (out_world (download_and_run env req ?j sp ?u ?qc w))"
    using process_pptx_calls_out [OF fields, of env w] sp by simp
  also have "\<dots> = generation_calls w6"
    by (simp only: run out_world_finally remove_tmp_silent finish_calls)
  finally have "generation_calls (snd (process_pptx env (Some req) w))
                  = generation_calls w @ take m ?cs"
    using calls by simp
  with m some below reached show ?thesis by (intro exI [of _ m]) simp
qed

text \<open>
  Claim C2, as amended. For a requested count that is not negative (10 when the request
  has none), a run of \<^verbatim>\<open>process_pptx\<close> writes nothing to the collection \<^verbatim>\<open>quizzes\<close> or one
  document with at most that many questions. In every run, the generator is called for a
  prefix of the run's chunks, in order and once each, and a chunk after the first is
  visited only when the validated questions accumulated over the chunks before it are fewer
  than the requested count. When moreover the required fields are present, the job's record
  exists, the presentation yields at least one chunk and every generator call returns, the
  first chunk is visited, and the run leaves chunks unvisited only when the validated
  questions accumulated over the visited chunks have reached the requested count.
\<close>

theorem question_count_bound_and_early_stop:
  "(0 \<le> (case req_question_count req of None \<Rightarrow> 10 | Some n \<Rightarrow> n)
    \<longrightarrow> persisted_within (case req_question_count req of None \<Rightarrow> 10 | Some n \<Rightarrow> n) w
          (snd (process_pptx env (Some req) w)))
   \<and> (\<exists>m \<le> length (run_chunks env req w).
         generation_calls (snd (process_pptx env (Some req) w))
           = generation_calls w @ take m (run_chunks env req w)
         \<and> (\<forall>k. Suc k < m \<longrightarrow>
                int (length (accumulated_after env req (run_chunks env req w) (Suc k)))
                  < (case req_question_count req of None \<Rightarrow> 10 | Some n \<Rightarrow> n))
         \<and> (truthy (req_job_id req) \<and> truthy (req_storage_path req) \<and> truthy (req_user_id req)
              \<and> quizJobs (jobs w) (the (req_job_id req)) = Some stored
              \<and> run_chunks env req w \<noteq> []
              \<and> all_return env req (enumerate0 (run_chunks env req w))
            \<longrightarrow> 1 \<le> m
                \<and> (m < length (run_chunks env req w)
                     \<longrightarrow> (case req_question_count req of None \<Rightarrow> 10 | Some n \<Rightarrow> n)
                           \<le> int (length (accumulated_after env req
                                             (run_chunks env req w) m)))))"
proof (rule conjI)
  show "0 \<le> (case req_question_count req of None \<Rightarrow> 10 | Some n \<Rightarrow> n)
    \<longrightarrow> persisted_within (case req_question_count req of None \<Rightarrow> 10 | Some n \<Rightarrow> n) w
          (snd (process_pptx env (Some req) w))"
    using process_pptx_persisted [of req w env] by blast
next
  let ?N = "truthy (req_job_id req) \<and> truthy (req_storage_path req) \<and> truthy (req_user_id req)
              \<and> quizJobs (jobs w) (the (req_job_id req)) = Some stored
              \<and> run_chunks env req w \<noteq> []
              \<and> all_return env req (enumerate0 (run_chunks env req w))"
  show "\<exists>m \<le> length (run_chunks env req w).
         generation_calls (snd (process_pptx env (Some req) w))
           = generation_calls w @ take m (run_chunks env req w)
         \<and> (\<forall>k. Suc k < m \<longrightarrow>
                int (length (accumulated_after env req (run_chunks env req w) (Suc k)))
                  < (case req_question_count req of None \<Rightarrow> 10 | Some n \<Rightarrow> n))
         \<and> (?N \<longrightarrow> 1 \<le> m
                \<and> (m < length (run_chunks env req w)
                     \<longrightarrow> (case req_question_count req of None \<Rightarrow> 10 | Some n \<Rightarrow> n)
                           \<le> int (length (accumulated_after env req
                                             (run_chunks env req w) m))))"
  proof (cases ?N)
    case True
    then have "\<exists>m \<le> length (run_chunks env req w). 1 \<le> m
      \<and> generation_calls (snd (process_pptx env (Some req) w))
          = generation_calls w @ take m (run_chunks env req w)
      \<and> (\<forall>k. Suc k < m \<longrightarrow>
             int (length (accumulated_after env req (run_chunks env req w) (Suc k)))
               < (case req_question_count req of None \<Rightarrow> 10 | Some n \<Rightarrow> n))
      \<and> (m < length (run_chunks env req w)
           \<longrightarrow> (case req_question_count req of None \<Rightarrow> 10 | Some n \<Rightarrow> n)
                 \<le> int (length (accumulated_after env req (run_chunks env req w) m)))"
      by (intro process_pptx_stops [where stored = stored]) simp_all
    then show ?thesis by blast
  next
    case False
    with process_pptx_calls [of env req w] show ?thesis by blast
  qed
qed

theorem question_count_bound_and_early_stop_witness:
  "(0::int) \<le> 1
   \<and> run_chunks
          \<lparr>unicode_nd = (\<lambda>c. False), tmp_path = ascii ''/tmp/t.pptx'',
            reply = (\<lambda>i chunk difficulty keywords. GenReply (Some (JArr [
              JObj [(ascii ''question'', JStr (ascii ''Q'')),
                    (ascii ''choices'', JArr [JStr (ascii ''a''), JStr (ascii ''b''),
                                             JStr (ascii ''c''), JStr (ascii ''d'')]),
                    (ascii ''answer_index'', JInt 0),
                    (ascii ''explanation'', JStr (ascii ''E''))]]))),
            chunk_progress = (\<lambda>i n. 25), new_quiz_id = ascii ''quiz1'', quiz_write_ok = True,
            error_text = (\<lambda>e. ascii ''error'')\<rparr>
          \<lparr>req_job_id = Some (ascii ''j''), req_storage_path = Some (ascii ''p''),
            req_user_id = Some (ascii ''u''), req_folder_name = None, req_difficulty = None,
            req_question_count = Some 1, req_tags = [], req_keywords = []\<rparr>
          \<lparr>jobs = \<lparr>quizJobs = [ascii ''j'' \<mapsto> Map.empty], server_time = 7\<rparr>,
            quizzes = [],
            bucket = [(ascii ''p'', PptxFile
              [[\<lparr>has_text_frame = True, is_title = True, shape_text = [84], paragraphs = [],
                 has_table = False, table_rows = []\<rparr>], [\<lparr>has_text_frame = True, is_title = True, shape_text = [84], paragraphs = [],
                 has_table = False, table_rows = []\<rparr>], [\<lparr>has_text_frame = True, is_title = True, shape_text = [84], paragraphs = [],
                 has_table = False, table_rows = []\<rparr>], [\<lparr>has_text_frame = True, is_title = True, shape_text = [84], paragraphs = [],
                 has_table = False, table_rows = []\<rparr>]])],
            local_files = [], status_calls = [], generation_calls = []\<rparr>
       = [strip (render_group [\<lparr>slide_num = 1, title = [84], content = []\<rparr>, \<lparr>slide_num = 2, title = [84], content = []\<rparr>, \<lparr>slide_num = 3, title = [84], content = []\<rparr>]),
          strip (render_group [\<lparr>slide_num = 4, title = [84], content = []\<rparr>])]
   \<and> persisted_within 1
          \<lparr>jobs = \<lparr>quizJobs = [ascii ''j'' \<mapsto> Map.empty], server_time = 7\<rparr>,
            quizzes = [],
            bucket = [(ascii ''p'', PptxFile
              [[\<lparr>has_text_frame = True, is_title = True, shape_text = [84], paragraphs = [],
                 has_table = False, table_rows = []\<rparr>], [\<lparr>has_text_frame = True, is_title = True, shape_text = [84], paragraphs = [],
                 has_table = False, table_rows = []\<rparr>], [\<lparr>has_text_frame = True, is_title = True, shape_text = [84], paragraphs = [],
                 has_table = False, table_rows = []\<rparr>], [\<lparr>has_text_frame = True, is_title = True, shape_text = [84], paragraphs = [],
                 has_table = False, table_rows = []\<rparr>]])],
            local_files = [], status_calls = [], generation_calls = []\<rparr>
          (snd (process_pptx
          \<lparr>unicode_nd = (\<lambda>c. False), tmp_path = ascii ''/tmp/t.pptx'',
            reply = (\<lambda>i chunk difficulty keywords. GenReply (Some (JArr [
              JObj [(ascii ''question'', JStr (ascii ''Q'')),
                    (ascii ''choices'', JArr [JStr (ascii ''a''), JStr (ascii ''b''),
                                             JStr (ascii ''c''), JStr (ascii ''d'')]),
                    (ascii ''answer_index'', JInt 0),
                    (ascii ''explanation'', JStr (ascii ''E''))]]))),
            chunk_progress = (\<lambda>i n. 25), new_quiz_id = ascii ''quiz1'', quiz_write_ok = True,
            error_text = (\<lambda>e. ascii ''error'')\<rparr>
          (Some \<lparr>req_job_id = Some (ascii ''j''), req_storage_path = Some (ascii ''p''),
            req_user_id = Some (ascii ''u''), req_folder_name = None, req_difficulty = None,
            req_question_count = Some 1, req_tags = [], req_keywords = []\<rparr>)
          \<lparr>jobs = \<lparr>quizJobs = [ascii ''j'' \<mapsto> Map.empty], server_time = 7\<rparr>,
            quizzes = [],
            bucket = [(ascii ''p'', PptxFile
              [[\<lparr>has_text_frame = True, is_title = True, shape_text = [84], paragraphs = [],
                 has_table = False, table_rows = []\<rparr>], [\<lparr>has_text_frame = True, is_title = True, shape_text = [84], paragraphs = [],
                 has_table = False, table_rows = []\<rparr>], [\<lparr>has_text_frame = True, is_title = True, shape_text = [84], paragraphs = [],
                 has_table = False, table_rows = []\<rparr>], [\<lparr>has_text_frame = True, is_title = True, shape_text = [84], paragraphs = [],
                 has_table = False, table_rows = []\<rparr>]])],
            local_files = [], status_calls = [], generation_calls = []\<rparr>))
   \<and> generation_calls (snd (process_pptx
          \<lparr>unicode_nd = (\<lambda>c. False), tmp_path = ascii ''/tmp/t.pptx'',
            reply = (\<lambda>i chunk difficulty keywords. GenReply (Some (JArr [
              JObj [(ascii ''question'', JStr (ascii ''Q'')),
                    (ascii ''choices'', JArr [JStr (ascii ''a''), JStr (ascii ''b''),
                                             JStr (ascii ''c''), JStr (ascii ''d'')]),
                    (ascii ''answer_index'', JInt 0),
                    (ascii ''explanation'', JStr (ascii ''E''))]]))),
            chunk_progress = (\<lambda>i n. 25), new_quiz_id = ascii ''quiz1'', quiz_write_ok = True,
            error_text = (\<lambda>e. ascii ''error'')\<rparr>
          (Some \<lparr>req_job_id = Some (ascii ''j''), req_storage_path = Some (ascii ''p''),
            req_user_id = Some (ascii ''u''), req_folder_name = None, req_difficulty = None,
            req_question_count = Some 1, req_tags = [], req_keywords = []\<rparr>)
          \<lparr>jobs = \<lparr>quizJobs = [ascii ''j'' \<mapsto> Map.empty], server_time = 7\<rparr>,
            quizzes = [],
            bucket = [(ascii ''p'', PptxFile
              [[\<lparr>has_text_frame = True, is_title = True, shape_text = [84], paragraphs = [],
                 has_table = False, table_rows = []\<rparr>], [\<lparr>has_text_frame = True, is_title = True, shape_text = [84], paragraphs = [],
                 has_table = False, table_rows = []\<rparr>], [\<lparr>has_text_frame = True, is_title = True, shape_text = [84], paragraphs = [],
                 has_table = False, table_rows = []\<rparr>], [\<lparr>has_text_frame = True, is_title = True, shape_text = [84], paragraphs = [],
                 has_table = False, table_rows = []\<rparr>]])],
            local_files = [], status_calls = [], generation_calls = []\<rparr>))
       = [strip (render_group [\<lparr>slide_num = 1, title = [84], content = []\<rparr>, \<lparr>slide_num = 2, title = [84], content = []\<rparr>, \<lparr>slide_num = 3, title = [84], content = []\<rparr>])]"
proof -
  define q0 where "q0 = JObj [(ascii ''question'', JStr (ascii ''Q'')),
                    (ascii ''choices'', JArr [JStr (ascii ''a''), JStr (ascii ''b''),
                                             JStr (ascii ''c''), JStr (ascii ''d'')]),
                    (ascii ''answer_index'', JInt 0),
                    (ascii ''explanation'', JStr (ascii ''E''))]"
  define r0 where "r0 = \<lparr>question = JStr (ascii ''Q''),
         choices = JArr [JStr (ascii ''a''), JStr (ascii ''b''), JStr (ascii ''c''),
                         JStr (ascii ''d'')],
         answer_index = JInt 0, explanation = JStr (ascii ''E''), topic = JStr []\<rparr>"
  define env where "env = \<lparr>unicode_nd = (\<lambda>c. False), tmp_path = ascii ''/tmp/t.pptx'',
            reply = (\<lambda>i chunk difficulty keywords. GenReply (Some (JArr [q0]))),
            chunk_progress = (\<lambda>i n. 25), new_quiz_id = ascii ''quiz1'', quiz_write_ok = True,
            error_text = (\<lambda>e. ascii ''error'')\<rparr>"
  define req where "req = \<lparr>req_job_id = Some (ascii ''j''), req_storage_path = Some (ascii ''p''),
            req_user_id = Some (ascii ''u''), req_folder_name = None, req_difficulty = None,
            req_question_count = Some 1, req_tags = [], req_keywords = []\<rparr>"
  define prs where "prs = [[\<lparr>has_text_frame = True, is_title = True, shape_text = [84], paragraphs = [],
                 has_table = False, table_rows = []\<rparr>], [\<lparr>has_text_frame = True, is_title = True, shape_text = [84], paragraphs = [],
                 has_table = False, table_rows = []\<rparr>], [\<lparr>has_text_frame = True, is_title = True, shape_text = [84], paragraphs = [],
                 has_table = False, table_rows = []\<rparr>], [\<lparr>has_text_frame = True, is_title = True, shape_text = [84], paragraphs = [],
                 has_table = False, table_rows = []\<rparr>]]"
  define w where "w = \<lparr>jobs = \<lparr>quizJobs = [ascii ''j'' \<mapsto> Map.empty], server_time = 7\<rparr>,
            quizzes = [], bucket = [(ascii ''p'', PptxFile prs)],
            local_files = [], status_calls = [], generation_calls = []\<rparr>"
  define c1 where "c1 = strip (render_group [\<lparr>slide_num = 1, title = [84], content = []\<rparr>, \<lparr>slide_num = 2, title = [84], content = []\<rparr>, \<lparr>slide_num = 3, title = [84], content = []\<rparr>])"
  define c2 where "c2 = strip (render_group [\<lparr>slide_num = 4, title = [84], content = []\<rparr>])"
  have ne: "ascii ''j'' \<noteq> []" "ascii ''p'' \<noteq> []" "ascii ''u'' \<noteq> []"
    by (simp_all add: ascii_def)
  have val: "validate_one q0 = Inr (Some r0)"
    by (simp add: q0_def r0_def validate_one_def required_keys_def ascii_def)
  have gq: "generate_quiz_from_chunk (Some (JArr [q0])) = [r0]"
    by (simp add: generate_quiz_from_chunk_def val)
  have coll: "collect_slides prs = ([\<lparr>slide_num = 1, title = [84], content = []\<rparr>, \<lparr>slide_num = 2, title = [84], content = []\<rparr>, \<lparr>slide_num = 3, title = [84], content = []\<rparr>, \<lparr>slide_num = 4, title = [84], content = []\<rparr>], [])"
    unfolding prs_def
    by (simp add: collect_slides_def enumerate1_def slide_step_def slide_text_def shape_step_def
        strip_def lstrip_def rstrip_def py_isspace_def Let_def upt_rec)
  have fc: "filter_content (\<lambda>c. False) [] [] = []"
    by (simp add: filter_content_def page_num_match_empty)
  have sd: "extract_text_from_pptx (\<lambda>c. False) prs = [\<lparr>slide_num = 1, title = [84], content = []\<rparr>, \<lparr>slide_num = 2, title = [84], content = []\<rparr>, \<lparr>slide_num = 3, title = [84], content = []\<rparr>, \<lparr>slide_num = 4, title = [84], content = []\<rparr>]"
    by (simp add: extract_text_from_pptx_def coll footers_to_remove_def fc)
  have gr: "consecutive_groups 3 [\<lparr>slide_num = 1, title = [84], content = []\<rparr>, \<lparr>slide_num = 2, title = [84], content = []\<rparr>, \<lparr>slide_num = 3, title = [84], content = []\<rparr>, \<lparr>slide_num = 4, title = [84], content = []\<rparr>] = [[\<lparr>slide_num = 1, title = [84], content = []\<rparr>, \<lparr>slide_num = 2, title = [84], content = []\<rparr>, \<lparr>slide_num = 3, title = [84], content = []\<rparr>], [\<lparr>slide_num = 4, title = [84], content = []\<rparr>]]"
    by (simp add: consecutive_groups.simps [of 3 "x # xs" for x xs])
  have rc: "run_chunks env req w = [c1, c2]"
    by (simp add: run_chunks_def chunks_of_def req_def w_def env_def sd chunk_slides_groups gr
        c1_def c2_def)
  have a1: "accumulated_after env req [c1, c2] (Suc 0) = [r0]"
    by (simp add: accumulated_after_def enumerate0_def reply_questions_def env_def gq upt_rec)
  have ret: "all_return env req (enumerate0 [c1, c2])"
    by (simp add: all_return_def returns_def enumerate0_def env_def upt_rec)
  have qc: "(case req_question_count req of None \<Rightarrow> 10 | Some n \<Rightarrow> n) = 1"
    by (simp add: req_def)
  have n: "truthy (req_job_id req) \<and> truthy (req_storage_path req) \<and> truthy (req_user_id req)
              \<and> quizJobs (jobs w) (the (req_job_id req)) = Some Map.empty
              \<and> run_chunks env req w \<noteq> []
              \<and> all_return env req (enumerate0 (run_chunks env req w))"
    unfolding rc using ret by (simp add: req_def w_def truthy_def ne)
  have g0: "generation_calls w = []" by (simp add: w_def)
  note inst = question_count_bound_and_early_stop [where req = req and w = w and env = env
      and stored = Map.empty]
  from inst have p: "persisted_within 1 w (snd (process_pptx env (Some req) w))"
    by (simp only: qc simp_thms)
  from inst have "\<exists>m \<le> length [c1, c2].
         generation_calls (snd (process_pptx env (Some req) w))
           = generation_calls w @ take m [c1, c2]
         \<and> (\<forall>k. Suc k < m \<longrightarrow>
                int (length (accumulated_after env req [c1, c2] (Suc k))) < 1)
         \<and> (truthy (req_job_id req) \<and> truthy (req_storage_path req) \<and> truthy (req_user_id req)
              \<and> quizJobs (jobs w) (the (req_job_id req)) = Some Map.empty
              \<and> run_chunks env req w \<noteq> []
              \<and> all_return env req (enumerate0 (run_chunks env req w))
            \<longrightarrow> 1 \<le> m
                \<and> (m < length [c1, c2]
                     \<longrightarrow> 1 \<le> int (length (accumulated_after env req [c1, c2] m))))"
    unfolding qc rc by (rule conjunct2)
  then have calls: "generation_calls (snd (process_pptx env (Some req) w)) = [c1]"
  proof (elim exE conjE)
    fix m
    assume m: "m \<le> length [c1, c2]"
      and c: "generation_calls (snd (process_pptx env (Some req) w))
                = generation_calls w @ take m [c1, c2]"
      and below: "\<forall>k. Suc k < m \<longrightarrow>
                int (length (accumulated_after env req [c1, c2] (Suc k))) < 1"
      and first: "truthy (req_job_id req) \<and> truthy (req_storage_path req)
              \<and> truthy (req_user_id req)
              \<and> quizJobs (jobs w) (the (req_job_id req)) = Some Map.empty
              \<and> run_chunks env req w \<noteq> []
              \<and> all_return env req (enumerate0 (run_chunks env req w))
            \<longrightarrow> 1 \<le> m
                \<and> (m < length [c1, c2]
                     \<longrightarrow> 1 \<le> int (length (accumulated_after env req [c1, c2] m)))"
    from first n have m1: "1 \<le> m" by (simp only: simp_thms)
    have "\<not> Suc 0 < m"
    proof
      assume "Suc 0 < m"
      with below have "int (length (accumulated_after env req [c1, c2] (Suc 0))) < 1" by blast
      then show False by (simp add: a1)
    qed
    with m1 have "m = 1" by simp
    with c g0 show ?thesis by simp
  qed
  from rc p calls
  have "(0::int) \<le> 1 \<and> run_chunks env req w = [c1, c2]
        \<and> persisted_within 1 w (snd (process_pptx env (Some req) w))
        \<and> generation_calls (snd (process_pptx env (Some req) w)) = [c1]"
    by simp
  then show ?thesis unfolding env_def req_def w_def prs_def c1_def c2_def q0_def .
qed

text \<open>
  Claim C2 as stated fails for a negative requested count. With the count -1 and one chunk
  whose reply holds three valid questions, the loop stops after that chunk, the slice
  \<^verbatim>\<open>all_questions[:-1]\<close> keeps two questions, and the document written has two questions,
  more than the requested count.
\<close>

theorem negative_count_counterexample:
  "map (\<lambda>kv. int (length (quiz_questions (snd kv))))
     (quizzes (snd (process_pptx
        \<lparr>unicode_nd = (\<lambda>c. False), tmp_path = ascii ''/tmp/t.pptx'',
            reply = (\<lambda>i chunk difficulty keywords. GenReply (Some (JArr [
              JObj [(ascii ''question'', JStr (ascii ''Q'')),
                             (ascii ''choices'', JArr [JStr (ascii ''a''), JStr (ascii ''b''),
                                                      JStr (ascii ''c''), JStr (ascii ''d'')]),
                             (ascii ''answer_index'', JInt 0),
                             (ascii ''explanation'', JStr (ascii ''E''))], 
              JObj [(ascii ''question'', JStr (ascii ''Q'')),
                             (ascii ''choices'', JArr [JStr (ascii ''a''), JStr (ascii ''b''),
                                                      JStr (ascii ''c''), JStr (ascii ''d'')]),
                             (ascii ''answer_index'', JInt 0),
                             (ascii ''explanation'', JStr (ascii ''E''))], 
              JObj [(ascii ''question'', JStr (ascii ''Q'')),
                             (ascii ''choices'', JArr [JStr (ascii ''a''), JStr (ascii ''b''),
                                                      JStr (ascii ''c''), JStr (ascii ''d'')]),
                             (ascii ''answer_index'', JInt 0),
                             (ascii ''explanation'', JStr (ascii ''E''))]]))),
            chunk_progress = (\<lambda>i n. 25), new_quiz_id = ascii ''quiz1'', quiz_write_ok = True,
            error_text = (\<lambda>e. ascii ''error'')\<rparr>
        (Some \<lparr>req_job_id = Some (ascii ''j''), req_storage_path = Some (ascii ''p''),
            req_user_id = Some (ascii ''u''), req_folder_name = None, req_difficulty = None,
            req_question_count = Some (- 1), req_tags = [], req_keywords = []\<rparr>)
        \<lparr>jobs = \<lparr>quizJobs = [ascii ''j'' \<mapsto> Map.empty], server_time = 7\<rparr>,
            quizzes = [], bucket = [(ascii ''p'', PptxFile
              [[\<lparr>has_text_frame = True, is_title = False, shape_text = [],
                paragraphs = [ascii ''hello''], has_table = False, table_rows = []\<rparr>]])],
            local_files = [], status_calls = [], generation_calls = []\<rparr>))) = [2]
   \<and> \<not> (2::int) \<le> - 1"
proof -
  define q0 where "q0 = JObj [(ascii ''question'', JStr (ascii ''Q'')),
                 (ascii ''choices'', JArr [JStr (ascii ''a''), JStr (ascii ''b''),
                                          JStr (ascii ''c''), JStr (ascii ''d'')]),
                 (ascii ''answer_index'', JInt 0),
                 (ascii ''explanation'', JStr (ascii ''E''))]"
  define prs where "prs = [[\<lparr>has_text_frame = True, is_title = False, shape_text = [],
            paragraphs = [ascii ''hello''], has_table = False, table_rows = []\<rparr>]]"
  define w where "w = \<lparr>jobs = \<lparr>quizJobs = [ascii ''j'' \<mapsto> Map.empty], server_time = 7\<rparr>,
        quizzes = [], bucket = [(ascii ''p'', PptxFile prs)],
        local_files = [], status_calls = [], generation_calls = []\<rparr>"
  define r0 where "r0 = \<lparr>question = JStr (ascii ''Q''),
         choices = JArr [JStr (ascii ''a''), JStr (ascii ''b''), JStr (ascii ''c''),
                         JStr (ascii ''d'')],
         answer_index = JInt 0, explanation = JStr (ascii ''E''), topic = JStr []\<rparr>"
  have ne: "ascii ''j'' \<noteq> []" "ascii ''p'' \<noteq> []" "ascii ''u'' \<noteq> []"
    by (simp_all add: ascii_def)
  have val: "validate_one q0 = Inr (Some r0)"
    by (simp add: q0_def r0_def validate_one_def required_keys_def ascii_def)
  have sd: "extract_text_from_pptx (\<lambda>c. False) prs
              = [\<lparr>slide_num = 1, title = [], content = ascii ''hello''\<rparr>]"
    unfolding prs_def by (auto simp: extract_defs)
  have ch: "chunk_slides [\<lparr>slide_num = 1, title = [], content = ascii ''hello''\<rparr>] 3
              = Inr [strip (render_group [\<lparr>slide_num = 1, title = [], content = ascii ''hello''\<rparr>])]"
    using chunk_loop_groups [of 3 "[\<lparr>slide_num = 1, title = [], content = ascii ''hello''\<rparr>]" "[]" 0]
    by (simp add: chunk_slides_def py_range_def consecutive_groups.simps [of 3 "[x]" for x])

  define env3 where "env3 = \<lparr>unicode_nd = (\<lambda>c. False), tmp_path = ascii ''/tmp/t.pptx'',
        reply = (\<lambda>i chunk difficulty keywords. GenReply (Some (JArr [q0, q0, q0]))),
        chunk_progress = (\<lambda>i n. 25), new_quiz_id = ascii ''quiz1'', quiz_write_ok = True,
        error_text = (\<lambda>e. ascii ''error'')\<rparr>"
  define req where "req = \<lparr>req_job_id = Some (ascii ''j''), req_storage_path = Some (ascii ''p''),
            req_user_id = Some (ascii ''u''), req_folder_name = None, req_difficulty = None,
            req_question_count = Some (- 1), req_tags = [], req_keywords = []\<rparr>"
  have gq: "generate_quiz_from_chunk (Some (JArr [q0, q0, q0])) = [r0, r0, r0]"
    by (simp add: generate_quiz_from_chunk_def val)
  have sl: "slice_to [r0, r0, r0] (- 1) = [r0, r0]"
    by (simp add: slice_to_def)
  have "resp_status (fst (process_pptx env3 (Some req) w)) = 200
         \<and> map (\<lambda>kv. length (quiz_questions (snd kv))) (quizzes (snd (process_pptx env3 (Some req) w)))
             = map (\<lambda>kv. length (quiz_questions (snd kv))) (quizzes w)
               @ [length (slice_to (generate_quiz_from_chunk (Some (JArr [q0, q0, q0]))) (- 1))]
         \<and> generation_calls (snd (process_pptx env3 (Some req) w))
             = generation_calls w
               @ [strip (render_group [\<lparr>slide_num = 1, title = [], content = ascii ''hello''\<rparr>])]"
    by (rule run_one_chunk [where stored = Map.empty and prs = prs])
       (simp_all add: env3_def req_def w_def truthy_def ne sd ch gq sl)
  then have "map (\<lambda>kv. length (quiz_questions (snd kv)))
               (quizzes (snd (process_pptx env3 (Some req) w))) = [2]"
    by (simp add: gq sl w_def)
  then have "map (\<lambda>kv. int (length (quiz_questions (snd kv))))
               (quizzes (snd (process_pptx env3 (Some req) w))) = [2]"
    by (cases "quizzes (snd (process_pptx env3 (Some req) w))") auto
  then have "map (\<lambda>kv. int (length (quiz_questions (snd kv))))
               (quizzes (snd (process_pptx env3 (Some req) w))) = [2]
             \<and> \<not> (2::int) \<le> - 1"
    by simp
  then show ?thesis unfolding env3_def req_def w_def prs_def q0_def .
qed


end
